(* ===== verification/CT_Prelude.thy ===== *)
theory CT_Prelude
  imports Main "HOL-Library.Word"
begin

text \<open>
  Shared vocabulary of the development: the machine types of the Go sources, big-endian byte
  strings (package \<^verbatim>\<open>encoding/binary\<close>), the few functions of \<^verbatim>\<open>strings\<close> and \<^verbatim>\<open>strconv\<close>
  that the sources call, the error monad, and the interface of a byte codec as a locale.
  The standard library functions are modelled by their documented meaning; everything under
  \<^verbatim>\<open>src/\<close> is modelled in the component theories.
\<close>

unbundle bit_operations_syntax

section \<open>Machine types\<close>

type_synonym byte = "8 word"
type_synonym u16 = "16 word"
type_synonym u32 = "32 word"
type_synonym u64 = "64 word"
type_synonym bytes = "byte list"

named_theorems codec_simps \<open>unfolding rules of the wire encodings\<close>
named_theorems result_simps \<open>inversion rules of the error monad\<close>

section \<open>Results: errors as the left injection\<close>

definition bind_res :: "'e + 'a \<Rightarrow> ('a \<Rightarrow> 'e + 'b) \<Rightarrow> 'e + 'b" where
  "bind_res m f = (case m of Inl e \<Rightarrow> Inl e | Inr x \<Rightarrow> f x)"

text \<open>A computation that may also run forever: \<open>None\<close> stands for not returning.\<close>

type_synonym ('e, 'a) run = "('e + 'a) option"

definition bind_run :: "('e, 'a) run \<Rightarrow> ('a \<Rightarrow> ('e, 'b) run) \<Rightarrow> ('e, 'b) run" where
  "bind_run m f =
     (case m of None \<Rightarrow> None | Some (Inl e) \<Rightarrow> Some (Inl e) | Some (Inr x) \<Rightarrow> f x)"

section \<open>Big-endian byte strings\<close>

primrec be_bytes :: "nat \<Rightarrow> nat \<Rightarrow> bytes" where
  "be_bytes 0 k = []"
| "be_bytes (Suc n) k = word_of_nat (k div 256 ^ n) # be_bytes n k"

definition be_nat :: "bytes \<Rightarrow> nat" where
  "be_nat bs = foldl (\<lambda>r b. 256 * r + unat b) 0 bs"

section \<open>Strings\<close>

text \<open>\<^verbatim>\<open>strings.HasPrefix\<close>, \<^verbatim>\<open>strings.Split\<close> with a one-byte separator.\<close>

definition has_prefix :: "string \<Rightarrow> string \<Rightarrow> bool" where
  "has_prefix s p \<longleftrightarrow> take (length p) s = p"

fun split_on :: "char \<Rightarrow> string \<Rightarrow> string list" where
  "split_on sep [] = [[]]"
| "split_on sep (c # cs) =
     (if c = sep then [] # split_on sep cs
      else (case split_on sep cs of [] \<Rightarrow> [[c]] | w # ws \<Rightarrow> (c # w) # ws))"

text \<open>
  \<^verbatim>\<open>strconv.ParseUint(s, 10, bits)\<close>: \<open>None\<close> for the empty string, a byte that is not a decimal
  digit, and a value that does not fit in the given number of bits.
\<close>

definition digit_val :: "char \<Rightarrow> nat option" where
  "digit_val c = (let k = (of_char c :: nat) in if 48 \<le> k \<and> k \<le> 57 then Some (k - 48) else None)"

fun parse_digits :: "nat \<Rightarrow> string \<Rightarrow> nat option" where
  "parse_digits acc [] = Some acc"
| "parse_digits acc (c # cs) =
     (case digit_val c of None \<Rightarrow> None | Some d \<Rightarrow> parse_digits (10 * acc + d) cs)"

definition ParseUint :: "string \<Rightarrow> nat \<Rightarrow> nat option" where
  "ParseUint s bits =
     (if s = [] then None
      else (case parse_digits 0 s of None \<Rightarrow> None
            | Some k \<Rightarrow> if k < 2 ^ bits then Some k else None))"

text \<open>The verb \<^verbatim>\<open>%d\<close> of package \<^verbatim>\<open>fmt\<close> on an unsigned integer.\<close>

fun fmt_d :: "nat \<Rightarrow> string" where
  "fmt_d n =
     (if n < 10 then [char_of (48 + n)] else fmt_d (n div 10) @ [char_of (48 + n mod 10)])"

declare fmt_d.simps [simp del]

text \<open>The value of an \<^verbatim>\<open>int64\<close> after an arithmetic operation whose exact result is the argument.\<close>

definition wrap64 :: "int \<Rightarrow> int" where
  "wrap64 z = (z + 2 ^ 63) mod 2 ^ 64 - 2 ^ 63"

section \<open>Lemmas\<close>

lemma wrap64_id: "- (2 ^ 63) \<le> z \<Longrightarrow> z < 2 ^ 63 \<Longrightarrow> wrap64 z = z"
  by (simp add: wrap64_def)


lemma bind_res_Inr [result_simps]:
  "bind_res m f = Inr y \<longleftrightarrow> (\<exists>x. m = Inr x \<and> f x = Inr y)"
  by (auto simp: bind_res_def split: sum.splits)

lemma bind_res_simps [simp]: "bind_res (Inl e) f = Inl e" "bind_res (Inr x) f = f x"
  by (simp_all add: bind_res_def)

lemma bind_res_cong [fundef_cong]:
  "m = m' \<Longrightarrow> (\<And>x. m' = Inr x \<Longrightarrow> f x = g x) \<Longrightarrow> bind_res m f = bind_res m' g"
  by (auto simp: bind_res_def split: sum.splits)

lemma bind_run_Inr [result_simps]:
  "bind_run m f = Some (Inr y) \<longleftrightarrow> (\<exists>x. m = Some (Inr x) \<and> f x = Some (Inr y))"
  by (auto simp: bind_run_def split: sum.splits option.splits)

lemma bind_run_simps [simp]:
  "bind_run None f = None"
  "bind_run (Some (Inl e)) f = Some (Inl e)"
  "bind_run (Some (Inr x)) f = f x"
  by (simp_all add: bind_run_def)

lemma bind_run_None:
  "bind_run m f = None \<longleftrightarrow> m = None \<or> (\<exists>x. m = Some (Inr x) \<and> f x = None)"
  by (auto simp: bind_run_def split: sum.splits option.splits)

lemma bind_run_Inl:
  "bind_run m f = Some (Inl e) \<longleftrightarrow> m = Some (Inl e) \<or> (\<exists>x. m = Some (Inr x) \<and> f x = Some (Inl e))"
  by (auto simp: bind_run_def split: sum.splits option.splits)

lemma bind_run_cong [fundef_cong]:
  "m = m' \<Longrightarrow> (\<And>x. m' = Some (Inr x) \<Longrightarrow> f x = g x) \<Longrightarrow> bind_run m f = bind_run m' g"
  by (auto simp: bind_run_def split: sum.splits option.splits)

subsection \<open>Big-endian values\<close>

lemma foldl_be:
  "foldl (\<lambda>r b. 256 * r + unat b) a bs = a * 256 ^ length bs + be_nat bs" for bs :: bytes
proof (induction bs arbitrary: a)
  case Nil
  then show ?case by (simp add: be_nat_def)
next
  case (Cons b bs)
  have "be_nat (b # bs) = unat b * 256 ^ length bs + be_nat bs"
    using Cons.IH [of "unat b"] by (simp add: be_nat_def)
  moreover have "foldl (\<lambda>r b. 256 * r + unat b) a (b # bs)
      = (256 * a + unat b) * 256 ^ length bs + be_nat bs"
    using Cons.IH [of "256 * a + unat b"] by simp
  ultimately show ?case by (simp add: algebra_simps)
qed

lemma be_nat_Nil [simp]: "be_nat [] = 0"
  by (simp add: be_nat_def)

lemma be_nat_Cons [simp]: "be_nat (b # bs) = unat b * 256 ^ length bs + be_nat bs"
  using foldl_be [of "unat b" bs] by (simp add: be_nat_def)

lemma be_nat_append: "be_nat (xs @ ys) = be_nat xs * 256 ^ length ys + be_nat ys"
  by (induction xs) (simp_all add: algebra_simps power_add)

lemma unat_byte_less [simp]: "unat (b :: byte) < 256"
proof -
  have "unat b < 2 ^ LENGTH(8)" by (rule unsigned_less)
  then show ?thesis by simp
qed

lemma be_nat_bound: "be_nat bs < 256 ^ length bs"
proof (induction bs)
  case Nil
  then show ?case by simp
next
  case (Cons b bs)
  have "unat b \<le> 255" using unat_byte_less [of b] by linarith
  then have "unat b * 256 ^ length bs \<le> 255 * 256 ^ length bs" by (rule mult_le_mono1)
  then have "unat b * 256 ^ length bs + be_nat bs < 255 * 256 ^ length bs + 256 ^ length bs"
    using Cons by linarith
  then show ?case by simp
qed

lemma length_be_bytes [simp]: "length (be_bytes n k) = n"
  by (induction n) simp_all

lemma be_bytes_eq_Nil [simp]: "be_bytes n k = [] \<longleftrightarrow> n = 0"
  by (cases n) simp_all

lemma be_nat_be_bytes [simp]: "be_nat (be_bytes n k) = k mod 256 ^ n"
proof (induction n)
  case 0
  then show ?case by simp
next
  case (Suc n)
  have "unat (word_of_nat (k div 256 ^ n) :: byte) = k div 256 ^ n mod 256"
    by (simp add: unat_of_nat)
  moreover have "k mod (256 ^ n * 256) = 256 ^ n * (k div 256 ^ n mod 256) + k mod 256 ^ n"
    by (rule mod_mult2_eq)
  ultimately show ?case using Suc by (simp add: algebra_simps)
qed

lemma be_bytes_numeral:
  "be_bytes (numeral n) k = word_of_nat (k div 256 ^ pred_numeral n) # be_bytes (pred_numeral n) k"
  by (simp add: numeral_eq_Suc)

lemma be_bytes_add_high: "be_bytes n (a * 256 ^ n + k) = be_bytes n k"
proof (induction n arbitrary: a)
  case 0
  then show ?case by simp
next
  case (Suc n)
  have split: "a * 256 ^ Suc n + k = (a * 256) * 256 ^ n + k" by simp
  have "(a * 256 ^ Suc n + k) div 256 ^ n = a * 256 + k div 256 ^ n"
    unfolding split by simp
  moreover have "(word_of_nat (a * 256 + m) :: byte) = word_of_nat m" for m
    by (simp only: word_of_nat_eq_iff take_bit_eq_mod) simp
  ultimately show ?case
    using Suc [of "a * 256"] by (simp add: algebra_simps)
qed

lemma be_bytes_be_nat [simp]: "be_bytes (length bs) (be_nat bs) = bs"
proof (induction bs)
  case Nil
  then show ?case by simp
next
  case (Cons b bs)
  have "(unat b * 256 ^ length bs + be_nat bs) div 256 ^ length bs = unat b"
    using be_nat_bound [of bs] by simp
  then show ?case
    using Cons by (simp add: be_bytes_add_high)
qed

lemma drop_be_bytes: "drop m (be_bytes n k) = be_bytes (n - m) k"
proof (induction n arbitrary: m)
  case 0
  then show ?case by simp
next
  case (Suc n)
  then show ?case by (cases m) simp_all
qed

lemma be_bytes_mod: "n \<le> m \<Longrightarrow> be_bytes n (k mod 256 ^ m) = be_bytes n k"
proof -
  assume "n \<le> m"
  then obtain d where m: "m = n + d" using le_Suc_ex by blast
  have "k = (k div 256 ^ m) * 256 ^ m + k mod 256 ^ m" by (rule div_mult_mod_eq [symmetric])
  also have "(k div 256 ^ m) * 256 ^ m = (k div 256 ^ m * 256 ^ d) * 256 ^ n"
    by (simp add: m power_add algebra_simps)
  finally show ?thesis by (metis be_bytes_add_high)
qed

text \<open>The shift-and-or accumulation the sources use is the big-endian value, modulo the width.\<close>

lemma shift_or_byte: "push_bit 8 r OR ucast b = 256 * r + ucast b" for r :: u64 and b :: byte
proof -
  have "push_bit 8 r OR ucast b = push_bit 8 r + ucast b"
    by (rule disjunctive_add_eq_or [symmetric])
       (auto simp: bit_eq_iff bit_and_iff bit_push_bit_iff bit_unsigned_iff dest: bit_imp_le_length)
  then show ?thesis by (simp add: push_bit_eq_mult mult.commute)
qed

subsection \<open>Lists updated at an index\<close>

lemma sum_list_update_add:
  fixes f :: "'a \<Rightarrow> 'b :: comm_monoid_add"
  shows "i < length xs \<Longrightarrow> sum_list (map f (xs[i := y])) + f (xs ! i) = sum_list (map f xs) + f y"
proof (induction xs arbitrary: i)
  case (Cons x xs)
  then show ?case by (cases i) (simp_all add: ac_simps)
qed simp

lemma list_all_update: "list_all P xs \<Longrightarrow> P y \<Longrightarrow> list_all P (xs[i := y])"
  by (auto simp: list_all_iff dest: set_update_subset_insert [THEN subsetD])

lemma map_update_same: "f y = f (xs ! r) \<Longrightarrow> map f (xs[r := y]) = map f xs"
  by (induction xs arbitrary: r) (auto split: nat.splits)

section \<open>The interface of a byte codec\<close>

lemma sint_small: "unat x < 2 ^ 63 \<Longrightarrow> sint x = int (unat x)" for x :: u64
proof -
  assume "unat x < 2 ^ 63"
  then have "int (unat x) < int (2 ^ 63)" by (simp only: of_nat_less_iff)
  then have "uint x < 2 ^ 63" by simp
  moreover have "- (2 ^ 63) \<le> uint x" by (rule order_trans [OF _ uint_ge_0]) simp
  ultimately have "signed_take_bit 63 (uint x) = uint x"
    by (intro signed_take_bit_int_eq_self)
  then show ?thesis by (simp add: sint_uint)
qed

lemma unat_of_nat_u64: "k < 2 ^ 64 \<Longrightarrow> unat (of_nat k :: u64) = k"
  by (simp add: unat_of_nat take_bit_nat_eq_self)

text \<open>
  What a client of an encoder and a decoder relies on: a value that encodes is decoded from the
  front of any input that starts with its encoding, and whatever the decoder accepts is the
  encoding of the value it returns. The two laws make the format unambiguous.
\<close>

locale wire_codec =
  fixes enc :: "'a \<Rightarrow> 'e + bytes"
    and dec :: "bytes \<Rightarrow> ('e, 'a \<times> bytes) run"
    and valid :: "'a \<Rightarrow> bool"
  assumes dec_enc: "valid v \<Longrightarrow> enc v = Inr bs \<Longrightarrow> dec (bs @ rest) = Some (Inr (v, rest))"
    and enc_dec: "dec b = Some (Inr (v, rest)) \<Longrightarrow> valid v \<and> (\<exists>bs. enc v = Inr bs \<and> b = bs @ rest)"
begin

lemma enc_prefix_free:
  "valid v \<Longrightarrow> valid w \<Longrightarrow> enc v = Inr bs \<Longrightarrow> enc w = Inr (bs @ xs) \<Longrightarrow> v = w \<and> xs = []"
  using dec_enc [of v bs xs] dec_enc [of w "bs @ xs" "[]"] by simp

lemma enc_inj: "valid v \<Longrightarrow> valid w \<Longrightarrow> enc v = Inr bs \<Longrightarrow> enc w = Inr bs \<Longrightarrow> v = w"
  using enc_prefix_free [of v w bs "[]"] by simp

lemma dec_exact_iff: "dec b = Some (Inr (v, [])) \<longleftrightarrow> valid v \<and> enc v = Inr b"
  using dec_enc [of v b "[]"] enc_dec [of b v "[]"] by auto

lemma dec_unique:
  "dec (b @ x) = Some (Inr (v, x)) \<Longrightarrow> dec (b @ y) = Some (Inr (v, y))"
  using enc_dec [of "b @ x" v x] dec_enc [of v b y] by auto

end

end
