(* ===== verification/TLS_Codec.thy ===== *)
theory TLS_Codec
  imports CT_Prelude "HOL-Library.AList"
begin

text \<open>
  Package \<^verbatim>\<open>tls\<close> (\<^verbatim>\<open>src/tls/tls.go\<close>): the reflection-driven TLS presentation-language codec.
  The Go code walks a \<^verbatim>\<open>reflect.Type\<close> and a \<^verbatim>\<open>reflect.Value\<close>; here these are the datatypes
  \<open>gotype\<close> (with the struct tags as the strings the programmer wrote) and \<open>goval\<close>.
  \<open>parseField\<close> and \<open>marshalField\<close> follow the source case by case, errors included.
  A parse may run forever (a slice of elements that occupy no bytes): its result is then \<open>None\<close>.
\<close>

section \<open>Errors\<close>

text \<open>One reason per error message of the source; \<open>GoPanic\<close> is a run-time panic.\<close>

datatype tls_reason =
    UnknownSize | SizeTooLarge | RangeInverted | SelectorValueWithoutField
  | ValueTooLarge u64 | ValueTooSmall u64 u64 | ValueAboveMax u64 u64
  | NoSizeInfo | TruncatedVarint | Truncated string
  | SelectorNotSeen string | ChoiceNotPointer | DuplicateSelector string
  | UnhandledSelector | UnchosenNonNil | ChosenNil
  | UnsupportedArray | UnsupportedType
  | Uint24Overflow u64 | EnumTagMissing | SliceTagMissing

datatype tls_error =
    structuralError string tls_reason
  | syntaxError string tls_reason
  | GoPanic

section \<open>Field information\<close>

text \<open>Return the number of bytes needed to encode values up to (and including) x.\<close>

definition byteCount :: "u64 \<Rightarrow> nat" where
  "byteCount x =
     (if x < 0x100 then 1
      else if x < 0x10000 then 2
      else if x < 0x1000000 then 3
      else if x < 0x100000000 then 4
      else if x < 0x10000000000 then 5
      else if x < 0x1000000000000 then 6
      else if x < 0x100000000000000 then 7
      else 8)"

record fieldInfo =
  fi_count :: nat
  fi_countSet :: bool
  fi_minlen :: u64
  fi_maxlen :: u64
  fi_selector :: string
  fi_val :: u64
  fi_name :: string

definition zero_fieldInfo :: fieldInfo where
  "zero_fieldInfo = \<lparr>fi_count = 0, fi_countSet = False, fi_minlen = 0, fi_maxlen = 0,
     fi_selector = [], fi_val = 0, fi_name = []\<rparr>"

definition fieldName :: "fieldInfo option \<Rightarrow> string" where
  "fieldName i = (case i of None \<Rightarrow> [] | Some fi \<Rightarrow> fi_name fi)"

text \<open>\<^verbatim>\<open>if info == nil { info = &fieldInfo{} }\<close>\<close>

definition info_or_new :: "fieldInfo option \<Rightarrow> fieldInfo" where
  "info_or_new info = (case info of None \<Rightarrow> zero_fieldInfo | Some fi \<Rightarrow> fi)"

text \<open>One clause of a tag; a clause that does not parse leaves the information unchanged.\<close>

definition fieldTagClause :: "fieldInfo option \<Rightarrow> string \<Rightarrow> fieldInfo option" where
  "fieldTagClause info part =
     (if has_prefix part ''maxval:'' then
        (case ParseUint (drop 7 part) 64 of
           Some v \<Rightarrow> Some (zero_fieldInfo\<lparr>fi_count := byteCount (word_of_nat v), fi_countSet := True\<rparr>)
         | None \<Rightarrow> info)
      else if has_prefix part ''size:'' then
        (case ParseUint (drop 5 part) 32 of
           Some sz \<Rightarrow> Some (zero_fieldInfo\<lparr>fi_count := sz, fi_countSet := True\<rparr>)
         | None \<Rightarrow> info)
      else if has_prefix part ''maxlen:'' then
        (case ParseUint (drop 7 part) 64 of
           None \<Rightarrow> info
         | Some v \<Rightarrow> Some ((info_or_new info)\<lparr>fi_count := byteCount (word_of_nat v),
                        fi_countSet := True, fi_maxlen := word_of_nat v\<rparr>))
      else if has_prefix part ''minlen:'' then
        (case ParseUint (drop 7 part) 64 of
           None \<Rightarrow> info
         | Some v \<Rightarrow> Some ((info_or_new info)\<lparr>fi_minlen := word_of_nat v\<rparr>))
      else if has_prefix part ''selector:'' then
        Some ((info_or_new info)\<lparr>fi_selector := drop 9 part\<rparr>)
      else if has_prefix part ''val:'' then
        (case ParseUint (drop 4 part) 64 of
           None \<Rightarrow> info
         | Some v \<Rightarrow> Some ((info_or_new info)\<lparr>fi_val := word_of_nat v\<rparr>))
      else info)"

definition fieldTagToFieldInfo :: "string \<Rightarrow> string \<Rightarrow> tls_error + fieldInfo option" where
  "fieldTagToFieldInfo str name =
     (case foldl fieldTagClause None (split_on (CHR '','') str) of
        Some fi0 \<Rightarrow>
          (let fi = fi0\<lparr>fi_name := name\<rparr> in
           if fi_selector fi = [] then
             if fi_count fi < 1 then Inl (structuralError name UnknownSize)
             else if fi_count fi > 8 then Inl (structuralError name SizeTooLarge)
             else if fi_minlen fi > fi_maxlen fi then Inl (structuralError name RangeInverted)
             else if fi_val fi > 0 then Inl (structuralError name SelectorValueWithoutField)
             else Inr (Some fi)
           else Inr (Some fi))
      | None \<Rightarrow>
          (if name \<noteq> [] then Inr (Some (zero_fieldInfo\<lparr>fi_name := name\<rparr>)) else Inr None))"

text \<open>
  Check that a value fits into a field. The comparison is in \<^verbatim>\<open>uint64\<close>, so the bound
  \<^verbatim>\<open>1 << (8 * i.count)\<close> is 0 when \<^verbatim>\<open>i.count\<close> is 8.
\<close>

definition check :: "fieldInfo \<Rightarrow> u64 \<Rightarrow> string \<Rightarrow> tls_error + unit" where
  "check i val fldName =
     (if val \<ge> push_bit (8 * fi_count i) 1 then Inl (structuralError fldName (ValueTooLarge val))
      else if fi_maxlen i \<noteq> 0 then
        if val < fi_minlen i then Inl (structuralError fldName (ValueTooSmall val (fi_minlen i)))
        else if val > fi_maxlen i then Inl (structuralError fldName (ValueAboveMax val (fi_maxlen i)))
        else Inr ()
      else Inr ())"

text \<open>Read a big-endian unsigned integer of the given size in bytes.\<close>

definition readVarUint :: "bytes \<Rightarrow> fieldInfo option \<Rightarrow> tls_error + u64" where
  "readVarUint data info =
     (case info of
        None \<Rightarrow> Inl (structuralError (fieldName info) NoSizeInfo)
      | Some fi \<Rightarrow>
          if \<not> fi_countSet fi then Inl (structuralError (fieldName info) NoSizeInfo)
          else if length data < fi_count fi then Inl (syntaxError (fieldName info) TruncatedVarint)
          else
            let result = foldl (\<lambda>r b. push_bit 8 r OR ucast b) 0 (take (fi_count fi) data)
            in bind_res (check fi result (fi_name fi)) (\<lambda>_. Inr result))"

section \<open>Types and values\<close>

text \<open>
  \<open>TEnum\<close> is any type of the kind of \<^verbatim>\<open>Enum\<close> other than \<^verbatim>\<open>uint64\<close> itself, \<open>TNamedUint8\<close> a
  defined type whose kind is \<^verbatim>\<open>uint8\<close>, \<open>TOther\<close> a type of any kind the codec does not support.
  A struct is its fields in order: name, \<^verbatim>\<open>tls\<close> tag, type.
\<close>

datatype gotype =
    TUint8 | TUint16 | TUint24 | TUint32 | TUint64 | TEnum | TNamedUint8
  | TStruct "(string \<times> string \<times> gotype) list"
  | TArray nat gotype
  | TSlice gotype
  | TPtr gotype
  | TOther

datatype goval =
    VUint u64
  | VStruct "goval list"
  | VBytes bytes
  | VSlice "goval list"
  | VPtr "goval option"
  | VOther

definition kind_uint64 :: "gotype \<Rightarrow> bool" where
  "kind_uint64 t \<longleftrightarrow> t = TUint64 \<or> t = TEnum"

definition kind_uint8 :: "gotype \<Rightarrow> bool" where
  "kind_uint8 t \<longleftrightarrow> t = TUint8 \<or> t = TNamedUint8"

text \<open>The values a Go variable of the type can hold; a slice length is a Go \<^verbatim>\<open>int\<close>.\<close>

fun has_type :: "gotype \<Rightarrow> goval \<Rightarrow> bool"
  and has_types :: "(string \<times> string \<times> gotype) list \<Rightarrow> goval list \<Rightarrow> bool" where
  "has_type TUint8 v = (case v of VUint x \<Rightarrow> x < 0x100 | _ \<Rightarrow> False)"
| "has_type TNamedUint8 v = (case v of VUint x \<Rightarrow> x < 0x100 | _ \<Rightarrow> False)"
| "has_type TUint16 v = (case v of VUint x \<Rightarrow> x < 0x10000 | _ \<Rightarrow> False)"
| "has_type TUint24 v = (case v of VUint x \<Rightarrow> x < 0x100000000 | _ \<Rightarrow> False)"
| "has_type TUint32 v = (case v of VUint x \<Rightarrow> x < 0x100000000 | _ \<Rightarrow> False)"
| "has_type TUint64 v = (case v of VUint x \<Rightarrow> True | _ \<Rightarrow> False)"
| "has_type TEnum v = (case v of VUint x \<Rightarrow> True | _ \<Rightarrow> False)"
| "has_type (TStruct fs) v = (case v of VStruct vs \<Rightarrow> has_types fs vs | _ \<Rightarrow> False)"
| "has_type (TArray n et) v =
     (case v of VBytes bs \<Rightarrow> kind_uint8 et \<and> length bs = n
      | VOther \<Rightarrow> \<not> kind_uint8 et | _ \<Rightarrow> False)"
| "has_type (TSlice et) v =
     (case v of VBytes bs \<Rightarrow> kind_uint8 et \<and> length bs < 2 ^ 63
      | VSlice vs \<Rightarrow> \<not> kind_uint8 et \<and> list_all (has_type et) vs | _ \<Rightarrow> False)"
| "has_type (TPtr et) v =
     (case v of VPtr p \<Rightarrow> (case p of None \<Rightarrow> True | Some w \<Rightarrow> has_type et w) | _ \<Rightarrow> False)"
| "has_type TOther v = (v = VOther)"
| "has_types [] vs = (vs = [])"
| "has_types (f # fs) vs =
     (case vs of [] \<Rightarrow> False | v # vs' \<Rightarrow> has_type (snd (snd f)) v \<and> has_types fs vs')"

section \<open>Unmarshalling\<close>

text \<open>
  The loop over the elements of a variable-length vector:
  \<^verbatim>\<open>for innerOffset := 0; innerOffset < len(inner);\<close>.
\<close>

partial_function (option) slice_loop ::
  "(bytes \<Rightarrow> nat \<Rightarrow> (tls_error, goval \<times> nat) run) \<Rightarrow> bytes \<Rightarrow> nat \<Rightarrow> goval list
     \<Rightarrow> (tls_error, goval list) run" where
  "slice_loop p inner innerOffset acc =
     (if innerOffset < length inner then
        (case p inner innerOffset of
           None \<Rightarrow> None
         | Some r \<Rightarrow>
             (case r of
                Inl e \<Rightarrow> Some (Inl e)
              | Inr (single, innerOffset') \<Rightarrow> slice_loop p inner innerOffset' (acc @ [single])))
      else Some (Inr acc))"

type_synonym enums = "string \<Rightarrow> u64 option"
type_synonym selectorSeen = "(string \<times> bool) list"

text \<open>\<^verbatim>\<open>enums[structType.Field(i).Name] = v.Field(i).Uint()\<close> for fields of the enum kind.\<close>

definition remember_enum :: "enums \<Rightarrow> string \<Rightarrow> gotype \<Rightarrow> goval \<Rightarrow> enums" where
  "remember_enum enums name t v =
     (if kind_uint64 t then (case v of VUint x \<Rightarrow> enums(name \<mapsto> x) | _ \<Rightarrow> enums) else enums)"

text \<open>The first mention of a selector is recorded as not yet served.\<close>

definition note_selector :: "selectorSeen \<Rightarrow> string \<Rightarrow> selectorSeen" where
  "note_selector ss sel = (if map_of ss sel = None then AList.update sel False ss else ss)"

function (sequential) parseField ::
    "gotype \<Rightarrow> bytes \<Rightarrow> nat \<Rightarrow> fieldInfo option \<Rightarrow> (tls_error, goval \<times> nat) run"
  and parseFields ::
    "(string \<times> string \<times> gotype) list \<Rightarrow> bytes \<Rightarrow> nat \<Rightarrow> enums \<Rightarrow> selectorSeen
       \<Rightarrow> (tls_error, goval list \<times> nat \<times> selectorSeen) run" where
  "parseField TUint8 data offset info =
     (let rest = drop offset data in
      if length rest < 1 then Some (Inl (syntaxError (fieldName info) (Truncated ''uint8'')))
      else Some (Inr (VUint (word_of_nat (be_nat (take 1 rest))), offset + 1)))"
| "parseField TUint16 data offset info =
     (let rest = drop offset data in
      if length rest < 2 then Some (Inl (syntaxError (fieldName info) (Truncated ''uint16'')))
      else Some (Inr (VUint (word_of_nat (be_nat (take 2 rest))), offset + 2)))"
| "parseField TUint24 data offset info =
     (let rest = drop offset data in
      if length rest < 3 then Some (Inl (syntaxError (fieldName info) (Truncated ''uint24'')))
      else Some (Inr (VUint (push_bit 16 (ucast (data ! 0)) OR push_bit 8 (ucast (data ! 1))
                             OR ucast (data ! 2)), offset + 3)))"
| "parseField TUint32 data offset info =
     (let rest = drop offset data in
      if length rest < 4 then Some (Inl (syntaxError (fieldName info) (Truncated ''uint32'')))
      else Some (Inr (VUint (word_of_nat (be_nat (take 4 rest))), offset + 4)))"
| "parseField TUint64 data offset info =
     (let rest = drop offset data in
      if length rest < 8 then Some (Inl (syntaxError (fieldName info) (Truncated ''uint64'')))
      else Some (Inr (VUint (word_of_nat (be_nat (take 8 rest))), offset + 8)))"
| "parseField TEnum data offset info =
     (case readVarUint (drop offset data) info of
        Inl e \<Rightarrow> Some (Inl e)
      | Inr v \<Rightarrow> Some (Inr (VUint v, offset + fi_count (info_or_new info))))"
| "parseField (TStruct fs) data offset info =
     bind_run (parseFields fs data offset Map.empty [])
       (\<lambda>(vs, offset', selectorSeen).
          if \<exists>(selector, seen) \<in> set selectorSeen. \<not> seen
          then Some (Inl (syntaxError (fieldName info) UnhandledSelector))
          else Some (Inr (VStruct vs, offset')))"
| "parseField (TArray datalen et) data offset info =
     (let rest = drop offset data in
      if datalen > length rest then Some (Inl (syntaxError (fieldName info) (Truncated ''array'')))
      else if \<not> kind_uint8 et then Some (Inl (structuralError (fieldName info) UnsupportedArray))
      else Some (Inr (VBytes (take datalen rest), offset + datalen)))"
| "parseField (TSlice et) data offset info =
     (case readVarUint (drop offset data) info of
        Inl e \<Rightarrow> Some (Inl e)
      | Inr varlen \<Rightarrow>
          (let datalen = sint varlen;
               offset' = offset + fi_count (info_or_new info);
               rest = drop offset' data
           in if datalen > int (length rest)
              then Some (Inl (syntaxError (fieldName info) (Truncated ''slice'')))
              else if datalen < 0 then Some (Inl GoPanic)
              else
                let inner = take (nat datalen) rest; offset'' = offset' + nat datalen
                in if kind_uint8 et then Some (Inr (VBytes inner, offset''))
                   else bind_run
                          (slice_loop (\<lambda>d innerOffset. parseField et d innerOffset None) inner 0 [])
                          (\<lambda>vs. Some (Inr (VSlice vs, offset'')))))"
| "parseField TNamedUint8 data offset info =
     Some (Inl (structuralError (fieldName info) UnsupportedType))"
| "parseField (TPtr et) data offset info =
     Some (Inl (structuralError (fieldName info) UnsupportedType))"
| "parseField TOther data offset info =
     Some (Inl (structuralError (fieldName info) UnsupportedType))"
| "parseFields [] data offset enums selectorSeen = Some (Inr ([], offset, selectorSeen))"
| "parseFields ((name, tag, ft) # fs) data offset enums selectorSeen =
     (case fieldTagToFieldInfo tag name of
        Inl e \<Rightarrow> Some (Inl e)
      | Inr None \<Rightarrow> Some (Inl GoPanic)
      | Inr (Some fi) \<Rightarrow>
          if fi_selector fi \<noteq> [] then
            (case enums (fi_selector fi) of
               None \<Rightarrow> Some (Inl (structuralError (fi_name fi) (SelectorNotSeen (fi_selector fi))))
             | Some choice \<Rightarrow>
                 (case ft of
                    TPtr et \<Rightarrow>
                      (let seen = map_of selectorSeen (fi_selector fi);
                           selectorSeen1 = note_selector selectorSeen (fi_selector fi)
                       in if choice \<noteq> fi_val fi then
                            bind_run (parseFields fs data offset enums selectorSeen1)
                              (\<lambda>(vs, offset', ss). Some (Inr (VPtr None # vs, offset', ss)))
                          else if seen = Some True then
                            Some (Inl (structuralError (fi_name fi) (DuplicateSelector (fi_selector fi))))
                          else
                            bind_run (parseField et data offset (Some fi)) (\<lambda>(v, offset1).
                              bind_run (parseFields fs data offset1 enums
                                          (AList.update (fi_selector fi) True selectorSeen1))
                                (\<lambda>(vs, offset', ss). Some (Inr (VPtr (Some v) # vs, offset', ss)))))
                  | _ \<Rightarrow> Some (Inl (structuralError (fi_name fi) ChoiceNotPointer))))
          else
            bind_run (parseField ft data offset (Some fi)) (\<lambda>(v, offset1).
              bind_run (parseFields fs data offset1 (remember_enum enums name ft v) selectorSeen)
                (\<lambda>(vs, offset', ss). Some (Inr (v # vs, offset', ss)))))"
  by pat_completeness auto
termination
  by (relation "measure (case_sum (\<lambda>(t, _). size t)
        (\<lambda>(fs, _). size_list (size_prod (\<lambda>_. 0) (size_prod (\<lambda>_. 0) size)) fs))") auto

section \<open>Marshalling\<close>

text \<open>\<^verbatim>\<open>scratch[(8 - info.count):]\<close> after \<^verbatim>\<open>PutUint64\<close>; the slice bound wraps when the count exceeds 8.\<close>

definition putCount :: "nat \<Rightarrow> u64 \<Rightarrow> tls_error + bytes" where
  "putCount count x =
     (if count > 8 then Inl GoPanic else Inr (drop (8 - count) (be_bytes 8 (unat x))))"

text \<open>The error prefix \<^verbatim>\<open>info.name + ": "\<close>.\<close>

definition infoPrefix :: "fieldInfo option \<Rightarrow> string" where
  "infoPrefix info =
     (case info of None \<Rightarrow> []
      | Some fi \<Rightarrow> if length (fi_name fi) > 0 then fi_name fi @ '': '' else [])"

text \<open>Marshal the entries of a slice one after the other into one buffer.\<close>

fun marshalElems :: "(goval \<Rightarrow> tls_error + bytes) \<Rightarrow> goval list \<Rightarrow> tls_error + bytes" where
  "marshalElems f [] = Inr []"
| "marshalElems f (v # vs) =
     bind_res (f v) (\<lambda>bs. bind_res (marshalElems f vs) (\<lambda>bs'. Inr (bs @ bs')))"

text \<open>
  A value whose shape does not fit the type (which Go's type system excludes) is a panic, as is
  a buffer that outgrows a Go \<^verbatim>\<open>int\<close> (package \<^verbatim>\<open>bytes\<close>).
\<close>

function (sequential) marshalField ::
    "gotype \<Rightarrow> goval \<Rightarrow> fieldInfo option \<Rightarrow> tls_error + bytes"
  and marshalFields ::
    "(string \<times> string \<times> gotype) list \<Rightarrow> goval list \<Rightarrow> enums \<Rightarrow> selectorSeen
       \<Rightarrow> tls_error + (bytes \<times> selectorSeen)" where
  "marshalField TUint8 v info =
     (case v of VUint i \<Rightarrow> Inr (be_bytes 1 (unat i)) | _ \<Rightarrow> Inl GoPanic)"
| "marshalField TUint16 v info =
     (case v of VUint i \<Rightarrow> Inr (be_bytes 2 (unat i)) | _ \<Rightarrow> Inl GoPanic)"
| "marshalField TUint24 v info =
     (case v of
        VUint i \<Rightarrow>
          if i > 0xffffff then Inl (structuralError (fieldName info) (Uint24Overflow i))
          else Inr (drop 1 (be_bytes 4 (unat i)))
      | _ \<Rightarrow> Inl GoPanic)"
| "marshalField TUint32 v info =
     (case v of VUint i \<Rightarrow> Inr (be_bytes 4 (unat i)) | _ \<Rightarrow> Inl GoPanic)"
| "marshalField TUint64 v info =
     (case v of VUint i \<Rightarrow> Inr (be_bytes 8 (unat i)) | _ \<Rightarrow> Inl GoPanic)"
| "marshalField TEnum v info =
     (case v of
        VUint i \<Rightarrow>
          (case info of
             None \<Rightarrow> Inl (structuralError (fieldName info) EnumTagMissing)
           | Some fi \<Rightarrow> bind_res (check fi i (infoPrefix info)) (\<lambda>_. putCount (fi_count fi) i))
      | _ \<Rightarrow> Inl GoPanic)"
| "marshalField (TStruct fs) v info =
     (case v of
        VStruct vs \<Rightarrow>
          bind_res (marshalFields fs vs Map.empty [])
            (\<lambda>(bs, selectorSeen).
               if \<exists>(selector, seen) \<in> set selectorSeen. \<not> seen
               then Inl (syntaxError (fieldName info) UnhandledSelector)
               else Inr bs)
      | _ \<Rightarrow> Inl GoPanic)"
| "marshalField (TArray n et) v info =
     (if \<not> kind_uint8 et then Inl (structuralError (fieldName info) UnsupportedArray)
      else (case v of VBytes bs \<Rightarrow> Inr bs | _ \<Rightarrow> Inl GoPanic))"
| "marshalField (TSlice et) v info =
     (case info of
        None \<Rightarrow> Inl (structuralError (fieldName info) SliceTagMissing)
      | Some fi \<Rightarrow>
          if kind_uint8 et then
            (case v of
               VBytes bs \<Rightarrow>
                 bind_res (putCount (fi_count fi) (word_of_nat (length bs))) (\<lambda>hdr.
                   bind_res (check fi (word_of_nat (length bs)) (infoPrefix info))
                     (\<lambda>_. Inr (hdr @ bs)))
             | _ \<Rightarrow> Inl GoPanic)
          else
            (case v of
               VSlice vs \<Rightarrow>
                 bind_res (marshalElems (\<lambda>e. marshalField et e None) vs) (\<lambda>inner.
                   if length inner \<ge> 2 ^ 63 then Inl GoPanic
                   else bind_res (check fi (word_of_nat (length inner)) (infoPrefix info)) (\<lambda>_.
                     bind_res (putCount (fi_count fi) (word_of_nat (length inner)))
                       (\<lambda>hdr. Inr (hdr @ inner))))
             | _ \<Rightarrow> Inl GoPanic))"
| "marshalField TNamedUint8 v info = Inl (structuralError (fieldName info) UnsupportedType)"
| "marshalField (TPtr et) v info = Inl (structuralError (fieldName info) UnsupportedType)"
| "marshalField TOther v info = Inl (structuralError (fieldName info) UnsupportedType)"
| "marshalFields [] vs enums selectorSeen = (if vs = [] then Inr ([], selectorSeen) else Inl GoPanic)"
| "marshalFields ((name, tag, ft) # fs) vs0 enums selectorSeen =
     (case fieldTagToFieldInfo tag name of
        Inl e \<Rightarrow> Inl e
      | Inr None \<Rightarrow> Inl GoPanic
      | Inr (Some fi) \<Rightarrow>
          (case vs0 of
             [] \<Rightarrow> Inl GoPanic
           | v # vs \<Rightarrow>
          if fi_selector fi \<noteq> [] then
            (case enums (fi_selector fi) of
               None \<Rightarrow> Inl (structuralError (fi_name fi) (SelectorNotSeen (fi_selector fi)))
             | Some choice \<Rightarrow>
                 (case (ft, v) of
                    (TPtr et, VPtr p) \<Rightarrow>
                      (let seen = map_of selectorSeen (fi_selector fi);
                           selectorSeen1 = note_selector selectorSeen (fi_selector fi)
                       in if choice \<noteq> fi_val fi then
                            if p \<noteq> None then Inl (structuralError (fi_name fi) UnchosenNonNil)
                            else marshalFields fs vs enums selectorSeen1
                          else if seen = Some True then
                            Inl (structuralError (fi_name fi) (DuplicateSelector (fi_selector fi)))
                          else
                            (case p of
                               None \<Rightarrow> Inl (structuralError (fi_name fi) ChosenNil)
                             | Some source \<Rightarrow>
                                 bind_res (marshalField et source (Some fi)) (\<lambda>fieldData.
                                   bind_res (marshalFields fs vs enums
                                              (AList.update (fi_selector fi) True selectorSeen1))
                                     (\<lambda>(bs, ss). Inr (fieldData @ bs, ss)))))
                  | (TPtr et, _) \<Rightarrow> Inl GoPanic
                  | _ \<Rightarrow> Inl (structuralError (fi_name fi) ChoiceNotPointer)))
          else
            bind_res (marshalField ft v (Some fi)) (\<lambda>fieldData.
              bind_res (marshalFields fs vs (remember_enum enums name ft v) selectorSeen)
                (\<lambda>(bs, ss). Inr (fieldData @ bs, ss)))))"
  by pat_completeness auto
termination
  by (relation "measure (case_sum (\<lambda>(t, _). size t)
        (\<lambda>(fs, _). size_list (size_prod (\<lambda>_. 0) (size_prod (\<lambda>_. 0) size)) fs))") auto

section \<open>Entry points\<close>

definition UnmarshalWithParams :: "bytes \<Rightarrow> gotype \<Rightarrow> string \<Rightarrow> (tls_error, goval \<times> bytes) run" where
  "UnmarshalWithParams b t params =
     (case fieldTagToFieldInfo params [] of
        Inl e \<Rightarrow> Some (Inl e)
      | Inr info \<Rightarrow>
          bind_run (parseField t b 0 info) (\<lambda>(v, offset). Some (Inr (v, drop offset b))))"

definition Unmarshal :: "bytes \<Rightarrow> gotype \<Rightarrow> (tls_error, goval \<times> bytes) run" where
  "Unmarshal b t = UnmarshalWithParams b t []"

definition MarshalWithParams :: "gotype \<Rightarrow> goval \<Rightarrow> string \<Rightarrow> tls_error + bytes" where
  "MarshalWithParams t v params =
     (case fieldTagToFieldInfo params [] of
        Inl e \<Rightarrow> Inl e
      | Inr info \<Rightarrow> marshalField t v info)"

definition Marshal :: "gotype \<Rightarrow> goval \<Rightarrow> tls_error + bytes" where
  "Marshal t v = MarshalWithParams t v []"

section \<open>Well-annotated types\<close>

text \<open>
  \<open>nonzero\<close>: every successful parse of the type consumes at least one byte.
  \<open>tls_wf\<close>: the type follows the mapping that the package documentation requires: enums and
  slices carry a size, the elements of a slice occupy at least one byte, and \<^verbatim>\<open>Uint24\<close> does not
  occur (its parser is treated separately below).
\<close>

fun nonzero :: "gotype \<Rightarrow> fieldInfo option \<Rightarrow> bool"
  and nonzero_fields :: "(string \<times> string \<times> gotype) list \<Rightarrow> bool" where
  "nonzero (TStruct fs) info = nonzero_fields fs"
| "nonzero (TArray n et) info = (0 < n)"
| "nonzero TEnum info = (case info of None \<Rightarrow> True | Some fi \<Rightarrow> 0 < fi_count fi)"
| "nonzero (TSlice et) info = (case info of None \<Rightarrow> True | Some fi \<Rightarrow> 0 < fi_count fi)"
| "nonzero _ info = True"
| "nonzero_fields [] = False"
| "nonzero_fields ((name, tag, ft) # fs) =
     ((case fieldTagToFieldInfo tag name of
         Inr (Some fi) \<Rightarrow> fi_selector fi = [] \<and> nonzero ft (Some fi)
       | _ \<Rightarrow> True) \<or> nonzero_fields fs)"

definition sized :: "fieldInfo option \<Rightarrow> bool" where
  "sized info = (case info of None \<Rightarrow> True | Some fi \<Rightarrow> fi_countSet fi)"

fun tls_wf :: "gotype \<Rightarrow> fieldInfo option \<Rightarrow> bool"
  and tls_wf_fields :: "(string \<times> string \<times> gotype) list \<Rightarrow> bool" where
  "tls_wf TUint24 info = False"
| "tls_wf TEnum info = sized info"
| "tls_wf (TSlice et) info = (sized info \<and> (kind_uint8 et \<or> nonzero et None \<and> tls_wf et None))"
| "tls_wf (TStruct fs) info = tls_wf_fields fs"
| "tls_wf _ info = True"
| "tls_wf_fields [] = True"
| "tls_wf_fields ((name, tag, ft) # fs) =
     (name \<noteq> [] \<and>
      (case fieldTagToFieldInfo tag name of
         Inr (Some fi) \<Rightarrow>
           if fi_selector fi = [] then tls_wf ft (Some fi)
           else (case ft of TPtr et \<Rightarrow> tls_wf et (Some fi) | _ \<Rightarrow> True)
       | _ \<Rightarrow> True) \<and> tls_wf_fields fs)"

end
