(* ===== verification/TLS_Roundtrip.thy ===== *)
theory TLS_Roundtrip
  imports TLS_Codec
begin

text \<open>
  Correctness of the TLS codec: integers on the wire, an elimination rule for one step of the
  struct loops, a structural induction rule for types and field lists, and by it the two
  directions of the round trip (\<open>marshal_parse\<close>, \<open>parse_canonical\<close>), the bounds of every offset
  the parser returns, its termination and the absence of panics.
\<close>

unbundle bit_operations_syntax

section \<open>Integers on the wire\<close>

definition fits :: "fieldInfo \<Rightarrow> u64 \<Rightarrow> bool" where
  "fits fi x \<longleftrightarrow> check fi x [] = Inr ()"

lemma check_Inr [result_simps]: "check fi x s = Inr u \<longleftrightarrow> fits fi x"
  by (auto simp: check_def fits_def split: if_splits)

lemma unat_pow2_u64: "unat ((2 :: u64) ^ n) = (if n < 64 then 2 ^ n else 0)"
proof (cases "n < 64")
  case True
  have "unat (word_of_nat (2 ^ n) :: u64) = 2 ^ n"
    using True power_strict_increasing [of n 64 "2::nat"] by (simp only: unat_of_nat) simp
  then show ?thesis using True by simp
next
  case False
  then have "(2 :: u64) ^ n = 0" by (simp add: exp_eq_zero_iff)
  then have "unat ((2 :: u64) ^ n) = 0" by (simp only: unat_0)
  with False show ?thesis by (simp only: if_False)
qed

lemma fits_bound: "fits fi x \<Longrightarrow> fi_count fi < 8 \<and> unat x < 256 ^ fi_count fi"
proof -
  assume "fits fi x"
  then have "x < 2 ^ (8 * fi_count fi)"
    by (auto simp: fits_def check_def split: if_splits)
  then have "unat x < (if fi_count fi < 8 then 2 ^ (8 * fi_count fi) else 0)"
    by (simp add: word_less_nat_alt unat_pow2_u64)
  then show ?thesis by (auto simp: power_mult split: if_splits)
qed

lemma fits_count8: "fits fi x \<Longrightarrow> fi_count fi \<le> 8"
  using fits_bound [of fi x] by simp

lemma fits_u63: "fits fi x \<Longrightarrow> unat x < 2 ^ 63"
proof -
  assume "fits fi x"
  then have b: "fi_count fi \<le> 7" "unat x < 256 ^ fi_count fi"
    using fits_bound [of fi x] by auto
  have "(256::nat) ^ fi_count fi \<le> 256 ^ 7"
    using b(1) by (intro power_increasing) simp_all
  then show ?thesis using b(2) by simp
qed

lemma fits_sint: "fits fi x \<Longrightarrow> sint x = int (unat x)"
  by (rule sint_small) (rule fits_u63)

lemma foldl_shift_or:
  "foldl (\<lambda>r b. push_bit 8 r OR ucast b) (word_of_nat a) bs
     = (word_of_nat (a * 256 ^ length bs + be_nat bs) :: u64)" for bs :: bytes
proof (induction bs arbitrary: a)
  case Nil
  then show ?case by simp
next
  case (Cons b bs)
  have "push_bit 8 (word_of_nat a) OR ucast b = (word_of_nat (256 * a + unat b) :: u64)"
    by (simp add: shift_or_byte)
  then show ?case
    using Cons [of "256 * a + unat b"] by (simp add: algebra_simps)
qed

lemma unat_word_of_be_nat:
  "length bs \<le> 8 \<Longrightarrow> unat (word_of_nat (be_nat bs) :: u64) = be_nat bs"
proof -
  assume "length bs \<le> 8"
  then have "(256::nat) ^ length bs \<le> 256 ^ 8" by (intro power_increasing) simp_all
  then have "be_nat bs < 2 ^ 64" using be_nat_bound [of bs] by simp
  then show ?thesis by (simp add: unat_of_nat)
qed

lemma readVarUint_Some:
  "readVarUint data (Some fi) = Inr x \<longleftrightarrow>
     fi_countSet fi \<and> fi_count fi \<le> length data \<and> fits fi x \<and>
     take (fi_count fi) data = be_bytes (fi_count fi) (unat x)"
proof -
  let ?c = "fi_count fi"
  let ?w = "word_of_nat (be_nat (take ?c data)) :: u64"
  have fold: "foldl (\<lambda>r b. push_bit 8 r OR ucast b) 0 (take ?c data) = ?w"
    using foldl_shift_or [of 0 "take ?c data"] by simp
  have "readVarUint data (Some fi) = Inr x \<longleftrightarrow>
      fi_countSet fi \<and> ?c \<le> length data \<and> fits fi ?w \<and> ?w = x"
    by (auto simp: readVarUint_def fold Let_def result_simps)
  moreover have "fits fi x \<and> take ?c data = be_bytes ?c (unat x)"
    if len: "?c \<le> length data" and f: "fits fi ?w" and x: "?w = x"
  proof -
    from f have "?c < 8" using fits_bound by blast
    then have "unat ?w = be_nat (take ?c data)"
      using len by (intro unat_word_of_be_nat) simp
    then show ?thesis
      using be_bytes_be_nat [of "take ?c data"] len f x by (simp add: min_absorb2)
  qed
  moreover have "?w = x" if f: "fits fi x" and eq: "take ?c data = be_bytes ?c (unat x)"
    using fits_bound [OF f] by (simp add: eq)
  ultimately show ?thesis by blast
qed

lemma readVarUint_Inr [result_simps]:
  "readVarUint data info = Inr x \<longleftrightarrow>
     (\<exists>fi. info = Some fi \<and> fi_countSet fi \<and> fi_count fi \<le> length data \<and> fits fi x \<and>
           take (fi_count fi) data = be_bytes (fi_count fi) (unat x))"
  by (cases info) (simp_all add: readVarUint_Some, simp add: readVarUint_def)

lemma putCount_Inr [result_simps]:
  "putCount c x = Inr bs \<longleftrightarrow> c \<le> 8 \<and> bs = be_bytes c (unat x)"
  by (auto simp: putCount_def drop_be_bytes)

lemma be_bytes_word:
  "length bs = n \<Longrightarrow> n \<le> 8 \<Longrightarrow> be_bytes n (unat (word_of_nat (be_nat bs) :: u64)) = bs"
  using be_bytes_be_nat [of bs] by (simp add: unat_word_of_be_nat)

lemma word_be_bytes:
  "unat x < 256 ^ n \<Longrightarrow> word_of_nat (be_nat (be_bytes n (unat x))) = (x :: u64)"
  by simp

lemma be_nat_u64_less:
  "length bs = n \<Longrightarrow> n \<le> 8 \<Longrightarrow> unat (word_of_nat (be_nat bs) :: u64) < 256 ^ n"
  using be_nat_bound [of bs] by (simp add: unat_word_of_be_nat)

subsection \<open>Parsing consumes input and yields well-typed values\<close>

lemma take_drop_glue:
  "a \<le> b \<Longrightarrow> b \<le> c \<Longrightarrow> take (b - a) (drop a xs) @ take (c - b) (drop b xs) = take (c - a) (drop a xs)"
proof -
  assume le: "a \<le> b" "b \<le> c"
  then have "take (c - a) (drop a xs) = take ((b - a) + (c - b)) (drop a xs)" by simp
  also have "\<dots> = take (b - a) (drop a xs) @ take (c - b) (drop (b - a) (drop a xs))"
    by (rule take_add)
  finally show ?thesis using le by (simp add: drop_drop)
qed

lemma slice_loop_sound:
  assumes ret: "slice_loop p inner off acc = Some (Inr vs)"
    and off: "off \<le> length inner"
    and p: "\<And>off v off'. p inner off = Some (Inr (v, off')) \<Longrightarrow> off \<le> length inner \<Longrightarrow>
              off \<le> off' \<and> off' \<le> length inner \<and> Q v
              \<and> f v = Inr (take (off' - off) (drop off inner))"
  shows "\<exists>ws. vs = acc @ ws \<and> (\<forall>v \<in> set ws. Q v) \<and> marshalElems f ws = Inr (drop off inner)"
proof -
  have "\<forall>vs. r = Inr vs \<longrightarrow> off \<le> length inner' \<longrightarrow> inner' = inner \<longrightarrow> p' = p \<longrightarrow>
      (\<exists>ws. vs = acc @ ws \<and> (\<forall>v \<in> set ws. Q v) \<and> marshalElems f ws = Inr (drop off inner'))"
    if "slice_loop p' inner' off acc = Some r" for p' inner' off acc r
  proof (rule slice_loop.raw_induct [OF _ that, where P = "\<lambda>p' inner' off acc r.
      \<forall>vs. r = Inr vs \<longrightarrow> off \<le> length inner' \<longrightarrow> inner' = inner \<longrightarrow> p' = p \<longrightarrow>
      (\<exists>ws. vs = acc @ ws \<and> (\<forall>v \<in> set ws. Q v) \<and> marshalElems f ws = Inr (drop off inner'))"],
      intro allI impI)
    fix loop p' inner' off acc r vs
    assume IH: "\<And>p' inner' off acc r. loop p' inner' off acc = Some r \<Longrightarrow>
        \<forall>vs. r = Inr vs \<longrightarrow> off \<le> length inner' \<longrightarrow> inner' = inner \<longrightarrow> p' = p \<longrightarrow>
          (\<exists>ws. vs = acc @ ws \<and> (\<forall>v \<in> set ws. Q v) \<and> marshalElems f ws = Inr (drop off inner'))"
      and step: "(if off < length inner' then
            (case p' inner' off of None \<Rightarrow> None
             | Some r \<Rightarrow> (case r of Inl e \<Rightarrow> Some (Inl e)
                | Inr (single, off') \<Rightarrow> loop p' inner' off' (acc @ [single])))
          else Some (Inr acc)) = Some r"
      and r: "r = Inr vs" and le: "off \<le> length inner'" and eqs: "inner' = inner" "p' = p"
    show "\<exists>ws. vs = acc @ ws \<and> (\<forall>v \<in> set ws. Q v) \<and> marshalElems f ws = Inr (drop off inner')"
    proof (cases "off < length inner'")
      case False
      with step r show ?thesis by simp
    next
      case True
      with step r eqs obtain v off' where pv: "p inner off = Some (Inr (v, off'))"
        and rec: "loop p inner off' (acc @ [v]) = Some (Inr vs)"
        by (auto split: option.splits sum.splits)
      from p [OF pv] le eqs have o: "off \<le> off'" "off' \<le> length inner" "Q v"
        "f v = Inr (take (off' - off) (drop off inner))" by auto
      from IH [OF rec] o(2) obtain ws where ws: "vs = (acc @ [v]) @ ws" "\<forall>v \<in> set ws. Q v"
        "marshalElems f ws = Inr (drop off' inner)" by blast
      have "take (off' - off) (drop off inner) @ drop off' inner = drop off inner"
        using o(1) by (metis append_take_drop_id drop_drop le_add_diff_inverse2)
      then show ?thesis
        using ws o eqs by (intro exI [of _ "v # ws"]) simp
    qed
  qed
  from this [OF ret] off show ?thesis by blast
qed


lemma parseFields_ConsE:
  assumes "parseFields ((name, tag, ft) # fs) data off enums ss = Some (Inr (vs0, off', ss'))"
  obtains (skip) fi et choice vs where
      "fieldTagToFieldInfo tag name = Inr (Some fi)" "fi_selector fi \<noteq> []"
      "enums (fi_selector fi) = Some choice" "ft = TPtr et" "choice \<noteq> fi_val fi"
      "parseFields fs data off enums (note_selector ss (fi_selector fi)) = Some (Inr (vs, off', ss'))"
      "vs0 = VPtr None # vs"
  | (chosen) fi et v off1 vs where
      "fieldTagToFieldInfo tag name = Inr (Some fi)" "fi_selector fi \<noteq> []"
      "enums (fi_selector fi) = Some (fi_val fi)" "ft = TPtr et"
      "map_of ss (fi_selector fi) \<noteq> Some True"
      "parseField et data off (Some fi) = Some (Inr (v, off1))"
      "parseFields fs data off1 enums
         (AList.update (fi_selector fi) True (note_selector ss (fi_selector fi)))
         = Some (Inr (vs, off', ss'))"
      "vs0 = VPtr (Some v) # vs"
  | (plain) fi v off1 vs where
      "fieldTagToFieldInfo tag name = Inr (Some fi)" "fi_selector fi = []"
      "parseField ft data off (Some fi) = Some (Inr (v, off1))"
      "parseFields fs data off1 (remember_enum enums name ft v) ss = Some (Inr (vs, off', ss'))"
      "vs0 = v # vs"
proof -
  from assms obtain fi where fi: "fieldTagToFieldInfo tag name = Inr (Some fi)"
    by (auto split: sum.splits option.splits)
  show thesis
  proof (cases "fi_selector fi = []")
    case True
    with assms fi show thesis
      by (auto simp: result_simps intro: plain)
  next
    case False
    with assms fi obtain choice where c: "enums (fi_selector fi) = Some choice"
      by (auto split: option.splits)
    from False assms fi c obtain et where et: "ft = TPtr et"
      by (cases ft) auto
    show thesis
    proof (cases "choice = fi_val fi")
      case True
      with False assms fi c et show thesis
        by (auto simp: Let_def result_simps split: if_splits intro: chosen)
    next
      case ne: False
      with False assms fi c et show thesis
        by (auto simp: Let_def result_simps intro: skip)
    qed
  qed
qed


lemma tls_induct [case_names Uint8 Uint16 Uint24 Uint32 Uint64 Enum NamedUint8 Struct Array Slice
    Ptr Other Nil Cons]:
  assumes "P TUint8" "P TUint16" "P TUint24" "P TUint32" "P TUint64" "P TEnum" "P TNamedUint8"
    and "\<And>fs. Q fs \<Longrightarrow> P (TStruct fs)"
    and "\<And>n et. P (TArray n et)"
    and "\<And>et. P et \<Longrightarrow> P (TSlice et)"
    and "\<And>et. P et \<Longrightarrow> P (TPtr et)"
    and "P TOther"
    and "Q []"
    and Cons: "\<And>name tag ft fs. P ft \<Longrightarrow> (\<And>et. ft = TPtr et \<Longrightarrow> P et) \<Longrightarrow> Q fs
            \<Longrightarrow> Q ((name, tag, ft) # fs)"
  shows "P t" and "Q fs"
proof -
  have Q: "Q fs" if "\<And>f. f \<in> set fs \<Longrightarrow> P (snd (snd f)) \<and> (\<forall>et. snd (snd f) = TPtr et \<longrightarrow> P et)" for fs
    using that
  proof (induction fs)
    case Nil
    then show ?case by (simp add: assms)
  next
    case (Cons f fs)
    obtain name tag ft where f: "f = (name, tag, ft)" by (cases f)
    show ?case unfolding f
      using Cons.prems [of f] Cons.IH Cons.prems by (intro assms(14)) (auto simp: f)
  qed
  have PP: "P t \<and> (\<forall>et. t = TPtr et \<longrightarrow> P et)" for t
  proof (induction t)
    case (TStruct fs)
    have "Q fs"
    proof (rule Q)
      fix f assume f: "f \<in> set fs"
      obtain name tag ft where eq: "f = (name, tag, ft)" by (rule prod_cases3)
      show "P (snd (snd f)) \<and> (\<forall>et. snd (snd f) = TPtr et \<longrightarrow> P et)"
        using TStruct [OF f, of "(tag, ft)" ft] by (simp add: eq)
    qed
    then show ?case by (simp add: assms)
  qed (simp_all add: assms)
  then show "P t" by simp
  show "Q fs" by (rule Q) (use PP in blast)
qed

lemma parse_bounds:
  shows "parseField t data off info = Some (Inr (v, off')) \<Longrightarrow> off \<le> length data \<Longrightarrow>
           off \<le> off' \<and> off' \<le> length data \<and> (nonzero t info \<longrightarrow> off < off')"
    and "parseFields fs data off enums ss = Some (Inr (vs, off', ss')) \<Longrightarrow> off \<le> length data \<Longrightarrow>
           off \<le> off' \<and> off' \<le> length data \<and> (nonzero_fields fs \<longrightarrow> off < off')"
proof (induction t and fs arbitrary: data off info v off' and data off enums ss vs off' ss'
    rule: tls_induct)
  case Enum
  then show ?case
    by (auto simp: result_simps info_or_new_def split: sum.splits)
next
  case (Struct fs)
  from Struct.prems(1) obtain vs ss' where
    "parseFields fs data off Map.empty [] = Some (Inr (vs, off', ss'))"
    by (auto simp: result_simps split: if_splits)
  then show ?case using Struct.IH Struct.prems(2) by simp
next
  case (Slice et)
  from Slice.prems show ?case
    by (auto simp: result_simps info_or_new_def Let_def split: sum.splits if_splits)
next
  case (Cons name tag ft fs)
  from Cons.prems(1) show ?case
  proof (cases rule: parseFields_ConsE)
    case (skip fi et choice vs)
    then show ?thesis using Cons.IH(3) Cons.prems(2) by simp
  next
    case (chosen fi et v off1 vs)
    have 1: "off \<le> off1 \<and> off1 \<le> length data"
      using Cons.IH(2) [OF chosen(4) chosen(6) Cons.prems(2)] by simp
    with Cons.IH(3) [OF chosen(7)] show ?thesis using chosen(1,2) by auto
  next
    case (plain fi v off1 vs)
    have 1: "off \<le> off1 \<and> off1 \<le> length data \<and> (nonzero ft (Some fi) \<longrightarrow> off < off1)"
      using Cons.IH(1) [OF plain(3) Cons.prems(2)] by simp
    with Cons.IH(3) [OF plain(4)] show ?thesis using plain(1,2) by auto
  qed
qed (auto simp: Let_def split: if_splits)

lemma be_u64_less:
  "length bs = n \<Longrightarrow> n \<le> 8 \<Longrightarrow> unat k = 256 ^ n \<Longrightarrow> word_of_nat (be_nat bs) < (k :: u64)"
  using be_nat_u64_less [of bs n] by (simp add: word_less_nat_alt)

lemma fits_slice_bounds:
  assumes "fits fi x"
  shows "int n < sint x \<longleftrightarrow> n < unat x" and "\<not> sint x < 0" and "nat (sint x) = unat x"
proof -
  note s = fits_sint [OF assms]
  show "int n < sint x \<longleftrightarrow> n < unat x" by (simp only: s of_nat_less_iff)
  show "\<not> sint x < 0" by (simp only: s of_nat_less_0_iff not_False_eq_True)
  show "nat (sint x) = unat x" by (simp only: s nat_int)
qed

lemma parse_slice_Inr:
  "parseField (TSlice et) data off info = Some (Inr (v, off')) \<longleftrightarrow>
     (\<exists>fi x. info = Some fi \<and> fi_countSet fi \<and> fits fi x \<and>
        fi_count fi + unat x \<le> length (drop off data) \<and>
        take (fi_count fi) (drop off data) = be_bytes (fi_count fi) (unat x) \<and>
        off' = off + fi_count fi + unat x \<and>
        (let inner = take (unat x) (drop (off + fi_count fi) data) in
         if kind_uint8 et then v = VBytes inner
         else \<exists>vs. slice_loop (\<lambda>d o1. parseField et d o1 None) inner 0 [] = Some (Inr vs) \<and>
                v = VSlice vs))" (is "?parse \<longleftrightarrow> ?rhs")
proof (cases "\<exists>fi x. readVarUint (drop off data) info = Inr x \<and> info = Some fi")
  case False
  moreover have "info \<noteq> None" if "readVarUint (drop off data) info = Inr x" for x
    using that by (auto simp: result_simps)
  ultimately have no: "readVarUint (drop off data) info \<noteq> Inr x" for x by fastforce
  then obtain e where "readVarUint (drop off data) info = Inl e"
    by (cases "readVarUint (drop off data) info") auto
  then have "\<not> ?parse" by simp
  moreover have "\<not> ?rhs"
  proof (rule notI, elim exE conjE)
    fix fi x
    assume "info = Some fi" "fi_countSet fi" "fits fi x"
      "fi_count fi + unat x \<le> length (drop off data)"
      "take (fi_count fi) (drop off data) = be_bytes (fi_count fi) (unat x)"
    then have "readVarUint (drop off data) info = Inr x" by (simp add: readVarUint_Some)
    then show False using no by simp
  qed
  ultimately show ?thesis by blast
next
  case True
  then obtain fi x where x: "readVarUint (drop off data) (Some fi) = Inr x" and info: "info = Some fi"
    by blast
  then have fx: "fi_countSet fi" "fits fi x" "fi_count fi \<le> length (drop off data)"
      "take (fi_count fi) (drop off data) = be_bytes (fi_count fi) (unat x)"
    by (auto simp: readVarUint_Some)
  have "?parse \<longleftrightarrow> unat x \<le> length (drop (off + fi_count fi) data) \<and>
      off' = off + fi_count fi + unat x \<and>
      (let inner = take (unat x) (drop (off + fi_count fi) data) in
         if kind_uint8 et then v = VBytes inner
         else \<exists>vs. slice_loop (\<lambda>d o1. parseField et d o1 None) inner 0 [] = Some (Inr vs) \<and>
                v = VSlice vs)"
    using fits_slice_bounds [OF fx(2)]
    by (auto simp: info x info_or_new_def Let_def bind_run_Inr)
  also have "\<dots> \<longleftrightarrow> ?rhs" (is "?mid \<longleftrightarrow> ?rhs")
  proof
    assume mid: ?mid
    then have "unat x \<le> length data - (off + fi_count fi)" by simp
    moreover have "fi_count fi \<le> length data - off" using fx(3) by simp
    ultimately have "fi_count fi + unat x \<le> length data - off" by arith
    with mid show ?rhs
      using fx info by (intro exI [of _ fi] exI [of _ x]) simp
  next
    assume ?rhs
    then obtain y where y: "fits fi y" "fi_count fi + unat y \<le> length (drop off data)"
        "take (fi_count fi) (drop off data) = be_bytes (fi_count fi) (unat y)"
        "off' = off + fi_count fi + unat y"
        "let inner = take (unat y) (drop (off + fi_count fi) data) in
         if kind_uint8 et then v = VBytes inner
         else \<exists>vs. slice_loop (\<lambda>d o1. parseField et d o1 None) inner 0 [] = Some (Inr vs) \<and>
                v = VSlice vs"
      using info by auto
    then have "readVarUint (drop off data) (Some fi) = Inr y"
      using fx(1) by (simp add: readVarUint_Some)
    with x have "y = x" by simp
    with y show ?mid by (simp add: le_diff_conv2 add.commute)
  qed
  finally show ?thesis .
qed

lemma parse_canonical:
  shows "parseField t data off info = Some (Inr (v, off')) \<Longrightarrow> off \<le> length data \<Longrightarrow> tls_wf t info
          \<Longrightarrow> has_type t v \<and> marshalField t v info = Inr (take (off' - off) (drop off data))"
    and "parseFields fs data off enums ss = Some (Inr (vs, off', ss')) \<Longrightarrow> off \<le> length data
          \<Longrightarrow> tls_wf_fields fs
          \<Longrightarrow> has_types fs vs \<and>
              marshalFields fs vs enums ss = Inr (take (off' - off) (drop off data), ss')"
proof (induction t and fs arbitrary: data off info v off' and data off enums ss vs off' ss'
    rule: tls_induct)
  case Enum
  then show ?case
    by (auto simp: result_simps info_or_new_def intro: fits_count8 split: sum.splits)
next
  case (Struct fs)
  from Struct.prems(1) obtain vs ss' where
    "parseFields fs data off Map.empty [] = Some (Inr (vs, off', ss'))"
    "v = VStruct vs" "\<not> (\<exists>(selector, seen) \<in> set ss'. \<not> seen)"
    by (auto simp: result_simps split: if_splits)
  then show ?case using Struct.IH [of data off _ _ vs off' ss'] Struct.prems(2,3) by auto
next
  case (Slice et)
  from Slice.prems(1) obtain fi varlen where fi: "info = Some fi" "fi_countSet fi"
      "fi_count fi + unat varlen \<le> length (drop off data)" "fits fi varlen"
      "take (fi_count fi) (drop off data) = be_bytes (fi_count fi) (unat varlen)"
    and off': "off' = off + fi_count fi + unat varlen"
    and v0: "let inner = take (unat varlen) (drop (off + fi_count fi) data) in
         if kind_uint8 et then v = VBytes inner
         else \<exists>vs. slice_loop (\<lambda>d o1. parseField et d o1 None) inner 0 [] = Some (Inr vs) \<and>
                v = VSlice vs"
    unfolding parse_slice_Inr by blast
  let ?c = "fi_count fi" and ?n = "unat varlen"
  let ?rest = "drop (off + ?c) data"
  have len: "?n \<le> length ?rest" using fi(3) by simp
  have total: "take (off' - off) (drop off data) = be_bytes ?c ?n @ take ?n ?rest"
    using fi(5) by (simp add: off' take_add add.commute)
  have w: "word_of_nat (length (take ?n ?rest)) = varlen" using len by simp
  have c8: "?c \<le> 8" using fits_bound [OF fi(4)] by simp
  have n63: "?n < 2 ^ 63" using fi(4) by (rule fits_u63)
  show ?case
  proof (cases "kind_uint8 et")
    case True
    then have v: "v = VBytes (take ?n ?rest)" using v0 by simp
    show ?thesis using True fi(4) c8 len n63
      by (simp add: v total fi(1) w putCount_Inr check_Inr bind_res_Inr)
  next
    case False
    with v0 obtain vs where
      loop: "slice_loop (\<lambda>d o1. parseField et d o1 None) (take ?n ?rest) 0 [] = Some (Inr vs)"
      and v: "v = VSlice vs" by (auto simp: Let_def)
    have wf: "tls_wf et None" using Slice.prems(3) False by simp
    have step: "o1 \<le> o2 \<and> o2 \<le> length d \<and> has_type et e \<and>
        marshalField et e None = Inr (take (o2 - o1) (drop o1 d))"
      if "parseField et d o1 None = Some (Inr (e, o2))" "o1 \<le> length d" for d o1 e o2
      using Slice.IH [OF that wf] parse_bounds(1) [OF that] by simp
    obtain ws where "vs = [] @ ws" "\<forall>v \<in> set ws. has_type et v"
        "marshalElems (\<lambda>e. marshalField et e None) ws = Inr (drop 0 (take ?n ?rest))"
      using slice_loop_sound [where Q = "has_type et" and f = "\<lambda>e. marshalField et e None",
          OF loop le0] step by blast
    then have "list_all (has_type et) vs"
        "marshalElems (\<lambda>e. marshalField et e None) vs = Inr (take ?n ?rest)"
      by (simp_all add: list_all_iff)
    then show ?thesis using False fi(4) c8 len n63
      by (simp add: v total fi(1) w putCount_Inr check_Inr bind_res_Inr)
  qed
next
  case (Cons name tag ft fs)
  from Cons.prems(1) show ?case
  proof (cases rule: parseFields_ConsE)
    case (skip fi et choice vs)
    then show ?thesis using Cons.IH(3) Cons.prems(2,3) by (simp add: Let_def)
  next
    case (chosen fi et v off1 vs)
    note b1 = parse_bounds(1) [OF chosen(6) Cons.prems(2)]
    then have b2: "off1 \<le> off' \<and> off' \<le> length data"
      using parse_bounds(2) [OF chosen(7)] by simp
    have "has_type et v \<and> marshalField et v (Some fi) = Inr (take (off1 - off) (drop off data))"
      using Cons.IH(2) [OF chosen(4) chosen(6) Cons.prems(2)] Cons.prems(3) chosen(1,2,4) by simp
    moreover have "has_types fs vs \<and> marshalFields fs vs enums
        (AList.update (fi_selector fi) True (note_selector ss (fi_selector fi)))
        = Inr (take (off' - off1) (drop off1 data), ss')"
      using Cons.IH(3) [OF chosen(7)] b1 Cons.prems(3) chosen(1,2,4) by simp
    ultimately show ?thesis
      using chosen b1 b2 by (simp add: Let_def take_drop_glue)
  next
    case (plain fi v off1 vs)
    note b1 = parse_bounds(1) [OF plain(3) Cons.prems(2)]
    then have b2: "off1 \<le> off' \<and> off' \<le> length data"
      using parse_bounds(2) [OF plain(4)] by simp
    have "has_type ft v \<and> marshalField ft v (Some fi) = Inr (take (off1 - off) (drop off data))"
      using Cons.IH(1) [OF plain(3) Cons.prems(2)] Cons.prems(3) plain(1,2) by simp
    moreover have "has_types fs vs \<and> marshalFields fs vs (remember_enum enums name ft v) ss
        = Inr (take (off' - off1) (drop off1 data), ss')"
      using Cons.IH(3) [OF plain(4)] b1 Cons.prems(3) by simp
    ultimately show ?thesis
      using plain b1 b2 by (simp add: take_drop_glue)
  qed
qed (auto simp: Let_def be_bytes_word be_u64_less simp del: be_bytes.simps One_nat_def split: if_splits)

subsection \<open>Marshalled values parse back\<close>

lemma fixed_width_rt:
  "unat x < 256 ^ n \<Longrightarrow>
     word_of_nat (be_nat (take n (drop (length pre) (pre @ be_bytes n (unat x) @ suf)))) = (x :: u64)"
  by simp

lemma unat_u64_less: "unat (x :: u64) < 256 ^ 8"
proof -
  have "unat x < 2 ^ LENGTH(64)" by (rule unsigned_less)
  then show ?thesis by simp
qed

lemma parse_fixed_rt:
  "x < 0x100 \<Longrightarrow> parseField TUint8 (pre @ be_bytes 1 (unat x) @ suf) (length pre) info
     = Some (Inr (VUint x, length pre + 1))"
  "x < 0x10000 \<Longrightarrow> parseField TUint16 (pre @ be_bytes 2 (unat x) @ suf) (length pre) info
     = Some (Inr (VUint x, length pre + 2))"
  "x < 0x100000000 \<Longrightarrow> parseField TUint32 (pre @ be_bytes 4 (unat x) @ suf) (length pre) info
     = Some (Inr (VUint x, length pre + 4))"
  "parseField TUint64 (pre @ be_bytes 8 (unat x) @ suf) (length pre) info
     = Some (Inr (VUint x, length pre + 8))"
  using fixed_width_rt [of x 1 pre suf] fixed_width_rt [of x 2 pre suf]
    fixed_width_rt [of x 4 pre suf] fixed_width_rt [of x 8 pre suf] unat_u64_less [of x]
  by (simp_all add: word_less_nat_alt Let_def del: be_bytes.simps One_nat_def)

lemma slice_loop_complete:
  assumes "marshalElems f vs = Inr inner"
    and "\<And>v b pre suf. v \<in> set vs \<Longrightarrow> f v = Inr b \<Longrightarrow>
           b \<noteq> [] \<and> p (pre @ b @ suf) (length pre) = Some (Inr (v, length pre + length b))"
  shows "slice_loop p (pre @ inner) (length pre) acc = Some (Inr (acc @ vs))"
  using assms
proof (induction vs arbitrary: pre acc inner)
  case Nil
  then show ?case by (subst slice_loop.simps) simp
next
  case (Cons v vs)
  from Cons.prems(1) obtain b bs where b: "f v = Inr b" and bs: "marshalElems f vs = Inr bs"
    and inner: "inner = b @ bs" by (auto simp: result_simps)
  have p: "b \<noteq> []" "p (pre @ b @ bs) (length pre) = Some (Inr (v, length pre + length b))"
    using Cons.prems(2) [OF _ b, of pre bs] by simp_all
  have "slice_loop p ((pre @ b) @ bs) (length (pre @ b)) (acc @ [v]) = Some (Inr ((acc @ [v]) @ vs))"
    using Cons.prems(2) by (intro Cons.IH [OF bs]) auto
  then show ?case using p by (subst slice_loop.simps) (simp add: inner)
qed

lemma marshalFields_tag:
  assumes "marshalFields ((name, tag, ft) # fs) vs enums ss = Inr r"
  obtains fi where "fieldTagToFieldInfo tag name = Inr (Some fi)"
proof (cases "fieldTagToFieldInfo tag name")
  case (Inl e)
  with assms show thesis by simp
next
  case (Inr x)
  with assms that show thesis by (cases x) simp_all
qed

lemma marshalFields_ConsE:
  assumes "marshalFields ((name, tag, ft) # fs) vs0 enums ss = Inr (bs, ss')"
    and "has_types ((name, tag, ft) # fs) vs0"
  obtains (skip) fi et choice vs where
      "fieldTagToFieldInfo tag name = Inr (Some fi)" "fi_selector fi \<noteq> []"
      "enums (fi_selector fi) = Some choice" "ft = TPtr et" "choice \<noteq> fi_val fi"
      "marshalFields fs vs enums (note_selector ss (fi_selector fi)) = Inr (bs, ss')"
      "vs0 = VPtr None # vs" "has_types fs vs"
  | (chosen) fi et v b1 b2 vs where
      "fieldTagToFieldInfo tag name = Inr (Some fi)" "fi_selector fi \<noteq> []"
      "enums (fi_selector fi) = Some (fi_val fi)" "ft = TPtr et"
      "map_of ss (fi_selector fi) \<noteq> Some True"
      "marshalField et v (Some fi) = Inr b1"
      "marshalFields fs vs enums
         (AList.update (fi_selector fi) True (note_selector ss (fi_selector fi))) = Inr (b2, ss')"
      "vs0 = VPtr (Some v) # vs" "bs = b1 @ b2" "has_type et v" "has_types fs vs"
  | (plain) fi v b1 b2 vs where
      "fieldTagToFieldInfo tag name = Inr (Some fi)" "fi_selector fi = []"
      "marshalField ft v (Some fi) = Inr b1"
      "marshalFields fs vs (remember_enum enums name ft v) ss = Inr (b2, ss')"
      "vs0 = v # vs" "bs = b1 @ b2" "has_type ft v" "has_types fs vs"
proof -
  from assms(1) obtain fi where fi: "fieldTagToFieldInfo tag name = Inr (Some fi)"
    by (rule marshalFields_tag)
  from assms(2) obtain v vs where vs: "vs0 = v # vs" "has_type ft v" "has_types fs vs"
    by (cases vs0) auto
  note m = assms(1) [unfolded vs(1), simplified fi marshalFields.simps sum.case option.case list.case]
  show thesis
  proof (cases "fi_selector fi = []")
    case True
    with m vs show thesis
      by (auto simp: bind_res_Inr intro!: plain [OF fi True])
  next
    case False
    with m obtain choice where c: "enums (fi_selector fi) = Some choice"
      by (cases "enums (fi_selector fi)") simp_all
    from False m c have "\<exists>et. ft = TPtr et" by (cases ft) simp_all
    with vs obtain et p where et: "ft = TPtr et" "v = VPtr p"
      by (auto split: goval.splits)
    show thesis
    proof (cases "choice = fi_val fi")
      case True
      with False m c et have m': "map_of ss (fi_selector fi) \<noteq> Some True"
        "(case p of None \<Rightarrow> Inl (structuralError (fi_name fi) ChosenNil)
          | Some source \<Rightarrow> bind_res (marshalField et source (Some fi)) (\<lambda>fieldData.
              bind_res (marshalFields fs vs enums
                (AList.update (fi_selector fi) True (note_selector ss (fi_selector fi))))
                (\<lambda>(bs, ss). Inr (fieldData @ bs, ss)))) = Inr (bs, ss')"
        by (simp_all add: Let_def split: if_splits)
      then obtain w where w: "p = Some w" by (cases p) simp_all
      with m' vs et show thesis
        by (auto simp: bind_res_Inr intro!: chosen [OF fi False _ et(1) m'(1)] simp: c True)
    next
      case ne: False
      have eq: "marshalFields ((name, tag, ft) # fs) vs0 enums ss =
          (if p \<noteq> None then Inl (structuralError (fi_name fi) UnchosenNonNil)
           else marshalFields fs vs enums (note_selector ss (fi_selector fi)))"
        using fi False c et ne by (simp add: Let_def vs(1))
      have "p = None"
        "marshalFields fs vs enums (note_selector ss (fi_selector fi)) = Inr (bs, ss')"
        using trans [OF eq [symmetric] assms(1)] by (simp_all split: if_splits)
      then show thesis using skip [OF fi False c et(1) ne] et(2) vs by simp
    qed
  qed
qed

lemma marshal_parse:
  shows "marshalField t v info = Inr bs \<Longrightarrow> has_type t v \<Longrightarrow> tls_wf t info \<Longrightarrow>
           parseField t (pre @ bs @ suf) (length pre) info = Some (Inr (v, length pre + length bs))"
    and "marshalFields fs vs enums ss = Inr (bs, ss') \<Longrightarrow> has_types fs vs \<Longrightarrow> tls_wf_fields fs \<Longrightarrow>
           parseFields fs (pre @ bs @ suf) (length pre) enums ss
             = Some (Inr (vs, length pre + length bs, ss'))"
proof (induction t and fs arbitrary: v info bs pre suf and vs enums ss bs ss' pre suf
    rule: tls_induct)
  case Enum
  from Enum.prems obtain x fi where v: "v = VUint x" and fi: "info = Some fi" "fits fi x"
      "fi_countSet fi" and bs: "bs = be_bytes (fi_count fi) (unat x)"
    by (auto simp: result_simps sized_def split: goval.splits option.splits)
  then have "readVarUint (bs @ suf) (Some fi) = Inr x"
    by (simp add: readVarUint_Some)
  then show ?case by (simp add: v fi bs info_or_new_def)
next
  case (Struct fs)
  from Struct.prems(1,2) obtain vs ss' where v: "v = VStruct vs" "has_types fs vs"
    and m: "marshalFields fs vs Map.empty [] = Inr (bs, ss')"
    and seen: "\<not> (\<exists>(selector, seen) \<in> set ss'. \<not> seen)"
    by (auto simp: result_simps split: goval.splits if_splits)
  show ?case using Struct.IH [OF m v(2)] Struct.prems(3) v(1) seen by auto
next
  case (Slice et)
  from Slice.prems(1,3) obtain fi where fi: "info = Some fi" "fi_countSet fi"
    by (auto simp: sized_def split: option.splits)
  show ?case
  proof (cases "kind_uint8 et")
    case True
    with Slice.prems(1,2) fi obtain inner where v: "v = VBytes inner" "length inner < 2 ^ 63"
      and bs: "bs = be_bytes (fi_count fi) (unat (word_of_nat (length inner) :: u64)) @ inner"
      and fits: "fits fi (word_of_nat (length inner))"
      by (auto simp: result_simps split: goval.splits)
    have u: "unat (word_of_nat (length inner) :: u64) = length inner"
      using v(2) by (simp add: unat_of_nat)
    show ?thesis unfolding parse_slice_Inr
      using True fi fits
      by (intro exI [of _ fi] exI [of _ "word_of_nat (length inner)"]) (simp add: v bs u)
  next
    case False
    with Slice.prems(1,2) fi obtain vs inner where v: "v = VSlice vs" "list_all (has_type et) vs"
      and m: "marshalElems (\<lambda>e. marshalField et e None) vs = Inr inner" "length inner < 2 ^ 63"
      and bs: "bs = be_bytes (fi_count fi) (unat (word_of_nat (length inner) :: u64)) @ inner"
      and fits: "fits fi (word_of_nat (length inner))"
      by (auto simp: result_simps split: goval.splits if_splits)
    have u: "unat (word_of_nat (length inner) :: u64) = length inner"
      using m(2) by (simp add: unat_of_nat)
    have wf: "nonzero et None" "tls_wf et None" using Slice.prems(3) False by auto
    have elem: "b \<noteq> [] \<and> parseField et (pre @ b @ suf) (length pre) None
        = Some (Inr (e, length pre + length b))"
      if "e \<in> set vs" "marshalField et e None = Inr b" for e b pre suf
    proof -
      have p: "parseField et (pre @ b @ suf) (length pre) None
          = Some (Inr (e, length pre + length b))"
        using Slice.IH [OF that(2)] that(1) v(2) wf by (simp add: list_all_iff)
      with parse_bounds(1) [OF p] wf show ?thesis by auto
    qed
    have "slice_loop (\<lambda>d o1. parseField et d o1 None) inner 0 [] = Some (Inr vs)"
      using slice_loop_complete [OF m(1), of "\<lambda>d o1. parseField et d o1 None" "[]" "[]"] elem by simp
    then show ?thesis unfolding parse_slice_Inr
      using False fi fits
      by (intro exI [of _ fi] exI [of _ "word_of_nat (length inner)"]) (simp add: v bs u)
  qed
next
  case (Cons name tag ft fs)
  from Cons.prems(1,2) show ?case
  proof (cases rule: marshalFields_ConsE)
    case (skip fi et choice vs)
    then show ?thesis using Cons.IH(3) [OF skip(6,8)] Cons.prems(3) by (simp add: Let_def)
  next
    case (chosen fi et v b1 b2 vs)
    have "parseField et (pre @ b1 @ b2 @ suf) (length pre) (Some fi)
        = Some (Inr (v, length pre + length b1))"
      using Cons.IH(2) [OF chosen(4,6,10), of pre "b2 @ suf"] Cons.prems(3) chosen(1,2,4) by simp
    moreover have "parseFields fs ((pre @ b1) @ b2 @ suf) (length (pre @ b1)) enums
        (AList.update (fi_selector fi) True (note_selector ss (fi_selector fi)))
        = Some (Inr (vs, length (pre @ b1) + length b2, ss'))"
      using Cons.IH(3) [OF chosen(7,11), of "pre @ b1" suf] Cons.prems(3) by simp
    ultimately show ?thesis using chosen by (simp add: Let_def)
  next
    case (plain fi v b1 b2 vs)
    have "parseField ft (pre @ b1 @ b2 @ suf) (length pre) (Some fi)
        = Some (Inr (v, length pre + length b1))"
      using Cons.IH(1) [OF plain(3,7), of pre "b2 @ suf"] Cons.prems(3) plain(1,2) by simp
    moreover have "parseFields fs ((pre @ b1) @ b2 @ suf) (length (pre @ b1))
        (remember_enum enums name ft v) ss = Some (Inr (vs, length (pre @ b1) + length b2, ss'))"
      using Cons.IH(3) [OF plain(4,8), of "pre @ b1" suf] Cons.prems(3) by simp
    ultimately show ?thesis using plain by simp
  qed
qed (auto simp: parse_fixed_rt Let_def simp del: be_bytes.simps parseField.simps(1-5) One_nat_def
      split: goval.splits if_splits)

section \<open>Termination and panics\<close>

lemma slice_loop_total:
  assumes "\<And>off. off \<le> length inner \<Longrightarrow> p inner off \<noteq> None"
    and "\<And>off v off'. off \<le> length inner \<Longrightarrow> p inner off = Some (Inr (v, off')) \<Longrightarrow>
           off < off' \<and> off' \<le> length inner"
  shows "off \<le> length inner \<Longrightarrow> slice_loop p inner off acc \<noteq> None"
proof (induction "length inner - off" arbitrary: off acc rule: less_induct)
  case less
  show ?case
  proof (cases "off < length inner")
    case False
    then show ?thesis by (subst slice_loop.simps) simp
  next
    case True
    obtain r where r: "p inner off = Some r" using assms(1) less.prems by blast
    show ?thesis
    proof (cases r)
      case (Inl e)
      with r True show ?thesis by (subst slice_loop.simps) simp
    next
      case (Inr x)
      obtain v off' where x: "x = (v, off')" by (cases x)
      from assms(2) [OF less.prems] r Inr x have o: "off < off'" "off' \<le> length inner" by auto
      then have "slice_loop p inner off' (acc @ [v]) \<noteq> None"
        using True by (intro less.hyps) simp_all
      with r True Inr x show ?thesis by (subst slice_loop.simps) simp
    qed
  qed
qed

lemma slice_loop_no_panic:
  assumes p: "\<And>off. p inner off \<noteq> Some (Inl GoPanic)"
  shows "slice_loop p inner off acc \<noteq> Some (Inl GoPanic)"
proof -
  have "p' = p \<longrightarrow> inner' = inner \<longrightarrow> r \<noteq> Inl GoPanic"
    if "slice_loop p' inner' off acc = Some r" for p' inner' off acc r
  proof (rule slice_loop.raw_induct [OF _ that, where P = "\<lambda>p' inner' off acc r.
      p' = p \<longrightarrow> inner' = inner \<longrightarrow> r \<noteq> Inl GoPanic"], intro impI)
    fix loop p' inner' off acc r
    assume IH: "\<And>p' inner' off acc r. loop p' inner' off acc = Some r \<Longrightarrow>
        p' = p \<longrightarrow> inner' = inner \<longrightarrow> r \<noteq> Inl GoPanic"
      and step: "(if off < length inner' then
            (case p' inner' off of None \<Rightarrow> None
             | Some r \<Rightarrow> (case r of Inl e \<Rightarrow> Some (Inl e)
                | Inr (single, off') \<Rightarrow> loop p' inner' off' (acc @ [single])))
          else Some (Inr acc)) = Some r"
      and eqs: "p' = p" "inner' = inner"
    show "r \<noteq> Inl GoPanic"
      using step p [of off] eqs by (auto dest!: IH split: if_splits option.splits sum.splits)
  qed
  then show ?thesis by blast
qed

lemma fieldTag_no_panic: "fieldTagToFieldInfo tag name \<noteq> Inl GoPanic"
  by (auto simp: fieldTagToFieldInfo_def Let_def split: option.splits)

lemma fieldTag_named: "name \<noteq> [] \<Longrightarrow> fieldTagToFieldInfo tag name \<noteq> Inr None"
  by (auto simp: fieldTagToFieldInfo_def Let_def split: option.splits)

lemma readVarUint_no_panic: "readVarUint data info \<noteq> Inl GoPanic"
  by (auto simp: readVarUint_def check_def bind_res_def Let_def split: option.splits sum.splits if_splits)

lemma parse_slice_ret:
  assumes "\<And>d o1. \<not> kind_uint8 et \<Longrightarrow> o1 \<le> length d \<Longrightarrow> parseField et d o1 None \<noteq> None"
    and "\<And>d o1. \<not> kind_uint8 et \<Longrightarrow> parseField et d o1 None \<noteq> Some (Inl GoPanic)"
    and "kind_uint8 et \<or> nonzero et None"
  shows "parseField (TSlice et) data off info \<noteq> None \<and>
         parseField (TSlice et) data off info \<noteq> Some (Inl GoPanic)"
proof (cases "readVarUint (drop off data) info")
  case (Inl e)
  with readVarUint_no_panic [of "drop off data" info] show ?thesis by auto
next
  case (Inr x)
  then obtain fi where fi: "info = Some fi" "fits fi x" by (auto simp: readVarUint_Inr)
  note b = fits_slice_bounds [OF fi(2)]
  let ?loop = "\<lambda>inner. slice_loop (\<lambda>d o1. parseField et d o1 None) inner 0 []"
  have "?loop inner \<noteq> None \<and> ?loop inner \<noteq> Some (Inl GoPanic)" if "\<not> kind_uint8 et" for inner
  proof
    show "?loop inner \<noteq> None"
    proof (rule slice_loop_total)
      fix off v off'
      assume "off \<le> length inner" "parseField et inner off None = Some (Inr (v, off'))"
      then show "off < off' \<and> off' \<le> length inner"
        using parse_bounds(1) assms(3) that by blast
    qed (use assms(1) that in simp_all)
    show "?loop inner \<noteq> Some (Inl GoPanic)"
      by (rule slice_loop_no_panic) (rule assms(2) [OF that])
  qed
  then show ?thesis using b
    by (auto simp: Inr [unfolded fi(1)] fi(1) Let_def bind_run_None bind_run_Inl
        simp del: not_None_eq split: if_splits)
qed

lemma parse_returns:
  shows "tls_wf t info \<Longrightarrow>
           (off \<le> length data \<longrightarrow> parseField t data off info \<noteq> None) \<and>
           parseField t data off info \<noteq> Some (Inl GoPanic)"
    and "tls_wf_fields fs \<Longrightarrow>
           (off \<le> length data \<longrightarrow> parseFields fs data off enums ss \<noteq> None) \<and>
           parseFields fs data off enums ss \<noteq> Some (Inl GoPanic)"
proof (induction t and fs arbitrary: data off info and data off enums ss rule: tls_induct)
  case Enum
  then show ?case
    using readVarUint_no_panic [of "drop off data" info] by (auto split: sum.splits)
next
  case (Struct fs)
  then show ?case by (auto simp: bind_run_None bind_run_Inl simp del: not_None_eq split: if_splits)
next
  case (Slice et)
  have "kind_uint8 et \<or> nonzero et None" "\<not> kind_uint8 et \<Longrightarrow> tls_wf et None"
    using Slice.prems by auto
  then show ?case using parse_slice_ret [of et data off info] Slice.IH by blast
next
  case (Cons name tag ft fs)
  show ?case
  proof (cases "fieldTagToFieldInfo tag name")
    case (Inl e)
    then show ?thesis using fieldTag_no_panic [of tag name] by auto
  next
    case (Inr x)
    with fieldTag_named [of name tag] Cons.prems obtain fi
      where fi: "fieldTagToFieldInfo tag name = Inr (Some fi)" by (cases x) simp_all
    have fs: "(off \<le> length data \<longrightarrow> parseFields fs data off enums ss \<noteq> None) \<and>
           parseFields fs data off enums ss \<noteq> Some (Inl GoPanic)" for data off enums ss
      using Cons.IH(3) Cons.prems by simp
    show ?thesis
    proof (cases "fi_selector fi = []")
      case True
      then have ft: "(off \<le> length data \<longrightarrow> parseField ft data off (Some fi) \<noteq> None) \<and>
           parseField ft data off (Some fi) \<noteq> Some (Inl GoPanic)"
        using Cons.IH(1) Cons.prems fi by simp
      then show ?thesis using fs parse_bounds(1) [of ft data off "Some fi"]
        by (auto simp: fi True bind_run_None bind_run_Inl simp del: not_None_eq)
    next
      case sel: False
      show ?thesis
      proof (cases "\<exists>et choice. ft = TPtr et \<and> enums (fi_selector fi) = Some choice")
        case False
        then show ?thesis using sel
          by (auto simp: fi split: option.splits gotype.splits)
      next
        case True
        then obtain et choice where et: "ft = TPtr et" "enums (fi_selector fi) = Some choice" by blast
        have "(off \<le> length data \<longrightarrow> parseField et data off (Some fi) \<noteq> None) \<and>
           parseField et data off (Some fi) \<noteq> Some (Inl GoPanic)"
          using Cons.IH(2) [OF et(1)] Cons.prems fi sel et(1) by simp
        then show ?thesis using fs parse_bounds(1) [of et data off "Some fi"] sel
          by (auto simp: fi et Let_def bind_run_None bind_run_Inl simp del: not_None_eq)
      qed
    qed
  qed
qed (auto simp: Let_def split: if_splits)

section \<open>Sizes\<close>

lemma byteCount_least:
  "1 \<le> byteCount x \<and> byteCount x \<le> 8 \<and> unat x < 256 ^ byteCount x \<and>
   (\<forall>n. 1 \<le> n \<and> unat x < 256 ^ n \<longrightarrow> byteCount x \<le> n)"
proof -
  let ?n = "byteCount x"
  have "1 \<le> ?n \<and> ?n \<le> 8 \<and> unat x < 256 ^ ?n \<and> (?n = 1 \<or> 256 ^ (?n - 1) \<le> unat x)"
    using unat_u64_less [of x]
    by (simp add: byteCount_def word_less_nat_alt not_less)
  moreover have "?n \<le> n" if "1 \<le> n" "unat x < 256 ^ n" "?n = 1 \<or> 256 ^ (?n - 1) \<le> unat x" for n
  proof (rule ccontr)
    assume "\<not> ?n \<le> n"
    then have "(256::nat) ^ n \<le> 256 ^ (?n - 1)" by (intro power_increasing) simp_all
    with that(2,3) have "?n = 1" by linarith
    with \<open>\<not> ?n \<le> n\<close> that(1) show False by simp
  qed
  ultimately show ?thesis by blast
qed

lemma check_size8:
  assumes "8 \<le> fi_count fi"
  shows "check fi x s = Inl (structuralError s (ValueTooLarge x))"
proof -
  have "unat ((2 :: u64) ^ (8 * fi_count fi)) = 0"
    using assms by (simp only: unat_pow2_u64) simp
  then have "(2 :: u64) ^ (8 * fi_count fi) \<le> x"
    by (simp only: word_le_nat_alt)
  then show ?thesis by (simp add: check_def)
qed


lemma fieldTagClause_countSet:
  assumes "\<And>fi. info = Some fi \<Longrightarrow> fi_count fi \<noteq> 0 \<longrightarrow> fi_countSet fi"
  shows "fieldTagClause info part = Some fi \<Longrightarrow> fi_count fi \<noteq> 0 \<longrightarrow> fi_countSet fi"
  using assms
  by (auto simp: fieldTagClause_def info_or_new_def zero_fieldInfo_def
      split: if_splits option.splits)

lemma fieldTag_fold_countSet:
  assumes "\<And>fi. info = Some fi \<Longrightarrow> fi_count fi \<noteq> 0 \<longrightarrow> fi_countSet fi"
  shows "foldl fieldTagClause info parts = Some fi \<Longrightarrow> fi_count fi \<noteq> 0 \<longrightarrow> fi_countSet fi"
  using assms
proof (induction parts arbitrary: info)
  case Nil
  then show ?case by simp
next
  case (Cons part parts)
  have "foldl fieldTagClause (fieldTagClause info part) parts = Some fi"
    using Cons.prems(1) by simp
  then show ?case
    by (rule Cons.IH) (rule fieldTagClause_countSet [OF Cons.prems(2)])
qed

lemma fieldTag_wf:
  assumes "fieldTagToFieldInfo tag name = Inr (Some fi)" "fi_selector fi = []"
  shows "fi = zero_fieldInfo\<lparr>fi_name := name\<rparr> \<or>
    (fi_countSet fi \<and> 1 \<le> fi_count fi \<and> fi_count fi \<le> 8 \<and> fi_minlen fi \<le> fi_maxlen fi \<and> fi_val fi = 0)"
proof (cases "foldl fieldTagClause None (split_on (CHR '','') tag)")
  case None
  with assms show ?thesis by (auto simp: fieldTagToFieldInfo_def split: if_splits)
next
  case (Some fi0)
  then have "fi_count fi0 \<noteq> 0 \<longrightarrow> fi_countSet fi0"
    by (rule fieldTag_fold_countSet [rotated]) simp
  then show ?thesis using assms Some
    by (auto simp: fieldTagToFieldInfo_def Let_def not_less split: if_splits)
qed

lemma uint24_or:
  "push_bit 16 (ucast a) OR push_bit 8 (ucast b) OR ucast c = (word_of_nat (be_nat [a, b, c]) :: u64)"
  for a b c :: byte
proof -
  have "push_bit 16 (ucast a) OR push_bit 8 (ucast b) OR ucast c =
      push_bit 8 (push_bit 8 (push_bit 8 0 OR ucast a) OR ucast b) OR (ucast c :: u64)"
    by (simp add: push_bit_or push_bit_push_bit or.assoc)
  also have "\<dots> = word_of_nat (be_nat [a, b, c])"
    using foldl_shift_or [of 0 "[a, b, c]"] by (simp only: foldl.simps of_nat_0) simp
  finally show ?thesis .
qed

lemma uint24_parse:
  assumes "off + 3 \<le> length data"
  shows "parseField TUint24 data off info
    = Some (Inr (VUint (word_of_nat (be_nat (take 3 data))), off + 3))"
proof -
  obtain a b c rest where d: "data = a # b # c # rest"
    using assms by (auto simp: numeral_eq_Suc Suc_le_length_iff)
  have "length (drop off data) \<ge> 3" using assms by simp
  then show ?thesis using uint24_or [of a b c]
    by (simp add: d Let_def numeral_eq_Suc del: be_nat_Cons)
qed

lemma uint24_at_start:
  assumes "x \<le> 0xffffff"
  shows "\<exists>bs. marshalField TUint24 (VUint x) info = Inr bs \<and>
           parseField TUint24 (bs @ suf) 0 info' = Some (Inr (VUint x, length bs))"
proof -
  have "marshalField TUint24 (VUint x) info = Inr (be_bytes 3 (unat x))"
    using assms by (simp add: drop_be_bytes not_less del: be_bytes.simps One_nat_def)
  moreover have "unat x < 256 ^ 3" using assms by (simp add: word_le_nat_alt)
  then have "parseField TUint24 (be_bytes 3 (unat x) @ suf) 0 info' = Some (Inr (VUint x, 3))"
    by (subst uint24_parse) (simp_all del: be_bytes.simps)
  ultimately show ?thesis by simp
qed

section \<open>Top level\<close>

lemma fieldTag_empty: "fieldTagToFieldInfo [] [] = Inr None"
  by (simp add: fieldTagToFieldInfo_def fieldTagClause_def has_prefix_def)

lemma Unmarshal_eq:
  "Unmarshal b t = bind_run (parseField t b 0 None) (\<lambda>(v, offset). Some (Inr (v, drop offset b)))"
  by (simp add: Unmarshal_def UnmarshalWithParams_def fieldTag_empty)

lemma Marshal_eq: "Marshal t v = marshalField t v None"
  by (simp add: Marshal_def MarshalWithParams_def fieldTag_empty)

lemma tls_codec:
  assumes wf: "tls_wf t None"
  shows "wire_codec (Marshal t) (\<lambda>b. Unmarshal b t) (has_type t)"
proof
  fix v bs rest
  assume v: "has_type t v" and m: "Marshal t v = Inr bs"
  have "parseField t (bs @ rest) 0 None = Some (Inr (v, length bs))"
    using marshal_parse(1) [of t v None bs "[]" rest] v m wf by (simp add: Marshal_eq)
  then show "Unmarshal (bs @ rest) t = Some (Inr (v, rest))"
    by (simp add: Unmarshal_eq)
next
  fix b v rest
  assume "Unmarshal b t = Some (Inr (v, rest))"
  then obtain off where p: "parseField t b 0 None = Some (Inr (v, off))" and r: "rest = drop off b"
    by (auto simp: Unmarshal_eq bind_run_Inr)
  have "has_type t v \<and> marshalField t v None = Inr (take off b)"
    using parse_canonical(1) [OF p _ wf] by simp
  then show "has_type t v \<and> (\<exists>bs. Marshal t v = Inr bs \<and> b = bs @ rest)"
    using r by (auto simp: Marshal_eq)
qed


lemma Unmarshal_total:
  assumes "tls_wf t None"
  shows "\<exists>r. Unmarshal b t = Some r \<and> r \<noteq> Inl GoPanic"
proof -
  have "parseField t b 0 None \<noteq> None" "parseField t b 0 None \<noteq> Some (Inl GoPanic)"
    using parse_returns(1) [OF assms] by auto
  then have "Unmarshal b t \<noteq> None" "Unmarshal b t \<noteq> Some (Inl GoPanic)"
    by (auto simp: Unmarshal_eq bind_run_None bind_run_Inl simp del: not_None_eq)
  then show ?thesis by auto
qed

text \<open>A well-annotated type, as the interface that the users of the package rely on.\<close>

locale tls_type =
  fixes t :: gotype
  assumes wf: "tls_wf t None"

sublocale tls_type < wire_codec "Marshal t" "\<lambda>b. Unmarshal b t" "has_type t"
  by (rule tls_codec) (rule wf)

end
