(* ===== verification/TLS_Properties.thy ===== *)
theory TLS_Properties
  imports TLS_Roundtrip
begin

text \<open>
  The properties of package \<^verbatim>\<open>tls\<close> as its users see them, on \<open>Marshal\<close> and \<open>Unmarshal\<close>, with
  witnesses on the variant type of the package documentation.
\<close>

section \<open>Properties\<close>

text \<open>The example of the package documentation: a variant selected by an enum.\<close>

definition VariantItem :: gotype where
  "VariantItem = TStruct
     [(''Sel'', ''maxval:2'', TEnum),
      (''Data16'', ''selector:Sel,val:1'', TPtr TUint16),
      (''Data32'', ''selector:Sel,val:2'', TPtr TUint32)]"

text \<open>Evaluation of tags and of the codec on closed terms.\<close>

lemmas tag_eval = fieldTagToFieldInfo_def fieldTagClause_def has_prefix_def ParseUint_def
  digit_val_def info_or_new_def zero_fieldInfo_def byteCount_def Let_def

lemma variant_tags [simp]:
  "fieldTagToFieldInfo ''maxval:2'' ''Sel'' = Inr (Some (zero_fieldInfo\<lparr>fi_count := 1,
     fi_countSet := True, fi_name := ''Sel''\<rparr>))"
  "fieldTagToFieldInfo ''selector:Sel,val:1'' ''Data16'' = Inr (Some (zero_fieldInfo\<lparr>
     fi_selector := ''Sel'', fi_val := 1, fi_name := ''Data16''\<rparr>))"
  "fieldTagToFieldInfo ''selector:Sel,val:2'' ''Data32'' = Inr (Some (zero_fieldInfo\<lparr>
     fi_selector := ''Sel'', fi_val := 2, fi_name := ''Data32''\<rparr>))"
  by (simp_all add: tag_eval)

lemmas codec_eval = Unmarshal_eq Marshal_eq readVarUint_def check_def putCount_def remember_enum_def
  note_selector_def kind_uint64_def kind_uint8_def sized_def info_or_new_def zero_fieldInfo_def
  be_bytes_numeral word_le_nat_alt word_less_nat_alt Let_def

lemma VariantItem_wf: "tls_wf VariantItem None"
  by (simp add: VariantItem_def codec_eval)



text \<open>
  (C5) Canonical encoding: whatever \<^verbatim>\<open>Unmarshal\<close> accepts for a well-annotated type is the
  encoding that \<^verbatim>\<open>Marshal\<close> gives the parsed value, followed by the returned rest; the value has
  the type.
\<close>

theorem Unmarshal_canonical:
  assumes "tls_wf t None" and "Unmarshal b t = Some (Inr (v, rest))"
  shows "has_type t v \<and> (\<exists>bs. Marshal t v = Inr bs \<and> b = bs @ rest)"
  using wire_codec.enc_dec [OF tls_codec [OF assms(1)] assms(2)] .

theorem Unmarshal_canonical_witness:
  "\<exists>bs. Marshal VariantItem (VStruct [VUint 1, VPtr (Some (VUint 258)), VPtr None]) = Inr bs
     \<and> [1, 1, 2, 7] = bs @ [7]"
proof -
  have "Unmarshal [1, 1, 2, 7] VariantItem
      = Some (Inr (VStruct [VUint 1, VPtr (Some (VUint 258)), VPtr None], [7]))"
    by (simp add: VariantItem_def codec_eval)
  then show ?thesis using Unmarshal_canonical [OF VariantItem_wf] by blast
qed



text \<open>
  A slice whose elements occupy no bytes (which \<open>tls_wf\<close> excludes) makes the parser loop
  forever as soon as the length prefix is not zero.
\<close>

theorem empty_element_diverges:
  "Unmarshal [1, 7] (TStruct [(''Es'', ''maxlen:9'', TSlice (TStruct []))]) = None"
proof -
  have no: "\<not> (p' = (\<lambda>d o1. parseField (TStruct []) d o1 None) \<and> inner' = [7] \<and> off = 0)"
    if "slice_loop p' inner' off acc = Some r" for p' inner' off acc r
    by (rule slice_loop.raw_induct [OF _ that]) (fastforce split: if_splits)
  have "slice_loop (\<lambda>d o1. parseField (TStruct []) d o1 None) [7] 0 [] = None"
  proof (rule ccontr)
    assume "\<not> ?thesis"
    then obtain r where
      "slice_loop (\<lambda>d o1. parseField (TStruct []) d o1 None) [7] 0 [] = Some r" by blast
    from no [OF this] show False by simp
  qed
  then show ?thesis by (simp add: codec_eval tag_eval)
qed

text \<open>
  \<^verbatim>\<open>byteCount\<close> is the least number of bytes, at least one, that holds the value.
\<close>

theorem byteCount_minimal:
  "byteCount x = (LEAST n. 1 \<le> n \<and> unat x < 256 ^ n) \<and> byteCount x \<le> 8"
proof -
  have "byteCount x = (LEAST n. 1 \<le> n \<and> unat x < 256 ^ n)"
    by (rule Least_equality [symmetric]) (use byteCount_least [of x] in blast)+
  then show ?thesis using byteCount_least [of x] by blast
qed

text \<open>
  A \<^verbatim>\<open>Uint24\<close> is read from the first three bytes of the whole input, whatever its offset:
  it round-trips at the start of the input and nowhere else in general.
\<close>

theorem uint24_misread:
  "Marshal (TStruct [(''A'', [], TUint8), (''B'', [], TUint24)]) (VStruct [VUint 1, VUint 2])
     = Inr [1, 0, 0, 2] \<and>
   Unmarshal [1, 0, 0, 2] (TStruct [(''A'', [], TUint8), (''B'', [], TUint24)])
     = Some (Inr (VStruct [VUint 1, VUint 0x10000], []))"
  by (simp add: codec_eval tag_eval)

text \<open>
  A field of eight bytes (\<^verbatim>\<open>size:8\<close>, which the tag parser accepts) can never be written
  or read: the bound \<^verbatim>\<open>1 << 64\<close> is zero in \<^verbatim>\<open>uint64\<close>, so every value is rejected.
\<close>

theorem size8_rejected:
  assumes "fieldTagToFieldInfo tag name = Inr (Some fi)" and "fi_count fi = 8"
  shows "(\<nexists>bs. marshalField TEnum (VUint x) (Some fi) = Inr bs) \<and>
         (\<nexists>r. parseField TEnum data off (Some fi) = Some (Inr r))"
proof -
  have "\<not> fits fi y" for y
    using check_size8 [of fi] assms(2) by (simp add: fits_def)
  then show ?thesis by (auto simp: result_simps split: sum.splits)
qed

theorem size8_rejected_witness:
  "\<exists>fi. fieldTagToFieldInfo ''size:8'' ''F'' = Inr (Some fi) \<and> fi_count fi = 8 \<and>
        (\<nexists>bs. marshalField TEnum (VUint 5) (Some fi) = Inr bs)"
proof -
  let ?fi = "zero_fieldInfo\<lparr>fi_count := 8, fi_countSet := True, fi_name := ''F''\<rparr>"
  have "fieldTagToFieldInfo ''size:8'' ''F'' = Inr (Some ?fi)" by (simp add: tag_eval)
  then show ?thesis using size8_rejected [of "''size:8''" "''F''" ?fi 5] by auto
qed

end
