(* ===== verification/TLS_Types.thy ===== *)
theory TLS_Types
  imports TLS_Properties
begin

text \<open>
  \<^verbatim>\<open>src/tls/types.go\<close> and \<^verbatim>\<open>src/tls/signature.go\<close>: the \<^verbatim>\<open>DigitallySigned\<close> structure, the
  algorithm enumerations, and the verification and creation of signatures. The primitives of
  \<^verbatim>\<open>crypto/rsa\<close>, \<^verbatim>\<open>crypto/dsa\<close>, \<^verbatim>\<open>crypto/ecdsa\<close>, the hash functions, and the ASN.1 codec of a
  pair of integers are the fields of \<open>crypto_ops\<close>, an argument of the definitions.
  The theory also holds the interface of a Go struct that is carried by the TLS codec, as the
  locale \<open>tls_record\<close>.
\<close>

section \<open>Structures carried by the codec\<close>

definition marshal_rec :: "gotype \<Rightarrow> ('r \<Rightarrow> goval) \<Rightarrow> 'r \<Rightarrow> tls_error + bytes" where
  "marshal_rec t val r = Marshal t (val r)"

definition unmarshal_rec ::
    "gotype \<Rightarrow> (goval \<Rightarrow> 'r option) \<Rightarrow> bytes \<Rightarrow> (tls_error, 'r \<times> bytes) run" where
  "unmarshal_rec t of_val b =
     bind_run (Unmarshal b t) (\<lambda>(v, rest).
       case of_val v of None \<Rightarrow> Some (Inl GoPanic) | Some r \<Rightarrow> Some (Inr (r, rest)))"

section \<open>types.go\<close>

record SignatureAndHashAlgorithm =
  sha_Hash :: u64
  sha_Signature :: u64

record DigitallySigned =
  ds_Algorithm :: SignatureAndHashAlgorithm
  ds_Signature :: bytes

definition T_SignatureAndHashAlgorithm :: gotype where
  "T_SignatureAndHashAlgorithm = TStruct
     [(''Hash'', ''maxval:255'', TEnum),
      (''Signature'', ''maxval:255'', TEnum)]"

definition T_DigitallySigned :: gotype where
  "T_DigitallySigned = TStruct
     [(''Algorithm'', [], T_SignatureAndHashAlgorithm),
      (''Signature'', ''minlen:0,maxlen:65535'', TSlice TUint8)]"

definition v_DigitallySigned :: "DigitallySigned \<Rightarrow> goval" where
  "v_DigitallySigned d = VStruct
     [VStruct [VUint (sha_Hash (ds_Algorithm d)), VUint (sha_Signature (ds_Algorithm d))],
      VBytes (ds_Signature d)]"

fun of_DigitallySigned :: "goval \<Rightarrow> DigitallySigned option" where
  "of_DigitallySigned (VStruct [VStruct [VUint h, VUint s], VBytes sig]) =
     Some \<lparr>ds_Algorithm = \<lparr>sha_Hash = h, sha_Signature = s\<rparr>, ds_Signature = sig\<rparr>"
| "of_DigitallySigned _ = None"

text \<open>HashAlgorithm and SignatureAlgorithm constants.\<close>

definition HashNone :: u64 where "HashNone = 0"
definition MD5 :: u64 where "MD5 = 1"
definition SHA1 :: u64 where "SHA1 = 2"
definition SHA224 :: u64 where "SHA224 = 3"
definition SHA256 :: u64 where "SHA256 = 4"
definition SHA384 :: u64 where "SHA384 = 5"
definition SHA512 :: u64 where "SHA512 = 6"

definition Anonymous :: u64 where "Anonymous = 0"
definition RSA :: u64 where "RSA = 1"
definition DSA :: u64 where "DSA = 2"
definition ECDSA :: u64 where "ECDSA = 3"

lemmas alg_defs = HashNone_def MD5_def SHA1_def SHA224_def SHA256_def SHA384_def SHA512_def
  Anonymous_def RSA_def DSA_def ECDSA_def

definition HashAlgorithm_String :: "u64 \<Rightarrow> string" where
  "HashAlgorithm_String h =
     (if h = HashNone then ''None''
      else if h = MD5 then ''MD5''
      else if h = SHA1 then ''SHA1''
      else if h = SHA224 then ''SHA224''
      else if h = SHA256 then ''SHA256''
      else if h = SHA384 then ''SHA384''
      else if h = SHA512 then ''SHA512''
      else ''UNKNOWN('' @ fmt_d (unat h) @ '')'')"

definition SignatureAlgorithm_String :: "u64 \<Rightarrow> string" where
  "SignatureAlgorithm_String s =
     (if s = Anonymous then ''Anonymous''
      else if s = RSA then ''RSA''
      else if s = DSA then ''DSA''
      else if s = ECDSA then ''ECDSA''
      else ''UNKNOWN('' @ fmt_d (unat s) @ '')'')"

text \<open>The dynamic type of a \<^verbatim>\<open>crypto.PublicKey\<close> or \<^verbatim>\<open>crypto.PrivateKey\<close>.\<close>

datatype ('r, 'd, 'e) key = RSAKey 'r | DSAKey 'd | ECDSAKey 'e | OtherKey

definition SignatureAlgorithmFromPubKey :: "('r, 'd, 'e) key \<Rightarrow> u64" where
  "SignatureAlgorithmFromPubKey k =
     (case k of ECDSAKey _ \<Rightarrow> ECDSA | RSAKey _ \<Rightarrow> RSA | DSAKey _ \<Rightarrow> DSA | OtherKey \<Rightarrow> Anonymous)"

section \<open>signature.go\<close>

datatype crypto_hash = CryptoMD5 | CryptoSHA1 | CryptoSHA224 | CryptoSHA256 | CryptoSHA384 | CryptoSHA512

datatype sig_error =
    UnsupportedHash u64
  | WrongKeyType string
  | RSAVerifyFailed
  | BadSignatureASN1 string
  | NonPositiveSignature string
  | SignatureMismatch string
  | UnsupportedSignature u64
  | SigningFailed
  | UnsupportedPrivateKey

text \<open>
  The primitives of the Go standard library and the ASN.1 encoding of the pair \<^verbatim>\<open>dsaSig\<close>:
  hashing, verification, and signing (which may fail, and draws randomness from its last
  argument).
\<close>

record ('r, 'd, 'e, 'rp, 'ep, 'rand) crypto_ops =
  hash_sum :: "crypto_hash \<Rightarrow> bytes \<Rightarrow> bytes"
  rsa_verify :: "'r \<Rightarrow> crypto_hash \<Rightarrow> bytes \<Rightarrow> bytes \<Rightarrow> bool"
  dsa_verify :: "'d \<Rightarrow> bytes \<Rightarrow> int \<Rightarrow> int \<Rightarrow> bool"
  ecdsa_verify :: "'e \<Rightarrow> bytes \<Rightarrow> int \<Rightarrow> int \<Rightarrow> bool"
  rsa_sign :: "'rp \<Rightarrow> crypto_hash \<Rightarrow> bytes \<Rightarrow> 'rand \<Rightarrow> bytes option"
  ecdsa_sign :: "'ep \<Rightarrow> bytes \<Rightarrow> 'rand \<Rightarrow> (int \<times> int) option"
  dsaSig_unmarshal :: "bytes \<Rightarrow> (int \<times> int \<times> bytes) option"
  dsaSig_marshal :: "int \<times> int \<Rightarrow> bytes option"

definition generateHash ::
    "('r, 'd, 'e, 'rp, 'ep, 'rand) crypto_ops \<Rightarrow> u64 \<Rightarrow> bytes \<Rightarrow> sig_error + (bytes \<times> crypto_hash)" where
  "generateHash ops algo data =
     (if algo = MD5 then Inr (hash_sum ops CryptoMD5 data, CryptoMD5)
      else if algo = SHA1 then Inr (hash_sum ops CryptoSHA1 data, CryptoSHA1)
      else if algo = SHA224 then Inr (hash_sum ops CryptoSHA224 data, CryptoSHA224)
      else if algo = SHA256 then Inr (hash_sum ops CryptoSHA256 data, CryptoSHA256)
      else if algo = SHA384 then Inr (hash_sum ops CryptoSHA384 data, CryptoSHA384)
      else if algo = SHA512 then Inr (hash_sum ops CryptoSHA512 data, CryptoSHA512)
      else Inl (UnsupportedHash algo))"

text \<open>
  Trailing bytes after the ASN.1 structure are only logged. The last branch reports the hash
  algorithm where the message speaks of the signature algorithm, as the source does.
\<close>

definition VerifySignature ::
    "('r, 'd, 'e, 'rp, 'ep, 'rand) crypto_ops \<Rightarrow> ('r, 'd, 'e) key \<Rightarrow> bytes \<Rightarrow> DigitallySigned
       \<Rightarrow> sig_error + unit" where
  "VerifySignature ops pubKey data sig =
     bind_res (generateHash ops (sha_Hash (ds_Algorithm sig)) data) (\<lambda>(hash, hashType).
       if sha_Signature (ds_Algorithm sig) = RSA then
         (case pubKey of
            RSAKey rsaKey \<Rightarrow>
              if rsa_verify ops rsaKey hashType hash (ds_Signature sig) then Inr ()
              else Inl RSAVerifyFailed
          | _ \<Rightarrow> Inl (WrongKeyType ''RSA''))
       else if sha_Signature (ds_Algorithm sig) = DSA then
         (case pubKey of
            DSAKey dsaKey \<Rightarrow>
              (case dsaSig_unmarshal ops (ds_Signature sig) of
                 None \<Rightarrow> Inl (BadSignatureASN1 ''DSA'')
               | Some (R, S, rest) \<Rightarrow>
                   if R \<le> 0 \<or> S \<le> 0 then Inl (NonPositiveSignature ''DSA'')
                   else if dsa_verify ops dsaKey hash R S then Inr ()
                   else Inl (SignatureMismatch ''DSA''))
          | _ \<Rightarrow> Inl (WrongKeyType ''DSA''))
       else if sha_Signature (ds_Algorithm sig) = ECDSA then
         (case pubKey of
            ECDSAKey ecdsaKey \<Rightarrow>
              (case dsaSig_unmarshal ops (ds_Signature sig) of
                 None \<Rightarrow> Inl (BadSignatureASN1 ''ECDSA'')
               | Some (R, S, rest) \<Rightarrow>
                   if R \<le> 0 \<or> S \<le> 0 then Inl (NonPositiveSignature ''ECDSA'')
                   else if ecdsa_verify ops ecdsaKey hash R S then Inr ()
                   else Inl (SignatureMismatch ''ECDSA''))
          | _ \<Rightarrow> Inl (WrongKeyType ''ECDSA''))
       else Inl (UnsupportedSignature (sha_Hash (ds_Algorithm sig))))"

text \<open>\<^verbatim>\<open>CreateSignature\<close> takes RSA and ECDSA private keys (by value) and no others.\<close>

definition CreateSignature ::
    "('r, 'd, 'e, 'rp, 'ep, 'rand) crypto_ops \<Rightarrow> 'rand \<Rightarrow> ('rp, 'dp, 'ep) key \<Rightarrow> u64 \<Rightarrow> bytes
       \<Rightarrow> sig_error + DigitallySigned" where
  "CreateSignature ops rnd privKey hashAlgo data =
     bind_res (generateHash ops hashAlgo data) (\<lambda>(hash, hashType).
       case privKey of
         RSAKey k \<Rightarrow>
           (case rsa_sign ops k hashType hash rnd of
              None \<Rightarrow> Inl SigningFailed
            | Some s \<Rightarrow> Inr \<lparr>ds_Algorithm = \<lparr>sha_Hash = hashAlgo, sha_Signature = RSA\<rparr>, ds_Signature = s\<rparr>)
       | ECDSAKey k \<Rightarrow>
           (case ecdsa_sign ops k hash rnd of
              None \<Rightarrow> Inl SigningFailed
            | Some (R, S) \<Rightarrow>
                (case dsaSig_marshal ops (R, S) of
                   None \<Rightarrow> Inl SigningFailed
                 | Some s \<Rightarrow>
                     Inr \<lparr>ds_Algorithm = \<lparr>sha_Hash = hashAlgo, sha_Signature = ECDSA\<rparr>, ds_Signature = s\<rparr>))
       | _ \<Rightarrow> Inl UnsupportedPrivateKey)"

text \<open>
  What the callers rely on: a signature produced with a private key is accepted under the
  corresponding public key, and the ASN.1 codec of the pair reads back what it wrote.
\<close>

definition sign_verify_law ::
    "('r, 'd, 'e, 'rp, 'ep, 'rand) crypto_ops \<Rightarrow> ('rp \<Rightarrow> 'r) \<Rightarrow> ('ep \<Rightarrow> 'e) \<Rightarrow> bool" where
  "sign_verify_law ops rpub epub \<longleftrightarrow>
     (\<forall>k h d rnd s. rsa_sign ops k h d rnd = Some s \<longrightarrow> rsa_verify ops (rpub k) h d s) \<and>
     (\<forall>k d rnd R S. ecdsa_sign ops k d rnd = Some (R, S) \<longrightarrow>
        0 < R \<and> 0 < S \<and> ecdsa_verify ops (epub k) d R S) \<and>
     (\<forall>p s. dsaSig_marshal ops p = Some s \<longrightarrow> dsaSig_unmarshal ops s = Some (fst p, snd p, []))"

fun public_key :: "('rp \<Rightarrow> 'r) \<Rightarrow> ('ep \<Rightarrow> 'e) \<Rightarrow> ('rp, 'dp, 'ep) key \<Rightarrow> ('r, 'd, 'e) key" where
  "public_key rpub epub (RSAKey k) = RSAKey (rpub k)"
| "public_key rpub epub (ECDSAKey k) = ECDSAKey (epub k)"
| "public_key rpub epub _ = OtherKey"

section \<open>Lemmas\<close>

locale tls_record = tls_type t for t +
  fixes val :: "'r \<Rightarrow> goval" and of_val :: "goval \<Rightarrow> 'r option"
  assumes of_val: "of_val (val r) = Some r"
    and val_of: "has_type t v \<Longrightarrow> \<exists>r. of_val v = Some r \<and> val r = v"

sublocale tls_record < rec: wire_codec "marshal_rec t val" "unmarshal_rec t of_val" "\<lambda>r. has_type t (val r)"
proof
  fix r bs rest
  assume "has_type t (val r)" and "marshal_rec t val r = Inr bs"
  then show "unmarshal_rec t of_val (bs @ rest) = Some (Inr (r, rest))"
    using dec_enc [of "val r" bs rest] by (simp add: marshal_rec_def unmarshal_rec_def of_val result_simps)
next
  fix b r rest
  assume "unmarshal_rec t of_val b = Some (Inr (r, rest))"
  then obtain v where v: "Unmarshal b t = Some (Inr (v, rest))" and r: "of_val v = Some r"
    by (auto simp: unmarshal_rec_def bind_run_Inr split: option.splits)
  from enc_dec [OF v] obtain bs where "has_type t v" "Marshal t v = Inr bs" "b = bs @ rest" by blast
  moreover have "val r = v" using val_of [OF \<open>has_type t v\<close>] r by simp
  ultimately show "has_type t (val r) \<and> (\<exists>bs. marshal_rec t val r = Inr bs \<and> b = bs @ rest)"
    by (simp add: marshal_rec_def)
qed

context tls_record
begin

text \<open>The decoder returns on every input, and never panics.\<close>

lemma rec_returns: "\<exists>res. unmarshal_rec t of_val b = Some res \<and> res \<noteq> Inl GoPanic"
proof -
  obtain res where u: "Unmarshal b t = Some res" and p: "res \<noteq> Inl GoPanic"
    using Unmarshal_total [OF wf] by blast
  show ?thesis
  proof (cases res)
    case (Inl e)
    then show ?thesis using u p by (simp add: unmarshal_rec_def)
  next
    case (Inr vr)
    then obtain v rest where "Unmarshal b t = Some (Inr (v, rest))" using u by (cases vr) simp
    moreover from enc_dec [OF this] have "has_type t v" by simp
    ultimately show ?thesis using val_of [OF \<open>has_type t v\<close>] by (auto simp: unmarshal_rec_def)
  qed
qed

end

lemma generateHash_Inr:
  "generateHash ops algo data = Inr (d, h) \<Longrightarrow> d = hash_sum ops h data"
  by (auto simp: generateHash_def split: if_splits)

lemma DigitallySigned_tags:
  "fieldTagToFieldInfo ''maxval:255'' n = Inr (Some (zero_fieldInfo\<lparr>fi_count := 1,
     fi_countSet := True, fi_name := n\<rparr>))"
  "fieldTagToFieldInfo ''minlen:0,maxlen:65535'' n = Inr (Some (zero_fieldInfo\<lparr>fi_count := 2,
     fi_countSet := True, fi_maxlen := 65535, fi_name := n\<rparr>))"
  "fieldTagToFieldInfo [] n = Inr (if n = [] then None else Some (zero_fieldInfo\<lparr>fi_name := n\<rparr>))"
  by (simp_all add: tag_eval)

lemma DigitallySigned_wf: "tls_wf T_DigitallySigned None"
  by (simp add: T_DigitallySigned_def T_SignatureAndHashAlgorithm_def DigitallySigned_tags codec_eval)

lemma of_v_DigitallySigned: "of_DigitallySigned (v_DigitallySigned d) = Some d"
  by (simp add: v_DigitallySigned_def)

text \<open>Shapes of the values of a type, for the structures of the source.\<close>

lemma has_types_Cons_iff:
  "has_types (f # fs) vs \<longleftrightarrow>
     (\<exists>v vs'. vs = v # vs' \<and> has_type (snd (snd f)) v \<and> has_types fs vs')"
  by (cases vs) auto

lemma has_type_Struct_iff:
  "has_type (TStruct fs) v \<longleftrightarrow> (\<exists>vs. v = VStruct vs \<and> has_types fs vs)"
  by (cases v) auto

lemma has_type_Enum_iff: "has_type TEnum v \<longleftrightarrow> (\<exists>x. v = VUint x)"
  by (cases v) auto

lemma has_type_Uint64_iff: "has_type TUint64 v \<longleftrightarrow> (\<exists>x. v = VUint x)"
  by (cases v) auto

lemma has_type_bytes_iff:
  "has_type (TSlice TUint8) v \<longleftrightarrow> (\<exists>bs. v = VBytes bs \<and> length bs < 2 ^ 63)"
  by (cases v) (auto simp: kind_uint8_def)

lemma has_type_array_iff: "has_type (TArray n TUint8) v \<longleftrightarrow> (\<exists>bs. v = VBytes bs \<and> length bs = n)"
  by (cases v) (auto simp: kind_uint8_def)

lemma has_type_structs_iff:
  "has_type (TSlice (TStruct fs)) v \<longleftrightarrow> (\<exists>vs. v = VSlice vs \<and> list_all (has_type (TStruct fs)) vs)"
  by (cases v) (auto simp: kind_uint8_def)

lemma has_type_Ptr_iff:
  "has_type (TPtr et) v \<longleftrightarrow> v = VPtr None \<or> (\<exists>w. v = VPtr (Some w) \<and> has_type et w)"
  by (cases v) (auto split: option.splits)

lemmas shape_iffs = has_types_Cons_iff has_type_Struct_iff has_type_Enum_iff
  has_type_Uint64_iff has_type_bytes_iff has_type_array_iff has_type_structs_iff has_type_Ptr_iff

interpretation ds: tls_record T_DigitallySigned v_DigitallySigned of_DigitallySigned
proof
  show "tls_wf T_DigitallySigned None" by (rule DigitallySigned_wf)
  show "of_DigitallySigned (v_DigitallySigned d) = Some d" for d by (rule of_v_DigitallySigned)
  fix v assume "has_type T_DigitallySigned v"
  then obtain h s sig where "v = VStruct [VStruct [VUint h, VUint s], VBytes sig]"
    unfolding T_DigitallySigned_def T_SignatureAndHashAlgorithm_def
    by (auto simp: shape_iffs simp del: has_type.simps has_types.simps(2))
  then show "\<exists>d. of_DigitallySigned v = Some d \<and> v_DigitallySigned d = v"
    by (simp add: v_DigitallySigned_def)
qed

section \<open>Properties\<close>


text \<open>
  (C29) A signature made by \<^verbatim>\<open>CreateSignature\<close> with a private key is accepted by
  \<^verbatim>\<open>VerifySignature\<close> under the matching public key for the same data, and names the requested hash
  algorithm and the algorithm of the key.
\<close>

theorem CreateSignature_verifies:
  assumes "sign_verify_law ops rpub epub"
    and "CreateSignature ops rnd privKey hashAlgo data = Inr sig"
  shows "VerifySignature ops (public_key rpub epub privKey) data sig = Inr () \<and>
         sha_Hash (ds_Algorithm sig) = hashAlgo \<and>
         sha_Signature (ds_Algorithm sig) = SignatureAlgorithmFromPubKey (public_key rpub epub privKey)"
proof (cases "generateHash ops hashAlgo data")
  case (Inl e)
  then show ?thesis using assms(2) by (simp add: CreateSignature_def)
next
  case (Inr r)
  then show ?thesis using assms
    by (cases r; cases privKey)
       (auto simp: CreateSignature_def VerifySignature_def sign_verify_law_def alg_defs
          SignatureAlgorithmFromPubKey_def linorder_not_less [symmetric] split: option.splits)
qed

text \<open>A concrete instance of the primitives: the ``signature'' repeats the digest.\<close>

definition demo_ops :: "(unit, unit, unit, unit, unit, unit) crypto_ops" where
  "demo_ops = \<lparr>hash_sum = (\<lambda>h d. take 1 d), rsa_verify = (\<lambda>k h d s. s = d),
     dsa_verify = (\<lambda>k d R S. False), ecdsa_verify = (\<lambda>k d R S. R = 1 \<and> S = 1),
     rsa_sign = (\<lambda>k h d rnd. Some d), ecdsa_sign = (\<lambda>k d rnd. Some (1, 1)),
     dsaSig_unmarshal = (\<lambda>s. if s = [1, 1] then Some (1, 1, []) else None),
     dsaSig_marshal = (\<lambda>p. if p = (1, 1) then Some [1, 1] else None)\<rparr>"

lemma demo_ops_law: "sign_verify_law demo_ops id id"
  by (auto simp: sign_verify_law_def demo_ops_def split: if_splits)

theorem CreateSignature_verifies_witness:
  "VerifySignature demo_ops (public_key id id (ECDSAKey () :: (unit, unit, unit) key)) [5, 6]
     \<lparr>ds_Algorithm = \<lparr>sha_Hash = SHA256, sha_Signature = ECDSA\<rparr>, ds_Signature = [1, 1]\<rparr> = Inr ()"
  by (rule conjunct1 [OF CreateSignature_verifies [OF demo_ops_law, where rnd = "()" and hashAlgo = SHA256]])
     (simp add: CreateSignature_def generateHash_def alg_defs demo_ops_def)

end
