(* ===== verification/Base64.thy ===== *)
theory Base64
  imports CT_Prelude
begin

text \<open>
  \<^verbatim>\<open>base64.StdEncoding\<close> of the Go standard library, as \<^verbatim>\<open>src/types.go\<close>, \<^verbatim>\<open>src/signatures.go\<close> and
  \<^verbatim>\<open>src/logid/logid.go\<close> use it: padded encoding; decoding skips line breaks, requires the padding and
  ignores the unused low bits of the last character before it.
\<close>

definition b64_alphabet :: string where
  "b64_alphabet = ''ABCDEFGHIJKLMNOPQRSTUVWXYZabcdefghijklmnopqrstuvwxyz0123456789+/''"

definition b64_char :: "nat \<Rightarrow> char" where
  "b64_char k = b64_alphabet ! k"

definition b64_val :: "char \<Rightarrow> nat option" where
  "b64_val c = map_of (zip b64_alphabet [0..<64]) c"

fun EncodeToString :: "bytes \<Rightarrow> string" where
  "EncodeToString [] = []"
| "EncodeToString [a] =
     [b64_char (unat a div 4), b64_char (unat a mod 4 * 16), CHR ''='', CHR ''='']"
| "EncodeToString [a, b] =
     [b64_char (unat a div 4), b64_char (unat a mod 4 * 16 + unat b div 16),
      b64_char (unat b mod 16 * 4), CHR ''='']"
| "EncodeToString (a # b # c # r) =
     b64_char (unat a div 4) # b64_char (unat a mod 4 * 16 + unat b div 16) #
     b64_char (unat b mod 16 * 4 + unat c div 64) # b64_char (unat c mod 64) # EncodeToString r"

fun b64_quanta :: "string \<Rightarrow> bytes option" where
  "b64_quanta [] = Some []"
| "b64_quanta (c1 # c2 # c3 # c4 # r) =
     (case (b64_val c1, b64_val c2) of
        (Some v1, Some v2) \<Rightarrow>
          if c3 = CHR ''='' then
            if c4 = CHR ''='' \<and> r = [] then Some [of_nat (v1 * 4 + v2 div 16)] else None
          else (case b64_val c3 of
              None \<Rightarrow> None
            | Some v3 \<Rightarrow>
                if c4 = CHR ''='' then
                  if r = [] then Some [of_nat (v1 * 4 + v2 div 16), of_nat (v2 mod 16 * 16 + v3 div 4)]
                  else None
                else (case b64_val c4 of
                    None \<Rightarrow> None
                  | Some v4 \<Rightarrow>
                      map_option (\<lambda>bs. of_nat (v1 * 4 + v2 div 16) # of_nat (v2 mod 16 * 16 + v3 div 4)
                                     # of_nat (v3 mod 4 * 64 + v4) # bs)
                        (b64_quanta r)))
      | _ \<Rightarrow> None)"
| "b64_quanta _ = None"

definition DecodeString :: "string \<Rightarrow> bytes option" where
  "DecodeString s = b64_quanta (filter (\<lambda>c. c \<noteq> CHR 0x0A \<and> c \<noteq> CHR 0x0D) s)"

section \<open>Lemmas\<close>

lemma b64_table:
  assumes "k < 64"
  shows "b64_val (b64_char k) = Some k" "b64_char k \<noteq> CHR ''=''"
    "b64_char k \<noteq> CHR 0x0A" "b64_char k \<noteq> CHR 0x0D"
proof -
  have "list_all (\<lambda>k. b64_val (b64_char k) = Some k \<and> b64_char k \<notin> {CHR ''='', CHR 0x0A, CHR 0x0D}) [0..<64]"
    by code_simp
  then have "b64_val (b64_char k) = Some k \<and> b64_char k \<notin> {CHR ''='', CHR 0x0A, CHR 0x0D}"
    using assms by (auto simp: list_all_iff)
  then show "b64_val (b64_char k) = Some k" "b64_char k \<noteq> CHR ''=''"
    "b64_char k \<noteq> CHR 0x0A" "b64_char k \<noteq> CHR 0x0D" by auto
qed

lemma of_nat_unat_byte: "of_nat (unat (a :: byte)) = a"
  by simp

lemma byte_bits:
  fixes a b :: byte
  shows "unat a div 4 < 64" "unat a mod 4 * 16 + unat b div 16 < 64" "unat a mod 16 * 4 < 64"
    "unat a mod 16 * 4 + unat b div 64 < 64" "unat a mod 64 < 64" "unat a mod 4 * 16 < 64"
  using unat_byte_less [of a] unat_byte_less [of b] by linarith+

lemma byte_glue:
  fixes a :: byte
  shows "k < 16 \<Longrightarrow> of_nat (unat a div 4 * 4 + (unat a mod 4 * 16 + k) div 16) = a"
    and "k < 4 \<Longrightarrow> of_nat ((m * 16 + unat a div 16) mod 16 * 16 + (unat a mod 16 * 4 + k) div 4) = a"
    and "of_nat ((m * 4 + unat a div 64) mod 4 * 64 + unat a mod 64) = a"
proof -
  show "of_nat (unat a div 4 * 4 + (unat a mod 4 * 16 + k) div 16) = a" if "k < 16"
  proof -
    have "unat a div 4 * 4 + (unat a mod 4 * 16 + k) div 16 = unat a" using that by simp
    then show ?thesis by (simp only: of_nat_unat_byte)
  qed
  have a: "unat a < 256" by (rule unat_byte_less)
  show "of_nat ((m * 16 + unat a div 16) mod 16 * 16 + (unat a mod 16 * 4 + k) div 4) = a" if "k < 4"
  proof -
    have "unat a div 16 < 16" using a by linarith
    then have "(m * 16 + unat a div 16) mod 16 * 16 + (unat a mod 16 * 4 + k) div 4 = unat a"
      using that by simp
    then show ?thesis by (simp only: of_nat_unat_byte)
  qed
  have "unat a div 64 < 4" using a by linarith
  then have "(m * 4 + unat a div 64) mod 4 * 64 + unat a mod 64 = unat a" by simp
  then show "of_nat ((m * 4 + unat a div 64) mod 4 * 64 + unat a mod 64) = a"
    by (simp only: of_nat_unat_byte)
qed

lemma byte_parts:
  fixes a :: byte
  shows "unat a div 16 < 16" "unat a div 64 < 4"
  using unat_byte_less [of a] by linarith+

lemma EncodeToString_no_breaks:
  "filter (\<lambda>c. c \<noteq> CHR 0x0A \<and> c \<noteq> CHR 0x0D) (EncodeToString bs) = EncodeToString bs"
  by (induction bs rule: EncodeToString.induct) (simp_all add: b64_table byte_bits)

lemma b64_quanta_Encode: "b64_quanta (EncodeToString bs) = Some bs"
proof (induction bs rule: EncodeToString.induct)
  case (2 a)
  show ?case using byte_glue(1) [of 0 a] by (simp add: b64_table byte_bits)
next
  case (3 a b)
  show ?case using byte_glue(1) [of "unat b div 16" a] byte_glue(2) [of 0 "unat a mod 4" b]
    by (simp add: b64_table byte_bits byte_parts)
next
  case (4 a b c r)
  then show ?case using byte_glue(1) [of "unat b div 16" a]
      byte_glue(2) [of "unat c div 64" "unat a mod 4" b] byte_glue(3) [of "unat b mod 16" c]
    by (simp add: b64_table byte_bits byte_parts)
qed simp

lemma DecodeString_EncodeToString [simp]: "DecodeString (EncodeToString bs) = Some bs"
  by (simp add: DecodeString_def EncodeToString_no_breaks b64_quanta_Encode)

end
