(* ===== verification/X509_Types.thy ===== *)
theory X509_Types
  imports TLS_Types
begin

text \<open>
  The data of package \<^verbatim>\<open>x509\<close> that the other components use (\<^verbatim>\<open>src/x509/x509.go\<close>,
  \<^verbatim>\<open>src/x509/error.go\<close>, \<^verbatim>\<open>src/x509/pkix/pkix.go\<close>): certificates, extensions, key usages, the
  classification of parse errors into fatal and non-fatal, and the check of one certificate's
  signature against its issuer. A \<^verbatim>\<open>time.Time\<close> is the number of nanoseconds since the Unix epoch.
\<close>

unbundle bit_operations_syntax

section \<open>Certificates\<close>

type_synonym oid = "int list"
type_synonym gotime = int

definition zero_time :: gotime where
  "zero_time = - 62135596800 * 1000000000"

record Extension =
  ext_Id :: oid
  ext_Critical :: bool
  ext_Value :: bytes

record IPNet =
  ipnet_IP :: bytes
  ipnet_Mask :: bytes

record Name =
  name_Organization :: "string list"
  name_CommonName :: string

record rsa_PublicKey =
  rsa_N :: int
  rsa_E :: int

record dsa_PublicKey =
  dsa_P :: int
  dsa_Q :: int
  dsa_G :: int
  dsa_Y :: int

datatype curve = P192 | P224 | P256 | P384 | P521 | OtherCurve

record ecdsa_PublicKey =
  ec_Curve :: curve
  ec_X :: int
  ec_Y :: int

text \<open>The dynamic type of the \<^verbatim>\<open>PublicKey\<close> field of a certificate.\<close>

datatype PublicKey =
    PubRSA rsa_PublicKey | PubDSA dsa_PublicKey | PubECDSA ecdsa_PublicKey | PubEd25519 bytes | PubOther

text \<open>The fields of \<^verbatim>\<open>x509.Certificate\<close> that the modelled code reads.\<close>

record Certificate =
  Raw :: bytes
  RawTBSCertificate :: bytes
  RawSubjectPublicKeyInfo :: bytes
  RawSubject :: bytes
  RawIssuer :: bytes
  CertSignature :: bytes
  SignatureAlgorithm :: int
  PublicKeyAlgorithm :: int
  CertPublicKey :: PublicKey
  CertVersion :: int
  SerialNumber :: int
  Issuer :: Name
  Subject :: Name
  NotBefore :: gotime
  NotAfter :: gotime
  KeyUsage :: "64 word"
  Extensions :: "Extension list"
  UnhandledCriticalExtensions :: "oid list"
  ExtKeyUsage :: "int list"
  UnknownExtKeyUsage :: "oid list"
  BasicConstraintsValid :: bool
  IsCA :: bool
  MaxPathLen :: int
  MaxPathLenZero :: bool
  SubjectKeyId :: bytes
  AuthorityKeyId :: bytes
  DNSNames :: "string list"
  IPAddresses :: "bytes list"
  PermittedDNSDomains :: "string list"
  ExcludedDNSDomains :: "string list"
  PermittedIPRanges :: "IPNet list"
  ExcludedIPRanges :: "IPNet list"
  PermittedEmailAddresses :: "string list"
  ExcludedEmailAddresses :: "string list"
  PermittedURIDomains :: "string list"
  ExcludedURIDomains :: "string list"
  SCTList :: "bytes list"

text \<open>A certificate with every field at its zero value.\<close>

definition zero_Certificate :: Certificate where
  "zero_Certificate = \<lparr>Raw = [], RawTBSCertificate = [], RawSubjectPublicKeyInfo = [],
     RawSubject = [], RawIssuer = [], CertSignature = [], SignatureAlgorithm = 0,
     PublicKeyAlgorithm = 0, CertPublicKey = PubOther, CertVersion = 0,
     SerialNumber = 0, Issuer = \<lparr>name_Organization = [], name_CommonName = []\<rparr>,
     Subject = \<lparr>name_Organization = [], name_CommonName = []\<rparr>, NotBefore = zero_time,
     NotAfter = zero_time, KeyUsage = 0, Extensions = [], UnhandledCriticalExtensions = [],
     ExtKeyUsage = [], UnknownExtKeyUsage = [], BasicConstraintsValid = False, IsCA = False,
     MaxPathLen = 0, MaxPathLenZero = False, SubjectKeyId = [], AuthorityKeyId = [],
     DNSNames = [], IPAddresses = [], PermittedDNSDomains = [], ExcludedDNSDomains = [],
     PermittedIPRanges = [], ExcludedIPRanges = [], PermittedEmailAddresses = [],
     ExcludedEmailAddresses = [], PermittedURIDomains = [], ExcludedURIDomains = [],
     SCTList = []\<rparr>"

section \<open>Object identifiers and extensions\<close>

definition OIDExtensionSubjectAltName :: oid where
  "OIDExtensionSubjectAltName = [2, 5, 29, 17]"

definition OIDExtensionNameConstraints :: oid where
  "OIDExtensionNameConstraints = [2, 5, 29, 30]"

definition OIDExtensionAuthorityKeyId :: oid where
  "OIDExtensionAuthorityKeyId = [2, 5, 29, 35]"

definition OIDExtensionCTPoison :: oid where
  "OIDExtensionCTPoison = [1, 3, 6, 1, 4, 1, 11129, 2, 4, 3]"

definition OIDExtensionCTSCT :: oid where
  "OIDExtensionCTSCT = [1, 3, 6, 1, 4, 1, 11129, 2, 4, 2]"

definition oidInExtensions :: "oid \<Rightarrow> Extension list \<Rightarrow> bool" where
  "oidInExtensions i es = list_ex (\<lambda>e. ext_Id e = i) es"

definition hasSANExtension :: "Certificate \<Rightarrow> bool" where
  "hasSANExtension c = oidInExtensions OIDExtensionSubjectAltName (Extensions c)"

definition hasNameConstraints :: "Certificate \<Rightarrow> bool" where
  "hasNameConstraints c = oidInExtensions OIDExtensionNameConstraints (Extensions c)"

fun firstExtension :: "oid \<Rightarrow> Extension list \<Rightarrow> bytes" where
  "firstExtension i [] = []"
| "firstExtension i (e # es) = (if ext_Id e = i then ext_Value e else firstExtension i es)"

definition getSANExtension :: "Certificate \<Rightarrow> bytes" where
  "getSANExtension c = firstExtension OIDExtensionSubjectAltName (Extensions c)"

text \<open>\<^verbatim>\<open>c.IsPrecertificate()\<close>; the receiver may be nil.\<close>

definition IsPrecertificate :: "Certificate option \<Rightarrow> bool" where
  "IsPrecertificate oc =
     (case oc of None \<Rightarrow> False
      | Some c \<Rightarrow> list_ex (\<lambda>e. ext_Id e = OIDExtensionCTPoison) (Extensions c))"

definition Certificate_Equal :: "Certificate \<Rightarrow> Certificate \<Rightarrow> bool" where
  "Certificate_Equal c other = (Raw c = Raw other)"

section \<open>Extended key usages\<close>

definition ExtKeyUsageAny :: int where "ExtKeyUsageAny = 0"
definition ExtKeyUsageServerAuth :: int where "ExtKeyUsageServerAuth = 1"
definition ExtKeyUsageMicrosoftServerGatedCrypto :: int where "ExtKeyUsageMicrosoftServerGatedCrypto = 10"
definition ExtKeyUsageNetscapeServerGatedCrypto :: int where "ExtKeyUsageNetscapeServerGatedCrypto = 11"
definition ExtKeyUsageCertificateTransparency :: int where "ExtKeyUsageCertificateTransparency = 14"

lemmas eku_defs = ExtKeyUsageAny_def ExtKeyUsageServerAuth_def
  ExtKeyUsageMicrosoftServerGatedCrypto_def ExtKeyUsageNetscapeServerGatedCrypto_def
  ExtKeyUsageCertificateTransparency_def

definition extKeyUsageOIDs :: "(int \<times> oid) list" where
  "extKeyUsageOIDs =
     [(0, [2, 5, 29, 37, 0]),
      (1, [1, 3, 6, 1, 5, 5, 7, 3, 1]),
      (2, [1, 3, 6, 1, 5, 5, 7, 3, 2]),
      (3, [1, 3, 6, 1, 5, 5, 7, 3, 3]),
      (4, [1, 3, 6, 1, 5, 5, 7, 3, 4]),
      (5, [1, 3, 6, 1, 5, 5, 7, 3, 5]),
      (6, [1, 3, 6, 1, 5, 5, 7, 3, 6]),
      (7, [1, 3, 6, 1, 5, 5, 7, 3, 7]),
      (8, [1, 3, 6, 1, 5, 5, 7, 3, 8]),
      (9, [1, 3, 6, 1, 5, 5, 7, 3, 9]),
      (10, [1, 3, 6, 1, 4, 1, 311, 10, 3, 3]),
      (11, [2, 16, 840, 1, 113730, 4, 1]),
      (12, [1, 3, 6, 1, 4, 1, 311, 2, 1, 22]),
      (13, [1, 3, 6, 1, 4, 1, 311, 61, 1, 1]),
      (14, [1, 3, 6, 1, 4, 1, 11129, 2, 4, 4])]"

definition extKeyUsageFromOID :: "oid \<Rightarrow> int option" where
  "extKeyUsageFromOID i = map_option fst (find (\<lambda>p. i = snd p) extKeyUsageOIDs)"

definition oidFromExtKeyUsage :: "int \<Rightarrow> oid option" where
  "oidFromExtKeyUsage e = map_option snd (find (\<lambda>p. e = fst p) extKeyUsageOIDs)"

section \<open>Errors\<close>

text \<open>\<^verbatim>\<open>x509.Error\<close> and the dynamic types an \<^verbatim>\<open>error\<close> value of the package can have.\<close>

record Error =
  err_ID :: int
  err_Summary :: string
  err_Fatal :: bool

datatype x509_err =
    NonFatalErrors "string list"
  | Errors "Error list"
  | PlainError string

fun FirstFatal :: "Error list \<Rightarrow> Error option" where
  "FirstFatal [] = None"
| "FirstFatal (e # es) = (if err_Fatal e then Some e else FirstFatal es)"

definition Errors_Fatal :: "Error list \<Rightarrow> bool" where
  "Errors_Fatal es = (FirstFatal es \<noteq> None)"

text \<open>\<^verbatim>\<open>break eloop\<close> leaves the loop over the errors, so the first filtered entry ends the result.\<close>

fun Errors_Filter :: "int list \<Rightarrow> Error list \<Rightarrow> Error list" where
  "Errors_Filter filtered [] = []"
| "Errors_Filter filtered (v # vs) =
     (if err_ID v \<in> set filtered then [] else v # Errors_Filter filtered vs)"

definition IsFatal :: "x509_err option \<Rightarrow> bool" where
  "IsFatal err =
     (case err of
        None \<Rightarrow> False
      | Some (NonFatalErrors _) \<Rightarrow> False
      | Some (Errors es) \<Rightarrow> Errors_Fatal es
      | Some (PlainError _) \<Rightarrow> True)"

definition HasError :: "string list option \<Rightarrow> bool" where
  "HasError e = (case e of None \<Rightarrow> False | Some es \<Rightarrow> 0 < length es)"

definition NonFatal_Append :: "string list option \<Rightarrow> string list option \<Rightarrow> string list option" where
  "NonFatal_Append e further =
     (case e of None \<Rightarrow> further
      | Some es \<Rightarrow> (case further of None \<Rightarrow> e | Some ms \<Rightarrow> Some (es @ ms)))"

section \<open>Signature algorithms\<close>

text \<open>
  The constants of \<^verbatim>\<open>SignatureAlgorithm\<close> and \<^verbatim>\<open>PublicKeyAlgorithm\<close> are the integers of their
  \<^verbatim>\<open>iota\<close> blocks. A row of the table: algorithm, name, OID, algorithm of the key, hash function.
\<close>

definition signatureAlgorithmDetails :: "(int \<times> string \<times> oid \<times> int \<times> crypto_hash option) list" where
  "signatureAlgorithmDetails =
     [(1, ''MD2-RSA'', [1, 2, 840, 113549, 1, 1, 2], 1, None),
      (2, ''MD5-RSA'', [1, 2, 840, 113549, 1, 1, 4], 1, Some CryptoMD5),
      (3, ''SHA1-RSA'', [1, 2, 840, 113549, 1, 1, 5], 1, Some CryptoSHA1),
      (3, ''SHA1-RSA'', [1, 3, 14, 3, 2, 29], 1, Some CryptoSHA1),
      (4, ''SHA256-RSA'', [1, 2, 840, 113549, 1, 1, 11], 1, Some CryptoSHA256),
      (5, ''SHA384-RSA'', [1, 2, 840, 113549, 1, 1, 12], 1, Some CryptoSHA384),
      (6, ''SHA512-RSA'', [1, 2, 840, 113549, 1, 1, 13], 1, Some CryptoSHA512),
      (13, ''SHA256-RSAPSS'', [1, 2, 840, 113549, 1, 1, 10], 1, Some CryptoSHA256),
      (14, ''SHA384-RSAPSS'', [1, 2, 840, 113549, 1, 1, 10], 1, Some CryptoSHA384),
      (15, ''SHA512-RSAPSS'', [1, 2, 840, 113549, 1, 1, 10], 1, Some CryptoSHA512),
      (7, ''DSA-SHA1'', [1, 2, 840, 10040, 4, 3], 2, Some CryptoSHA1),
      (8, ''DSA-SHA256'', [2, 16, 840, 1, 101, 3, 4, 3, 2], 2, Some CryptoSHA256),
      (9, ''ECDSA-SHA1'', [1, 2, 840, 10045, 4, 1], 3, Some CryptoSHA1),
      (10, ''ECDSA-SHA256'', [1, 2, 840, 10045, 4, 3, 2], 3, Some CryptoSHA256),
      (11, ''ECDSA-SHA384'', [1, 2, 840, 10045, 4, 3, 3], 3, Some CryptoSHA384),
      (12, ''ECDSA-SHA512'', [1, 2, 840, 10045, 4, 3, 4], 3, Some CryptoSHA512),
      (16, ''Ed25519'', [1, 3, 101, 112], 4, None)]"

definition isRSAPSS :: "int \<Rightarrow> bool" where
  "isRSAPSS algo \<longleftrightarrow> algo = 13 \<or> algo = 14 \<or> algo = 15"

definition getPublicKeyAlgorithmFromOID :: "oid \<Rightarrow> int" where
  "getPublicKeyAlgorithmFromOID i =
     (if i = [1, 2, 840, 113549, 1, 1, 1] then 1
      else if i = [1, 2, 840, 10040, 4, 1] then 2
      else if i = [1, 2, 840, 10045, 2, 1] then 3
      else if i = [1, 2, 840, 113549, 1, 1, 7] then 5
      else if i = [1, 3, 101, 112] then 4
      else 0)"

fun nat_bitlen :: "nat \<Rightarrow> nat" where
  "nat_bitlen n = (if n = 0 then 0 else Suc (nat_bitlen (n div 2)))"

declare nat_bitlen.simps [simp del]

text \<open>\<^verbatim>\<open>(*big.Int).BitLen\<close>.\<close>

definition BitLen :: "int \<Rightarrow> nat" where
  "BitLen z = nat_bitlen (nat \<bar>z\<bar>)"

text \<open>The further primitives of the standard library that \<^verbatim>\<open>checkSignature\<close> calls.\<close>

record ('rp, 'ep, 'rand) x509_ops =
    "(rsa_PublicKey, dsa_PublicKey, ecdsa_PublicKey, 'rp, 'ep, 'rand) crypto_ops" +
  rsa_verify_pss :: "rsa_PublicKey \<Rightarrow> crypto_hash \<Rightarrow> bytes \<Rightarrow> bytes \<Rightarrow> bool"
  ed25519_verify :: "bytes \<Rightarrow> bytes \<Rightarrow> bytes \<Rightarrow> bool"
  hash_available :: "crypto_hash \<Rightarrow> bool"

datatype check_err =
    ErrUnsupportedAlgorithm
  | InsecureAlgorithmError int
  | ConstraintViolationError
  | KeyAlgoMismatch int
  | SignatureASN1Error
  | TrailingSignatureData
  | NonPositiveValues
  | VerificationFailure

text \<open>The loop over the table has no \<^verbatim>\<open>break\<close>: the last row of the algorithm counts.\<close>

definition algo_details :: "int \<Rightarrow> crypto_hash option \<times> int" where
  "algo_details algo =
     foldl (\<lambda>(h, k) (a, nm, i, pk, hash). if a = algo then (hash, pk) else (h, k)) (None, 0)
       signatureAlgorithmDetails"

definition checkSignature ::
    "('rp, 'ep, 'rand) x509_ops \<Rightarrow> int \<Rightarrow> bytes \<Rightarrow> bytes \<Rightarrow> PublicKey \<Rightarrow> check_err + unit" where
  "checkSignature ops algo tbs signature publicKey =
     (let (hashType, pubKeyAlgo) = algo_details algo in
      bind_res
        (case hashType of
           None \<Rightarrow> if pubKeyAlgo \<noteq> 4 then Inl ErrUnsupportedAlgorithm else Inr tbs
         | Some CryptoMD5 \<Rightarrow> Inl (InsecureAlgorithmError algo)
         | Some h \<Rightarrow> if \<not> hash_available ops h then Inl ErrUnsupportedAlgorithm
                     else Inr (hash_sum ops h tbs))
        (\<lambda>digest.
          case publicKey of
            PubRSA pub \<Rightarrow>
              if pubKeyAlgo \<noteq> 1 then Inl (KeyAlgoMismatch pubKeyAlgo)
              else if (if isRSAPSS algo then rsa_verify_pss ops pub (the hashType) digest signature
                       else rsa_verify ops pub (the hashType) digest signature)
              then Inr () else Inl VerificationFailure
          | PubDSA pub \<Rightarrow>
              if pubKeyAlgo \<noteq> 2 then Inl (KeyAlgoMismatch pubKeyAlgo)
              else (case dsaSig_unmarshal ops signature of
                  None \<Rightarrow> Inl SignatureASN1Error
                | Some (R, S, rest) \<Rightarrow>
                    if rest \<noteq> [] then Inl TrailingSignatureData
                    else if R \<le> 0 \<or> S \<le> 0 then Inl NonPositiveValues
                    else
                      let maxHashLen = BitLen (dsa_Q pub) div 8;
                          d = (if maxHashLen < length digest then take maxHashLen digest else digest)
                      in if dsa_verify ops pub d R S then Inr () else Inl VerificationFailure)
          | PubECDSA pub \<Rightarrow>
              if pubKeyAlgo \<noteq> 3 then Inl (KeyAlgoMismatch pubKeyAlgo)
              else (case dsaSig_unmarshal ops signature of
                  None \<Rightarrow> Inl SignatureASN1Error
                | Some (R, S, rest) \<Rightarrow>
                    if rest \<noteq> [] then Inl TrailingSignatureData
                    else if R \<le> 0 \<or> S \<le> 0 then Inl NonPositiveValues
                    else if ecdsa_verify ops pub digest R S then Inr () else Inl VerificationFailure)
          | PubEd25519 pub \<Rightarrow>
              if pubKeyAlgo \<noteq> 4 then Inl (KeyAlgoMismatch pubKeyAlgo)
              else if ed25519_verify ops pub digest signature then Inr () else Inl VerificationFailure
          | PubOther \<Rightarrow> Inl ErrUnsupportedAlgorithm))"

definition CheckSignature ::
    "('rp, 'ep, 'rand) x509_ops \<Rightarrow> Certificate \<Rightarrow> int \<Rightarrow> bytes \<Rightarrow> bytes \<Rightarrow> check_err + unit" where
  "CheckSignature ops c algo tbs signature = checkSignature ops algo tbs signature (CertPublicKey c)"

definition KeyUsageCertSign :: "64 word" where
  "KeyUsageCertSign = 32"

definition entrustBrokenSPKI :: bytes where
  "entrustBrokenSPKI =
     [0x30, 0x82, 0x01, 0x22, 0x30, 0x0d, 0x06, 0x09, 0x2a, 0x86, 0x48, 0x86,
      0xf7, 0x0d, 0x01, 0x01, 0x01, 0x05, 0x00, 0x03, 0x82, 0x01, 0x0f, 0x00,
      0x30, 0x82, 0x01, 0x0a, 0x02, 0x82, 0x01, 0x01, 0x00, 0x97, 0xa3, 0x2d,
      0x3c, 0x9e, 0xde, 0x05, 0xda, 0x13, 0xc2, 0x11, 0x8d, 0x9d, 0x8e, 0xe3,
      0x7f, 0xc7, 0x4b, 0x7e, 0x5a, 0x9f, 0xb3, 0xff, 0x62, 0xab, 0x73, 0xc8,
      0x28, 0x6b, 0xba, 0x10, 0x64, 0x82, 0x87, 0x13, 0xcd, 0x57, 0x18, 0xff,
      0x28, 0xce, 0xc0, 0xe6, 0x0e, 0x06, 0x91, 0x50, 0x29, 0x83, 0xd1, 0xf2,
      0xc3, 0x2a, 0xdb, 0xd8, 0xdb, 0x4e, 0x04, 0xcc, 0x00, 0xeb, 0x8b, 0xb6,
      0x96, 0xdc, 0xbc, 0xaa, 0xfa, 0x52, 0x77, 0x04, 0xc1, 0xdb, 0x19, 0xe4,
      0xae, 0x9c, 0xfd, 0x3c, 0x8b, 0x03, 0xef, 0x4d, 0xbc, 0x1a, 0x03, 0x65,
      0xf9, 0xc1, 0xb1, 0x3f, 0x72, 0x86, 0xf2, 0x38, 0xaa, 0x19, 0xae, 0x10,
      0x88, 0x78, 0x28, 0xda, 0x75, 0xc3, 0x3d, 0x02, 0x82, 0x02, 0x9c, 0xb9,
      0xc1, 0x65, 0x77, 0x76, 0x24, 0x4c, 0x98, 0xf7, 0x6d, 0x31, 0x38, 0xfb,
      0xdb, 0xfe, 0xdb, 0x37, 0x02, 0x76, 0xa1, 0x18, 0x97, 0xa6, 0xcc, 0xde,
      0x20, 0x09, 0x49, 0x36, 0x24, 0x69, 0x42, 0xf6, 0xe4, 0x37, 0x62, 0xf1,
      0x59, 0x6d, 0xa9, 0x3c, 0xed, 0x34, 0x9c, 0xa3, 0x8e, 0xdb, 0xdc, 0x3a,
      0xd7, 0xf7, 0x0a, 0x6f, 0xef, 0x2e, 0xd8, 0xd5, 0x93, 0x5a, 0x7a, 0xed,
      0x08, 0x49, 0x68, 0xe2, 0x41, 0xe3, 0x5a, 0x90, 0xc1, 0x86, 0x55, 0xfc,
      0x51, 0x43, 0x9d, 0xe0, 0xb2, 0xc4, 0x67, 0xb4, 0xcb, 0x32, 0x31, 0x25,
      0xf0, 0x54, 0x9f, 0x4b, 0xd1, 0x6f, 0xdb, 0xd4, 0xdd, 0xfc, 0xaf, 0x5e,
      0x6c, 0x78, 0x90, 0x95, 0xde, 0xca, 0x3a, 0x48, 0xb9, 0x79, 0x3c, 0x9b,
      0x19, 0xd6, 0x75, 0x05, 0xa0, 0xf9, 0x88, 0xd7, 0xc1, 0xe8, 0xa5, 0x09,
      0xe4, 0x1a, 0x15, 0xdc, 0x87, 0x23, 0xaa, 0xb2, 0x75, 0x8c, 0x63, 0x25,
      0x87, 0xd8, 0xf8, 0x3d, 0xa6, 0xc2, 0xcc, 0x66, 0xff, 0xa5, 0x66, 0x68,
      0x55, 0x02, 0x03, 0x01, 0x00, 0x01]"

text \<open>The exemption for the broken Entrust root looks at the key of the child \<open>c\<close>, as the source does.\<close>

definition CheckSignatureFrom ::
    "('rp, 'ep, 'rand) x509_ops \<Rightarrow> Certificate \<Rightarrow> Certificate \<Rightarrow> check_err + unit" where
  "CheckSignatureFrom ops c parent =
     (if (CertVersion parent = 3 \<and> \<not> BasicConstraintsValid parent \<or>
          BasicConstraintsValid parent \<and> \<not> IsCA parent) \<and>
         RawSubjectPublicKeyInfo c \<noteq> entrustBrokenSPKI
      then Inl ConstraintViolationError
      else if KeyUsage parent \<noteq> 0 \<and> KeyUsage parent AND KeyUsageCertSign = 0
      then Inl ConstraintViolationError
      else if PublicKeyAlgorithm parent = 0 then Inl ErrUnsupportedAlgorithm
      else CheckSignature ops parent (SignatureAlgorithm c) (RawTBSCertificate c) (CertSignature c))"

section \<open>Lemmas\<close>

lemma FirstFatal_iff: "FirstFatal es \<noteq> None \<longleftrightarrow> (\<exists>e\<in>set es. err_Fatal e)"
  by (induction es) auto

lemma Errors_Fatal_iff: "Errors_Fatal es \<longleftrightarrow> (\<exists>e\<in>set es. err_Fatal e)"
  unfolding Errors_Fatal_def by (rule FirstFatal_iff)

lemma Errors_Filter_takeWhile:
  "Errors_Filter filtered es = takeWhile (\<lambda>e. err_ID e \<notin> set filtered) es"
  by (induction es) auto

lemma oidInExtensions_iff: "oidInExtensions i es \<longleftrightarrow> (\<exists>e\<in>set es. ext_Id e = i)"
  by (auto simp: oidInExtensions_def list_ex_iff)

lemma extKeyUsage_table:
  "distinct (map fst extKeyUsageOIDs)" "distinct (map snd extKeyUsageOIDs)"
  by (simp_all add: extKeyUsageOIDs_def)

section \<open>Properties\<close>

text \<open>
  \<^verbatim>\<open>Errors.Filter\<close>, which is documented to remove the entries whose identifier is filtered,
  keeps only the errors before the first such entry: a filtered warning hides a fatal error that
  follows it.
\<close>

theorem Errors_Filter_hides_fatal:
  "Errors_Filter filtered es = takeWhile (\<lambda>e. err_ID e \<notin> set filtered) es \<and>
   IsFatal (Some (Errors [\<lparr>err_ID = 1, err_Summary = ''w'', err_Fatal = False\<rparr>,
                          \<lparr>err_ID = 2, err_Summary = ''f'', err_Fatal = True\<rparr>])) \<and>
   IsFatal (Some (Errors (Errors_Filter [1]
                         [\<lparr>err_ID = 1, err_Summary = ''w'', err_Fatal = False\<rparr>,
                          \<lparr>err_ID = 2, err_Summary = ''f'', err_Fatal = True\<rparr>]))) = False"
  by (simp add: Errors_Filter_takeWhile IsFatal_def Errors_Fatal_def)

text \<open>
  The table of extended key usages is a bijection: \<^verbatim>\<open>extKeyUsageFromOID\<close> and
  \<^verbatim>\<open>oidFromExtKeyUsage\<close> are inverse to each other.
\<close>

theorem extKeyUsage_roundtrip:
  "extKeyUsageFromOID i = Some e \<longleftrightarrow> oidFromExtKeyUsage e = Some i"
proof -
  have find_iff: "map_option fst (find (\<lambda>p. y = snd p) ps) = Some x \<longleftrightarrow> (x, y) \<in> set ps"
    if "distinct (map snd ps)" for ps :: "('x \<times> 'y) list" and x y
    using that by (induction ps) (force simp: image_iff)+
  have find_iff': "map_option snd (find (\<lambda>p. x = fst p) ps) = Some y \<longleftrightarrow> (x, y) \<in> set ps"
    if "distinct (map fst ps)" for ps :: "('x \<times> 'y) list" and x y
    using that by (induction ps) (force simp: image_iff)+
  show ?thesis
    unfolding extKeyUsageFromOID_def oidFromExtKeyUsage_def
    by (simp only: find_iff [OF extKeyUsage_table(2)] find_iff' [OF extKeyUsage_table(1)])
qed

end
