(* ===== verification/X509_TBS.thy ===== *)
theory X509_TBS
  imports X509_Types
begin

text \<open>
  The surgery on TBSCertificates in \<^verbatim>\<open>src/x509/x509.go\<close>: \<^verbatim>\<open>removeExtension\<close>, \<^verbatim>\<open>RemoveSCTList\<close>,
  \<^verbatim>\<open>RemoveCTPoison\<close> and \<^verbatim>\<open>BuildPrecertTBS\<close>, by which a log and its clients derive the same signed
  data from a precertificate and from the final certificate. The DER codec of the structure is an
  argument; the fields that the surgery does not look at are the component \<open>tbs_Rest\<close>.
\<close>

record 'o tbsCertificate =
  tbs_Raw :: bytes
  tbs_Issuer_FullBytes :: bytes
  tbs_Extensions :: "Extension list"
  tbs_Rest :: 'o

text \<open>\<^verbatim>\<open>asn1.Unmarshal\<close> and \<^verbatim>\<open>asn1.Marshal\<close> at the type \<^verbatim>\<open>tbsCertificate\<close>.\<close>

record 'o tbs_codec =
  tbs_unmarshal :: "bytes \<Rightarrow> ('o tbsCertificate \<times> bytes) option"
  tbs_marshal :: "'o tbsCertificate \<Rightarrow> bytes option"

datatype tbs_err =
    TBSParseError
  | TBSTrailingData nat
  | MultipleExtensions
  | NoExtension
  | TBSMarshalError
  | NoCTExtKeyUsage

definition parse_tbs :: "'o tbs_codec \<Rightarrow> bytes \<Rightarrow> tbs_err + 'o tbsCertificate" where
  "parse_tbs codec d =
     (case tbs_unmarshal codec d of
        None \<Rightarrow> Inl TBSParseError
      | Some (tbs, rest) \<Rightarrow>
          if 0 < length rest then Inl (TBSTrailingData (length rest)) else Inr tbs)"

definition remarshal_tbs :: "'o tbs_codec \<Rightarrow> 'o tbsCertificate \<Rightarrow> tbs_err + bytes" where
  "remarshal_tbs codec tbs =
     (case tbs_marshal codec tbs of None \<Rightarrow> Inl TBSMarshalError | Some d \<Rightarrow> Inr d)"

text \<open>The loop \<^verbatim>\<open>for i, ext := range tbs.Extensions\<close> of \<^verbatim>\<open>removeExtension\<close>.\<close>

fun ext_loop :: "oid \<Rightarrow> nat \<Rightarrow> nat option \<Rightarrow> Extension list \<Rightarrow> tbs_err + nat option" where
  "ext_loop i n extAt [] = Inr extAt"
| "ext_loop i n extAt (e # es) =
     (if ext_Id e = i then
        if extAt \<noteq> None then Inl MultipleExtensions else ext_loop i (Suc n) (Some n) es
      else ext_loop i (Suc n) extAt es)"

definition removeExtension :: "'o tbs_codec \<Rightarrow> bytes \<Rightarrow> oid \<Rightarrow> tbs_err + bytes" where
  "removeExtension codec tbsData i =
     bind_res (parse_tbs codec tbsData) (\<lambda>tbs.
     bind_res (ext_loop i 0 None (tbs_Extensions tbs)) (\<lambda>found.
       case found of
         None \<Rightarrow> Inl NoExtension
       | Some extAt \<Rightarrow>
           remarshal_tbs codec
             (tbs\<lparr>tbs_Extensions := take extAt (tbs_Extensions tbs) @ drop (Suc extAt) (tbs_Extensions tbs),
                  tbs_Raw := []\<rparr>)))"

definition RemoveSCTList :: "'o tbs_codec \<Rightarrow> bytes \<Rightarrow> tbs_err + bytes" where
  "RemoveSCTList codec tbsData = removeExtension codec tbsData OIDExtensionCTSCT"

text \<open>Index of the first extension with the given identifier, and its value.\<close>

fun ext_index :: "oid \<Rightarrow> nat \<Rightarrow> Extension list \<Rightarrow> nat option" where
  "ext_index i n [] = None"
| "ext_index i n (e # es) = (if ext_Id e = i then Some n else ext_index i (Suc n) es)"

definition issuerKeyID :: "Certificate \<Rightarrow> bytes option" where
  "issuerKeyID preIssuer =
     map_option ext_Value (find (\<lambda>e. ext_Id e = OIDExtensionAuthorityKeyId) (Extensions preIssuer))"

definition seenCTEKU :: "Certificate \<Rightarrow> bool" where
  "seenCTEKU preIssuer = list_ex (\<lambda>eku. eku = ExtKeyUsageCertificateTransparency) (ExtKeyUsage preIssuer)"

definition set_authority_key_id :: "bytes option \<Rightarrow> Extension list \<Rightarrow> Extension list" where
  "set_authority_key_id keyID es =
     (case ext_index OIDExtensionAuthorityKeyId 0 es of
        Some keyAt \<Rightarrow>
          (case keyID of
             Some k \<Rightarrow> es[keyAt := (es ! keyAt)\<lparr>ext_Value := k\<rparr>]
           | None \<Rightarrow> take keyAt es @ drop (Suc keyAt) es)
      | None \<Rightarrow>
          (case keyID of
             Some k \<Rightarrow> es @ [\<lparr>ext_Id = OIDExtensionAuthorityKeyId, ext_Critical = False, ext_Value = k\<rparr>]
           | None \<Rightarrow> es))"

definition BuildPrecertTBS :: "'o tbs_codec \<Rightarrow> bytes \<Rightarrow> Certificate option \<Rightarrow> tbs_err + bytes" where
  "BuildPrecertTBS codec tbsData preIssuer =
     bind_res (removeExtension codec tbsData OIDExtensionCTPoison) (\<lambda>data.
     bind_res (parse_tbs codec data) (\<lambda>tbs.
       case preIssuer of
         None \<Rightarrow> remarshal_tbs codec tbs
       | Some pre \<Rightarrow>
           if \<not> seenCTEKU pre then Inl NoCTExtKeyUsage
           else remarshal_tbs codec
             (tbs\<lparr>tbs_Issuer_FullBytes := RawIssuer pre,
                  tbs_Extensions := set_authority_key_id (issuerKeyID pre) (tbs_Extensions tbs),
                  tbs_Raw := []\<rparr>)))"

definition RemoveCTPoison :: "'o tbs_codec \<Rightarrow> bytes \<Rightarrow> tbs_err + bytes" where
  "RemoveCTPoison codec tbsData = BuildPrecertTBS codec tbsData None"

text \<open>
  The documented behaviour of package \<^verbatim>\<open>asn1\<close> at this type: a structure without raw content, whose
  other fields are as decoding leaves them (\<open>okrest\<close>), reads back as it was written, with the encoding
  as its raw content; and raw content, when present, is written out as it is.
\<close>

definition tbs_codec_law :: "('o \<Rightarrow> bool) \<Rightarrow> 'o tbs_codec \<Rightarrow> bool" where
  "tbs_codec_law okrest codec \<longleftrightarrow>
     (\<forall>t b. okrest (tbs_Rest t) \<and> tbs_Raw t = [] \<and> tbs_marshal codec t = Some b \<longrightarrow>
        b \<noteq> [] \<and> tbs_unmarshal codec b = Some (t\<lparr>tbs_Raw := b\<rparr>, [])) \<and>
     (\<forall>t. tbs_Raw t \<noteq> [] \<longrightarrow> tbs_marshal codec t = Some (tbs_Raw t))"

section \<open>Lemmas\<close>

lemma ext_loop_absent: "\<forall>e\<in>set es. ext_Id e \<noteq> i \<Longrightarrow> ext_loop i n extAt es = Inr extAt"
  by (induction es arbitrary: n) auto

lemma ext_loop_unique:
  assumes "\<forall>e\<in>set (es1 @ es2). ext_Id e \<noteq> i" and "ext_Id x = i"
  shows "ext_loop i n None (es1 @ x # es2) = Inr (Some (n + length es1))"
  using assms by (induction es1 arbitrary: n) (auto simp: ext_loop_absent)

lemma ext_loop_Inr:
  "ext_loop i n None es = Inr (Some k) \<Longrightarrow>
     \<exists>es1 x es2. es = es1 @ x # es2 \<and> ext_Id x = i \<and> k = n + length es1 \<and>
       (\<forall>e\<in>set (es1 @ es2). ext_Id e \<noteq> i)"
proof (induction es arbitrary: n)
  case (Cons e es)
  show ?case
  proof (cases "ext_Id e = i")
    case True
    have stop: "ext_loop i m (Some n) es = Inr r \<Longrightarrow> r = Some n \<and> (\<forall>e\<in>set es. ext_Id e \<noteq> i)" for m r
      by (induction es arbitrary: m) (auto split: if_splits)
    with Cons.prems True have "k = n" "\<forall>e\<in>set es. ext_Id e \<noteq> i" by auto
    then show ?thesis using True by (intro exI [of _ "[]"]) auto
  next
    case False
    then obtain es1 x es2 where "es = es1 @ x # es2" "ext_Id x = i" "k = Suc n + length es1"
      "\<forall>e\<in>set (es1 @ es2). ext_Id e \<noteq> i" using Cons by fastforce
    then show ?thesis using False
      by (intro exI [of _ "e # es1"] exI [of _ x] exI [of _ es2]) auto
  qed
qed simp

lemma parse_remarshal:
  assumes "tbs_codec_law okrest codec" and "okrest (tbs_Rest t)" and "tbs_Raw t = []"
    and "remarshal_tbs codec t = Inr b"
  shows "parse_tbs codec b = Inr (t\<lparr>tbs_Raw := b\<rparr>)" "b \<noteq> []"
proof -
  have "tbs_marshal codec t = Some b" using assms(4) by (simp add: remarshal_tbs_def split: option.splits)
  then have "b \<noteq> [] \<and> tbs_unmarshal codec b = Some (t\<lparr>tbs_Raw := b\<rparr>, [])"
    using assms(1-3) unfolding tbs_codec_law_def by blast
  then show "parse_tbs codec b = Inr (t\<lparr>tbs_Raw := b\<rparr>)" "b \<noteq> []" by (simp_all add: parse_tbs_def)
qed

lemma remarshal_raw:
  assumes "tbs_codec_law okrest codec" and "tbs_Raw t \<noteq> []"
  shows "remarshal_tbs codec t = Inr (tbs_Raw t)"
proof -
  have "tbs_marshal codec t = Some (tbs_Raw t)" using assms unfolding tbs_codec_law_def by blast
  then show ?thesis by (simp add: remarshal_tbs_def)
qed

text \<open>Removing the one extension of a kind from an encoded structure.\<close>

lemma removeExtension_encoded:
  assumes law: "tbs_codec_law okrest codec"
    and t: "okrest (tbs_Rest t)" "tbs_Raw t = []" "tbs_Extensions t = es1 @ x # es2"
    and x: "ext_Id x = i" "\<forall>e\<in>set (es1 @ es2). ext_Id e \<noteq> i"
    and d: "remarshal_tbs codec t = Inr d"
  shows "removeExtension codec d i = remarshal_tbs codec (t\<lparr>tbs_Extensions := es1 @ es2\<rparr>)"
proof -
  have "t\<lparr>tbs_Raw := []\<rparr> = t" using t(2) by (cases t) simp
  then have "t\<lparr>tbs_Raw := d, tbs_Extensions := es1 @ es2, tbs_Raw := []\<rparr> = t\<lparr>tbs_Extensions := es1 @ es2\<rparr>"
    by (cases t) simp
  then show ?thesis
    using parse_remarshal(1) [OF law t(1,2) d] ext_loop_unique [of es1 es2 i x 0] x t(3)
    by (simp add: removeExtension_def)
qed

lemma BuildPrecertTBS_None:
  assumes law: "tbs_codec_law okrest codec"
    and t: "okrest (tbs_Rest t)" "tbs_Raw t = []" "tbs_Extensions t = es1 @ x # es2"
    and x: "ext_Id x = OIDExtensionCTPoison" "\<forall>e\<in>set (es1 @ es2). ext_Id e \<noteq> OIDExtensionCTPoison"
    and d: "remarshal_tbs codec t = Inr d"
  shows "BuildPrecertTBS codec d None = remarshal_tbs codec (t\<lparr>tbs_Extensions := es1 @ es2\<rparr>)"
proof (cases "remarshal_tbs codec (t\<lparr>tbs_Extensions := es1 @ es2\<rparr>)")
  case (Inl e)
  then show ?thesis by (simp add: BuildPrecertTBS_def removeExtension_encoded [OF law t x d])
next
  case (Inr b)
  then have "parse_tbs codec b = Inr (t\<lparr>tbs_Extensions := es1 @ es2, tbs_Raw := b\<rparr>)" "b \<noteq> []"
    using parse_remarshal [OF law _ _ Inr] t(1,2) by auto
  then show ?thesis
    using Inr remarshal_raw [OF law, of "t\<lparr>tbs_Extensions := es1 @ es2, tbs_Raw := b\<rparr>"]
    by (simp add: BuildPrecertTBS_def removeExtension_encoded [OF law t x d])
qed

lemma BuildPrecertTBS_Some:
  assumes law: "tbs_codec_law okrest codec"
    and t: "okrest (tbs_Rest t)" "tbs_Raw t = []" "tbs_Extensions t = es1 @ x # es2"
    and x: "ext_Id x = OIDExtensionCTPoison" "\<forall>e\<in>set (es1 @ es2). ext_Id e \<noteq> OIDExtensionCTPoison"
    and d: "remarshal_tbs codec t = Inr d"
    and m: "remarshal_tbs codec (t\<lparr>tbs_Extensions := es1 @ es2\<rparr>) = Inr b"
    and pre: "seenCTEKU pre"
  shows "BuildPrecertTBS codec d (Some pre) = remarshal_tbs codec
     (t\<lparr>tbs_Issuer_FullBytes := RawIssuer pre,
        tbs_Extensions := set_authority_key_id (issuerKeyID pre) (es1 @ es2)\<rparr>)"
proof -
  have p: "parse_tbs codec b = Inr (t\<lparr>tbs_Extensions := es1 @ es2, tbs_Raw := b\<rparr>)"
    using parse_remarshal(1) [OF law _ _ m] t(1,2) by auto
  have "t\<lparr>tbs_Extensions := es1 @ es2, tbs_Raw := b, tbs_Issuer_FullBytes := iss,
         tbs_Extensions := es, tbs_Raw := []\<rparr> = t\<lparr>tbs_Issuer_FullBytes := iss, tbs_Extensions := es\<rparr>" for iss es
    using t(2) by (cases t) simp
  then show ?thesis
    using pre p by (simp add: BuildPrecertTBS_def removeExtension_encoded [OF law t x d] m)
qed

lemma ext_index_split:
  "\<forall>e\<in>set es1. ext_Id e \<noteq> i \<Longrightarrow> ext_Id x = i \<Longrightarrow> ext_index i n (es1 @ x # es2) = Some (n + length es1)"
  by (induction es1 arbitrary: n) auto

lemma set_authority_key_id_replace:
  assumes "\<forall>e\<in>set es1. ext_Id e \<noteq> OIDExtensionAuthorityKeyId" and "ext_Id x = OIDExtensionAuthorityKeyId"
  shows "set_authority_key_id (Some k) (es1 @ x # es2) = es1 @ x\<lparr>ext_Value := k\<rparr> # es2"
  using ext_index_split [OF assms, of 0 es2]
  by (simp add: set_authority_key_id_def list_update_append nth_append)

lemma precert_final:
  assumes "tbs_codec_law okrest codec" and "okrest (tbs_Rest t)" and "tbs_Raw t = []"
    and "ext_Id poison = OIDExtensionCTPoison" and "ext_Id scts = OIDExtensionCTSCT"
    and "\<forall>e\<in>set (es1 @ es2). ext_Id e \<noteq> OIDExtensionCTPoison \<and> ext_Id e \<noteq> OIDExtensionCTSCT"
    and "remarshal_tbs codec (t\<lparr>tbs_Extensions := es1 @ poison # es2\<rparr>) = Inr precert"
    and "remarshal_tbs codec (t\<lparr>tbs_Extensions := es1 @ scts # es2\<rparr>) = Inr final"
  shows "BuildPrecertTBS codec precert None = RemoveSCTList codec final"
    and "RemoveSCTList codec final = remarshal_tbs codec (t\<lparr>tbs_Extensions := es1 @ es2\<rparr>)"
  using BuildPrecertTBS_None [OF assms(1) _ _ _ assms(4) _ assms(7), of es1 es2]
    removeExtension_encoded [OF assms(1) _ _ _ assms(5) _ assms(8), of es1 es2] assms(2,3,6)
  by (simp_all add: RemoveSCTList_def)

section \<open>Properties\<close>



text \<open>A concrete codec that knows a few structures, on which the hypotheses hold.\<close>

definition demo_ext :: "oid \<Rightarrow> bytes \<Rightarrow> Extension" where
  "demo_ext i v = \<lparr>ext_Id = i, ext_Critical = False, ext_Value = v\<rparr>"

definition demo_tbs :: "bytes \<Rightarrow> Extension list \<Rightarrow> unit tbsCertificate" where
  "demo_tbs iss es = \<lparr>tbs_Raw = [], tbs_Issuer_FullBytes = iss, tbs_Extensions = es, tbs_Rest = ()\<rparr>"

definition demo_table :: "(unit tbsCertificate \<times> bytes) list" where
  "demo_table =
     [(demo_tbs [7] [demo_ext OIDExtensionCTPoison [5, 0]], [1]),
      (demo_tbs [7] [demo_ext OIDExtensionCTSCT [9]], [2]),
      (demo_tbs [7] [], [3]),
      (demo_tbs [7] [demo_ext OIDExtensionAuthorityKeyId [1], demo_ext OIDExtensionCTPoison [5, 0]], [4]),
      (demo_tbs [7] [demo_ext OIDExtensionAuthorityKeyId [1]], [5]),
      (demo_tbs [8] [demo_ext OIDExtensionAuthorityKeyId [2], demo_ext OIDExtensionCTSCT [9]], [6]),
      (demo_tbs [8] [demo_ext OIDExtensionAuthorityKeyId [2]], [7])]"

definition demo_codec :: "unit tbs_codec" where
  "demo_codec =
     \<lparr>tbs_unmarshal = (\<lambda>b. map_option (\<lambda>p. ((fst p)\<lparr>tbs_Raw := b\<rparr>, [])) (find (\<lambda>p. snd p = b) demo_table)),
      tbs_marshal = (\<lambda>t. if tbs_Raw t \<noteq> [] then Some (tbs_Raw t) else map_of demo_table t)\<rparr>"

lemmas demo_defs = demo_codec_def demo_table_def demo_tbs_def demo_ext_def
  OIDExtensionCTPoison_def OIDExtensionCTSCT_def OIDExtensionAuthorityKeyId_def

lemma demo_codec_law: "tbs_codec_law (\<lambda>_. True) demo_codec"
proof -
  have "b \<noteq> [] \<and> tbs_unmarshal demo_codec b = Some (t\<lparr>tbs_Raw := b\<rparr>, [])"
    if "tbs_Raw t = []" "tbs_marshal demo_codec t = Some b" for t b
  proof -
    have "(t, b) \<in> set demo_table"
      using that by (auto simp: demo_codec_def dest: map_of_SomeD)
    moreover have "\<forall>p\<in>set demo_table. snd p \<noteq> [] \<and> find (\<lambda>q. snd q = snd p) demo_table = Some p"
      by (simp add: demo_table_def)
    ultimately show ?thesis by (force simp: demo_codec_def)
  qed
  then show ?thesis unfolding tbs_codec_law_def by (simp add: demo_codec_def)
qed



end
