(* ===== verification/CT_Types.thy ===== *)
theory CT_Types
  imports X509_Types Base64
begin

text \<open>
  \<^verbatim>\<open>src/types.go\<close>: the structures of RFC 6962, their mapping to the TLS codec, and the conversion
  of the JSON responses of a log. A fixed-size array is a list of bytes whose length is part of the
  type (\<open>has_type\<close>); a pointer is an option. Each structure that is TLS-encoded comes with its type
  descriptor \<open>T_\<close>, copied from the struct tags, and its conversion to and from codec values; the
  interpretations of \<open>tls_record\<close> give the codec laws for it.
\<close>

section \<open>Errors\<close>

datatype ct_error =
    CtPanic
  | UnmarshalFailed string tls_error
  | TrailingData string nat
  | MarshalFailed tls_error
  | BadBase64 string
  | BadLength nat
  | BadJSON
  | NoPEMBlock
  | UnsupportedEntryType u64
  | UnsupportedVersion u64
  | NotThisEntry string
  | NoIssuer
  | NoPreIssuerIssuer
  | CertParseFailed nat
  | RemoveExtensionFailed
  | X509Error x509_err
  | SignatureRejected sig_error

fun ct_of_tls :: "string \<Rightarrow> tls_error \<Rightarrow> ct_error" where
  "ct_of_tls what GoPanic = CtPanic"
| "ct_of_tls what e = UnmarshalFailed what e"

text \<open>The idiom \<^verbatim>\<open>if rest, err := tls.Unmarshal(...); err != nil ... else if len(rest) > 0 ...\<close>.\<close>

definition unmarshal_all ::
    "string \<Rightarrow> gotype \<Rightarrow> (goval \<Rightarrow> 'r option) \<Rightarrow> bytes \<Rightarrow> (ct_error, 'r) run" where
  "unmarshal_all what t of_val b =
     (case unmarshal_rec t of_val b of
        None \<Rightarrow> None
      | Some (Inl e) \<Rightarrow> Some (Inl (ct_of_tls what e))
      | Some (Inr (r, rest)) \<Rightarrow>
          if 0 < length rest then Some (Inl (TrailingData what (length rest))) else Some (Inr r))"

fun ct_of_marshal :: "tls_error \<Rightarrow> ct_error" where
  "ct_of_marshal GoPanic = CtPanic"
| "ct_of_marshal e = MarshalFailed e"

definition marshal_ct :: "gotype \<Rightarrow> ('r \<Rightarrow> goval) \<Rightarrow> 'r \<Rightarrow> ct_error + bytes" where
  "marshal_ct t val r = map_sum ct_of_marshal id (marshal_rec t val r)"

section \<open>Enumerations\<close>

definition X509LogEntryType :: u64 where "X509LogEntryType = 0"
definition PrecertLogEntryType :: u64 where "PrecertLogEntryType = 1"
definition XJSONLogEntryType :: u64 where "XJSONLogEntryType = 0x8000"

definition TreeLeafPrefix :: byte where "TreeLeafPrefix = 0x00"
definition TreeNodePrefix :: byte where "TreeNodePrefix = 0x01"

definition TimestampedEntryLeafType :: u64 where "TimestampedEntryLeafType = 0"
definition V1 :: u64 where "V1 = 0"
definition CertificateTimestampSignatureType :: u64 where "CertificateTimestampSignatureType = 0"
definition TreeHashSignatureType :: u64 where "TreeHashSignatureType = 1"

lemmas ct_enums = X509LogEntryType_def PrecertLogEntryType_def XJSONLogEntryType_def
  TimestampedEntryLeafType_def V1_def CertificateTimestampSignatureType_def TreeHashSignatureType_def

definition LogEntryType_String :: "u64 \<Rightarrow> string" where
  "LogEntryType_String e =
     (if e = X509LogEntryType then ''X509LogEntryType''
      else if e = PrecertLogEntryType then ''PrecertLogEntryType''
      else if e = XJSONLogEntryType then ''XJSONLogEntryType''
      else ''UnknownEntryType('' @ fmt_d (unat e) @ '')'')"

definition MerkleLeafType_String :: "u64 \<Rightarrow> string" where
  "MerkleLeafType_String m =
     (if m = TimestampedEntryLeafType then ''TimestampedEntryLeafType''
      else ''UnknownLeafType('' @ fmt_d (unat m) @ '')'')"

definition Version_String :: "u64 \<Rightarrow> string" where
  "Version_String v = (if v = V1 then ''V1'' else ''UnknownVersion('' @ fmt_d (unat v) @ '')'')"

definition SignatureType_String :: "u64 \<Rightarrow> string" where
  "SignatureType_String st =
     (if st = CertificateTimestampSignatureType then ''CertificateTimestamp''
      else if st = TreeHashSignatureType then ''TreeHash''
      else ''UnknownSignatureType('' @ fmt_d (unat st) @ '')'')"

section \<open>Structures\<close>

record ASN1Cert =
  cert_Data :: bytes

definition T_ASN1Cert :: gotype where
  "T_ASN1Cert = TStruct [(''Data'', ''minlen:1,maxlen:16777215'', TSlice TUint8)]"

definition v_ASN1Cert :: "ASN1Cert \<Rightarrow> goval" where
  "v_ASN1Cert c = VStruct [VBytes (cert_Data c)]"

fun of_ASN1Cert :: "goval \<Rightarrow> ASN1Cert option" where
  "of_ASN1Cert (VStruct [VBytes d]) = Some \<lparr>cert_Data = d\<rparr>"
| "of_ASN1Cert _ = None"

record PreCert =
  pre_IssuerKeyHash :: bytes
  pre_TBSCertificate :: bytes

definition T_PreCert :: gotype where
  "T_PreCert = TStruct
     [(''IssuerKeyHash'', [], TArray 32 TUint8),
      (''TBSCertificate'', ''minlen:1,maxlen:16777215'', TSlice TUint8)]"

definition v_PreCert :: "PreCert \<Rightarrow> goval" where
  "v_PreCert p = VStruct [VBytes (pre_IssuerKeyHash p), VBytes (pre_TBSCertificate p)]"

fun of_PreCert :: "goval \<Rightarrow> PreCert option" where
  "of_PreCert (VStruct [VBytes h, VBytes d]) = Some \<lparr>pre_IssuerKeyHash = h, pre_TBSCertificate = d\<rparr>"
| "of_PreCert _ = None"

record JSONDataEntry =
  json_Data :: bytes

definition T_JSONDataEntry :: gotype where
  "T_JSONDataEntry = TStruct [(''Data'', ''minlen:0,maxlen:1677215'', TSlice TUint8)]"

definition v_JSONDataEntry :: "JSONDataEntry \<Rightarrow> goval" where
  "v_JSONDataEntry j = VStruct [VBytes (json_Data j)]"

fun of_JSONDataEntry :: "goval \<Rightarrow> JSONDataEntry option" where
  "of_JSONDataEntry (VStruct [VBytes d]) = Some \<lparr>json_Data = d\<rparr>"
| "of_JSONDataEntry _ = None"

text \<open>Pointers and slices of structures.\<close>

definition v_ptr :: "('r \<Rightarrow> goval) \<Rightarrow> 'r option \<Rightarrow> goval" where
  "v_ptr val p = VPtr (map_option val p)"

fun of_ptr :: "(goval \<Rightarrow> 'r option) \<Rightarrow> goval \<Rightarrow> 'r option option" where
  "of_ptr of_val (VPtr None) = Some None"
| "of_ptr of_val (VPtr (Some w)) = map_option Some (of_val w)"
| "of_ptr of_val _ = None"

definition v_slice :: "('r \<Rightarrow> goval) \<Rightarrow> 'r list \<Rightarrow> goval" where
  "v_slice val rs = VSlice (map val rs)"

fun of_elems :: "(goval \<Rightarrow> 'r option) \<Rightarrow> goval list \<Rightarrow> 'r list option" where
  "of_elems of_val [] = Some []"
| "of_elems of_val (v # vs) =
     (case of_val v of None \<Rightarrow> None | Some r \<Rightarrow> map_option ((#) r) (of_elems of_val vs))"

fun of_slice :: "(goval \<Rightarrow> 'r option) \<Rightarrow> goval \<Rightarrow> 'r list option" where
  "of_slice of_val (VSlice vs) = of_elems of_val vs"
| "of_slice of_val _ = None"

record TimestampedEntry =
  te_Timestamp :: u64
  te_EntryType :: u64
  te_X509Entry :: "ASN1Cert option"
  te_PrecertEntry :: "PreCert option"
  te_JSONEntry :: "JSONDataEntry option"
  te_Extensions :: bytes

definition T_TimestampedEntry :: gotype where
  "T_TimestampedEntry = TStruct
     [(''Timestamp'', [], TUint64),
      (''EntryType'', ''maxval:65535'', TEnum),
      (''X509Entry'', ''selector:EntryType,val:0'', TPtr T_ASN1Cert),
      (''PrecertEntry'', ''selector:EntryType,val:1'', TPtr T_PreCert),
      (''JSONEntry'', ''selector:EntryType,val:32768'', TPtr T_JSONDataEntry),
      (''Extensions'', ''minlen:0,maxlen:65535'', TSlice TUint8)]"

definition v_TimestampedEntry :: "TimestampedEntry \<Rightarrow> goval" where
  "v_TimestampedEntry e = VStruct
     [VUint (te_Timestamp e), VUint (te_EntryType e), v_ptr v_ASN1Cert (te_X509Entry e),
      v_ptr v_PreCert (te_PrecertEntry e), v_ptr v_JSONDataEntry (te_JSONEntry e),
      VBytes (te_Extensions e)]"

fun of_TimestampedEntry :: "goval \<Rightarrow> TimestampedEntry option" where
  "of_TimestampedEntry (VStruct [VUint ts, VUint et, x, p, j, VBytes ex]) =
     (case (of_ptr of_ASN1Cert x, of_ptr of_PreCert p, of_ptr of_JSONDataEntry j) of
        (Some x', Some p', Some j') \<Rightarrow>
          Some \<lparr>te_Timestamp = ts, te_EntryType = et, te_X509Entry = x', te_PrecertEntry = p',
                te_JSONEntry = j', te_Extensions = ex\<rparr>
      | _ \<Rightarrow> None)"
| "of_TimestampedEntry _ = None"

record MerkleTreeLeaf =
  leaf_Version :: u64
  leaf_LeafType :: u64
  leaf_TimestampedEntry :: "TimestampedEntry option"

definition T_MerkleTreeLeaf :: gotype where
  "T_MerkleTreeLeaf = TStruct
     [(''Version'', ''maxval:255'', TEnum),
      (''LeafType'', ''maxval:255'', TEnum),
      (''TimestampedEntry'', ''selector:LeafType,val:0'', TPtr T_TimestampedEntry)]"

definition v_MerkleTreeLeaf :: "MerkleTreeLeaf \<Rightarrow> goval" where
  "v_MerkleTreeLeaf l = VStruct
     [VUint (leaf_Version l), VUint (leaf_LeafType l),
      v_ptr v_TimestampedEntry (leaf_TimestampedEntry l)]"

fun of_MerkleTreeLeaf :: "goval \<Rightarrow> MerkleTreeLeaf option" where
  "of_MerkleTreeLeaf (VStruct [VUint v, VUint lt, te]) =
     map_option (\<lambda>te'. \<lparr>leaf_Version = v, leaf_LeafType = lt, leaf_TimestampedEntry = te'\<rparr>)
       (of_ptr of_TimestampedEntry te)"
| "of_MerkleTreeLeaf _ = None"

record CertificateTimestamp =
  cts_SCTVersion :: u64
  cts_SignatureType :: u64
  cts_Timestamp :: u64
  cts_EntryType :: u64
  cts_X509Entry :: "ASN1Cert option"
  cts_PrecertEntry :: "PreCert option"
  cts_JSONEntry :: "JSONDataEntry option"
  cts_Extensions :: bytes

definition T_CertificateTimestamp :: gotype where
  "T_CertificateTimestamp = TStruct
     [(''SCTVersion'', ''maxval:255'', TEnum),
      (''SignatureType'', ''maxval:255'', TEnum),
      (''Timestamp'', [], TUint64),
      (''EntryType'', ''maxval:65535'', TEnum),
      (''X509Entry'', ''selector:EntryType,val:0'', TPtr T_ASN1Cert),
      (''PrecertEntry'', ''selector:EntryType,val:1'', TPtr T_PreCert),
      (''JSONEntry'', ''selector:EntryType,val:32768'', TPtr T_JSONDataEntry),
      (''Extensions'', ''minlen:0,maxlen:65535'', TSlice TUint8)]"

definition v_CertificateTimestamp :: "CertificateTimestamp \<Rightarrow> goval" where
  "v_CertificateTimestamp c = VStruct
     [VUint (cts_SCTVersion c), VUint (cts_SignatureType c), VUint (cts_Timestamp c),
      VUint (cts_EntryType c), v_ptr v_ASN1Cert (cts_X509Entry c),
      v_ptr v_PreCert (cts_PrecertEntry c), v_ptr v_JSONDataEntry (cts_JSONEntry c),
      VBytes (cts_Extensions c)]"

fun of_CertificateTimestamp :: "goval \<Rightarrow> CertificateTimestamp option" where
  "of_CertificateTimestamp
     (VStruct [VUint v, VUint st, VUint ts, VUint et, x, p, j, VBytes ex]) =
     (case (of_ptr of_ASN1Cert x, of_ptr of_PreCert p, of_ptr of_JSONDataEntry j) of
        (Some x', Some p', Some j') \<Rightarrow>
          Some \<lparr>cts_SCTVersion = v, cts_SignatureType = st, cts_Timestamp = ts, cts_EntryType = et,
                cts_X509Entry = x', cts_PrecertEntry = p', cts_JSONEntry = j', cts_Extensions = ex\<rparr>
      | _ \<Rightarrow> None)"
| "of_CertificateTimestamp _ = None"

record TreeHeadSignature =
  ths_Version :: u64
  ths_SignatureType :: u64
  ths_Timestamp :: u64
  ths_TreeSize :: u64
  ths_SHA256RootHash :: bytes

definition T_TreeHeadSignature :: gotype where
  "T_TreeHeadSignature = TStruct
     [(''Version'', ''maxval:255'', TEnum),
      (''SignatureType'', ''maxval:255'', TEnum),
      (''Timestamp'', [], TUint64),
      (''TreeSize'', [], TUint64),
      (''SHA256RootHash'', [], TArray 32 TUint8)]"

definition v_TreeHeadSignature :: "TreeHeadSignature \<Rightarrow> goval" where
  "v_TreeHeadSignature t = VStruct
     [VUint (ths_Version t), VUint (ths_SignatureType t), VUint (ths_Timestamp t),
      VUint (ths_TreeSize t), VBytes (ths_SHA256RootHash t)]"

fun of_TreeHeadSignature :: "goval \<Rightarrow> TreeHeadSignature option" where
  "of_TreeHeadSignature (VStruct [VUint v, VUint st, VUint ts, VUint sz, VBytes h]) =
     Some \<lparr>ths_Version = v, ths_SignatureType = st, ths_Timestamp = ts, ths_TreeSize = sz,
           ths_SHA256RootHash = h\<rparr>"
| "of_TreeHeadSignature _ = None"

record SignedCertificateTimestamp =
  sct_SCTVersion :: u64
  sct_LogID :: bytes
  sct_Timestamp :: u64
  sct_Extensions :: bytes
  sct_Signature :: DigitallySigned

definition T_SignedCertificateTimestamp :: gotype where
  "T_SignedCertificateTimestamp = TStruct
     [(''SCTVersion'', ''maxval:255'', TEnum),
      (''LogID'', [], TStruct [(''KeyID'', [], TArray 32 TUint8)]),
      (''Timestamp'', [], TUint64),
      (''Extensions'', ''minlen:0,maxlen:65535'', TSlice TUint8),
      (''Signature'', [], T_DigitallySigned)]"

definition v_SignedCertificateTimestamp :: "SignedCertificateTimestamp \<Rightarrow> goval" where
  "v_SignedCertificateTimestamp s = VStruct
     [VUint (sct_SCTVersion s), VStruct [VBytes (sct_LogID s)], VUint (sct_Timestamp s),
      VBytes (sct_Extensions s), v_DigitallySigned (sct_Signature s)]"

fun of_SignedCertificateTimestamp :: "goval \<Rightarrow> SignedCertificateTimestamp option" where
  "of_SignedCertificateTimestamp (VStruct [VUint v, VStruct [VBytes i], VUint ts, VBytes ex, d]) =
     map_option (\<lambda>ds. \<lparr>sct_SCTVersion = v, sct_LogID = i, sct_Timestamp = ts, sct_Extensions = ex,
                       sct_Signature = ds\<rparr>) (of_DigitallySigned d)"
| "of_SignedCertificateTimestamp _ = None"

record SignedTreeHead =
  sth_Version :: u64
  sth_TreeSize :: u64
  sth_Timestamp :: u64
  sth_SHA256RootHash :: bytes
  sth_TreeHeadSignature :: DigitallySigned
  sth_LogID :: bytes

text \<open>A \<^verbatim>\<open>CertificateChain\<close> has the single field \<^verbatim>\<open>Entries\<close>.\<close>

record CertificateChain =
  chain_Entries :: "ASN1Cert list"

definition T_CertificateChain :: gotype where
  "T_CertificateChain = TStruct [(''Entries'', ''minlen:0,maxlen:16777215'', TSlice T_ASN1Cert)]"

definition v_CertificateChain :: "CertificateChain \<Rightarrow> goval" where
  "v_CertificateChain c = VStruct [v_slice v_ASN1Cert (chain_Entries c)]"

fun of_CertificateChain :: "goval \<Rightarrow> CertificateChain option" where
  "of_CertificateChain (VStruct [es]) =
     map_option (\<lambda>cs. \<lparr>chain_Entries = cs\<rparr>) (of_slice of_ASN1Cert es)"
| "of_CertificateChain _ = None"

record PrecertChainEntry =
  pce_PreCertificate :: ASN1Cert
  pce_CertificateChain :: "ASN1Cert list"

definition T_PrecertChainEntry :: gotype where
  "T_PrecertChainEntry = TStruct
     [(''PreCertificate'', ''minlen:1,maxlen:16777215'', T_ASN1Cert),
      (''CertificateChain'', ''minlen:0,maxlen:16777215'', TSlice T_ASN1Cert)]"

definition v_PrecertChainEntry :: "PrecertChainEntry \<Rightarrow> goval" where
  "v_PrecertChainEntry p = VStruct
     [v_ASN1Cert (pce_PreCertificate p), v_slice v_ASN1Cert (pce_CertificateChain p)]"

fun of_PrecertChainEntry :: "goval \<Rightarrow> PrecertChainEntry option" where
  "of_PrecertChainEntry (VStruct [c, es]) =
     (case (of_ASN1Cert c, of_slice of_ASN1Cert es) of
        (Some c', Some cs) \<Rightarrow> Some \<lparr>pce_PreCertificate = c', pce_CertificateChain = cs\<rparr>
      | _ \<Rightarrow> None)"
| "of_PrecertChainEntry _ = None"

record RawLogEntry =
  rle_Index :: "64 word"
  rle_Leaf :: MerkleTreeLeaf
  rle_Cert :: ASN1Cert
  rle_Chain :: "ASN1Cert list"

record Precertificate =
  prec_Submitted :: ASN1Cert
  prec_IssuerKeyHash :: bytes
  prec_TBSCertificate :: "Certificate option"

record LogEntry =
  le_Index :: "64 word"
  le_Leaf :: MerkleTreeLeaf
  le_X509Cert :: "Certificate option"
  le_Precert :: "Precertificate option"
  le_JSONData :: bytes
  le_Chain :: "ASN1Cert list"

record LeafEntry =
  lentry_LeafInput :: bytes
  lentry_ExtraData :: bytes

record AddChainResponse =
  acr_SCTVersion :: u64
  acr_ID :: bytes
  acr_Timestamp :: u64
  acr_Extensions :: string
  acr_Signature :: bytes

record GetSTHResponse =
  gsr_TreeSize :: u64
  gsr_Timestamp :: u64
  gsr_SHA256RootHash :: bytes
  gsr_TreeHeadSignature :: bytes

section \<open>Conversions\<close>

definition DigitallySigned_FromBase64String :: "string \<Rightarrow> (ct_error, DigitallySigned) run" where
  "DigitallySigned_FromBase64String b64 =
     (case DecodeString b64 of
        None \<Rightarrow> Some (Inl (BadBase64 ''DigitallySigned''))
      | Some raw \<Rightarrow> unmarshal_all ''DigitallySigned'' T_DigitallySigned of_DigitallySigned raw)"

definition DigitallySigned_Base64String :: "DigitallySigned \<Rightarrow> ct_error + string" where
  "DigitallySigned_Base64String d =
     bind_res (marshal_ct T_DigitallySigned v_DigitallySigned d) (\<lambda>b. Inr (EncodeToString b))"

definition DigitallySigned_MarshalJSON :: "DigitallySigned \<Rightarrow> ct_error + string" where
  "DigitallySigned_MarshalJSON d =
     bind_res (DigitallySigned_Base64String d) (\<lambda>b64. Inr (CHR 0x22 # b64 @ [CHR 0x22]))"

text \<open>The first argument is \<^verbatim>\<open>json.Unmarshal\<close> into a string.\<close>

definition DigitallySigned_UnmarshalJSON ::
    "(string \<Rightarrow> string option) \<Rightarrow> string \<Rightarrow> (ct_error, DigitallySigned) run" where
  "DigitallySigned_UnmarshalJSON json b =
     (case json b of None \<Rightarrow> Some (Inl BadJSON)
      | Some content \<Rightarrow> DigitallySigned_FromBase64String content)"

definition SHA256Hash_FromBase64String :: "string \<Rightarrow> ct_error + bytes" where
  "SHA256Hash_FromBase64String b64 =
     (case DecodeString b64 of
        None \<Rightarrow> Inl (BadBase64 ''LogID'')
      | Some bs \<Rightarrow> if length bs \<noteq> 32 then Inl (BadLength (length bs)) else Inr bs)"

definition SHA256Hash_Base64String :: "bytes \<Rightarrow> string" where
  "SHA256Hash_Base64String s = EncodeToString s"

definition SHA256Hash_MarshalJSON :: "bytes \<Rightarrow> string" where
  "SHA256Hash_MarshalJSON s = CHR 0x22 # SHA256Hash_Base64String s @ [CHR 0x22]"

definition SHA256Hash_UnmarshalJSON :: "(string \<Rightarrow> string option) \<Rightarrow> string \<Rightarrow> ct_error + bytes" where
  "SHA256Hash_UnmarshalJSON json b =
     (case json b of None \<Rightarrow> Inl BadJSON | Some content \<Rightarrow> SHA256Hash_FromBase64String content)"

text \<open>
  A parser of package \<^verbatim>\<open>x509\<close> may return a certificate together with a non-fatal error. Functions
  that pass such a pair on return it as a value; their \<open>Inl\<close> is a panic.
\<close>

type_synonym x509_parser = "bytes \<Rightarrow> Certificate option \<times> x509_err option"

definition X509Certificate ::
    "x509_parser \<Rightarrow> MerkleTreeLeaf \<Rightarrow> ct_error + (Certificate option \<times> ct_error option)" where
  "X509Certificate ParseCertificate m =
     (case leaf_TimestampedEntry m of
        None \<Rightarrow> Inl CtPanic
      | Some te \<Rightarrow>
          if te_EntryType te \<noteq> X509LogEntryType then Inr (None, Some (NotThisEntry ''X509''))
          else (case te_X509Entry te of
              None \<Rightarrow> Inl CtPanic
            | Some x \<Rightarrow> Inr (apsnd (map_option X509Error) (ParseCertificate (cert_Data x)))))"

definition leaf_Precertificate ::
    "x509_parser \<Rightarrow> MerkleTreeLeaf \<Rightarrow> ct_error + (Certificate option \<times> ct_error option)" where
  "leaf_Precertificate ParseTBSCertificate m =
     (case leaf_TimestampedEntry m of
        None \<Rightarrow> Inl CtPanic
      | Some te \<Rightarrow>
          if te_EntryType te \<noteq> PrecertLogEntryType then Inr (None, Some (NotThisEntry ''precert''))
          else (case te_PrecertEntry te of
              None \<Rightarrow> Inl CtPanic
            | Some p \<Rightarrow>
                Inr (apsnd (map_option X509Error) (ParseTBSCertificate (pre_TBSCertificate p)))))"

definition ToSignedCertificateTimestamp ::
    "AddChainResponse \<Rightarrow> (ct_error, SignedCertificateTimestamp) run" where
  "ToSignedCertificateTimestamp r =
     (if length (acr_ID r) \<noteq> 32 then Some (Inl (BadLength (length (acr_ID r))))
      else (case DecodeString (acr_Extensions r) of
          None \<Rightarrow> Some (Inl (BadBase64 ''Extensions''))
        | Some exts \<Rightarrow>
            bind_run
              (unmarshal_all ''DigitallySigned'' T_DigitallySigned of_DigitallySigned (acr_Signature r))
              (\<lambda>ds. Some (Inr \<lparr>sct_SCTVersion = acr_SCTVersion r, sct_LogID = acr_ID r,
                                sct_Timestamp = acr_Timestamp r, sct_Extensions = exts,
                                sct_Signature = ds\<rparr>))))"

text \<open>The version and the log identifier keep their zero values.\<close>

definition ToSignedTreeHead :: "GetSTHResponse \<Rightarrow> (ct_error, SignedTreeHead) run" where
  "ToSignedTreeHead r =
     (if length (gsr_SHA256RootHash r) \<noteq> 32 then Some (Inl (BadLength (length (gsr_SHA256RootHash r))))
      else
        bind_run
          (unmarshal_all ''DigitallySigned'' T_DigitallySigned of_DigitallySigned
             (gsr_TreeHeadSignature r))
          (\<lambda>ds. Some (Inr \<lparr>sth_Version = 0, sth_TreeSize = gsr_TreeSize r,
                            sth_Timestamp = gsr_Timestamp r,
                            sth_SHA256RootHash = gsr_SHA256RootHash r,
                            sth_TreeHeadSignature = ds, sth_LogID = replicate 32 0\<rparr>)))"

text \<open>The two conversions of a structure are inverse to each other on the values of its type.\<close>

definition goconv :: "gotype \<Rightarrow> ('r \<Rightarrow> goval) \<Rightarrow> (goval \<Rightarrow> 'r option) \<Rightarrow> bool" where
  "goconv t val of_val \<longleftrightarrow>
     (\<forall>r. of_val (val r) = Some r) \<and> (\<forall>v. has_type t v \<longrightarrow> (\<exists>r. of_val v = Some r \<and> val r = v))"

section \<open>Lemmas\<close>

lemma goconvI:
  "(\<And>r. of_val (val r) = Some r) \<Longrightarrow> (\<And>v. has_type t v \<Longrightarrow> \<exists>r. of_val v = Some r \<and> val r = v)
   \<Longrightarrow> goconv t val of_val"
  by (simp add: goconv_def)

lemma goconv_of: "goconv t val of_val \<Longrightarrow> of_val (val r) = Some r"
  by (simp add: goconv_def)

lemma goconvE:
  assumes "goconv t val of_val" and "has_type t v"
  obtains r where "of_val v = Some r" and "v = val r"
  using assms by (auto simp: goconv_def)

lemma goconv_ptr: "goconv t val of_val \<Longrightarrow> goconv (TPtr t) (v_ptr val) (of_ptr of_val)"
proof (rule goconvI)
  fix p assume g: "goconv t val of_val"
  show "of_ptr of_val (v_ptr val p) = Some p"
    by (cases p) (simp_all add: v_ptr_def goconv_of [OF g])
next
  fix v assume g: "goconv t val of_val" and "has_type (TPtr t) v"
  then consider "v = VPtr None" | w where "v = VPtr (Some w)" "has_type t w"
    by (auto simp: has_type_Ptr_iff simp del: has_type.simps)
  then show "\<exists>p. of_ptr of_val v = Some p \<and> v_ptr val p = v"
    by cases (auto simp: v_ptr_def elim: goconvE [OF g])
qed

lemma of_elems_map: "goconv t val of_val \<Longrightarrow> of_elems of_val (map val rs) = Some rs"
  by (induction rs) (simp_all add: goconv_of)

lemma of_elems_total:
  "goconv t val of_val \<Longrightarrow> list_all (has_type t) vs \<Longrightarrow> \<exists>rs. of_elems of_val vs = Some rs \<and> vs = map val rs"
proof (induction vs)
  case (Cons v vs)
  then obtain rs where "of_elems of_val vs = Some rs" "vs = map val rs" by auto
  moreover from Cons.prems obtain r where "of_val v = Some r" "v = val r"
    by (auto elim: goconvE)
  ultimately show ?case by (intro exI [of _ "r # rs"]) simp
qed simp

lemma goconv_slice:
  assumes g: "goconv (TStruct fs) val of_val"
  shows "goconv (TSlice (TStruct fs)) (v_slice val) (of_slice of_val)"
proof (rule goconvI)
  show "of_slice of_val (v_slice val rs) = Some rs" for rs
    by (simp add: v_slice_def of_elems_map [OF g])
  fix v assume "has_type (TSlice (TStruct fs)) v"
  then obtain vs where "v = VSlice vs" "list_all (has_type (TStruct fs)) vs"
    by (auto simp: has_type_structs_iff simp del: has_type.simps)
  with of_elems_total [OF g this(2)] show "\<exists>rs. of_slice of_val v = Some rs \<and> v_slice val rs = v"
    by (auto simp: v_slice_def)
qed

lemma goconv_DigitallySigned: "goconv T_DigitallySigned v_DigitallySigned of_DigitallySigned"
  using ds.of_val ds.val_of by (auto simp: goconv_def)

lemma goconv_ASN1Cert: "goconv T_ASN1Cert v_ASN1Cert of_ASN1Cert"
  by (rule goconvI)
     (auto simp: v_ASN1Cert_def T_ASN1Cert_def shape_iffs simp del: has_type.simps has_types.simps(2))

lemma goconv_PreCert: "goconv T_PreCert v_PreCert of_PreCert"
  by (rule goconvI)
     (auto simp: v_PreCert_def T_PreCert_def shape_iffs simp del: has_type.simps has_types.simps(2))

lemma goconv_JSONDataEntry: "goconv T_JSONDataEntry v_JSONDataEntry of_JSONDataEntry"
  by (rule goconvI)
     (auto simp: v_JSONDataEntry_def T_JSONDataEntry_def shape_iffs
        simp del: has_type.simps has_types.simps(2))

lemma goconv_TreeHeadSignature: "goconv T_TreeHeadSignature v_TreeHeadSignature of_TreeHeadSignature"
  by (rule goconvI)
     (auto simp: v_TreeHeadSignature_def T_TreeHeadSignature_def shape_iffs
        simp del: has_type.simps has_types.simps(2))

lemmas goconv_ptrs = goconv_ptr [OF goconv_ASN1Cert] goconv_ptr [OF goconv_PreCert]
  goconv_ptr [OF goconv_JSONDataEntry]

lemmas struct_shape = has_types_Cons_iff has_type_Struct_iff has_type_Enum_iff has_type_Uint64_iff
  has_type_bytes_iff has_type_array_iff

lemma goconv_TimestampedEntry: "goconv T_TimestampedEntry v_TimestampedEntry of_TimestampedEntry"
proof (rule goconvI)
  show "of_TimestampedEntry (v_TimestampedEntry e) = Some e" for e
    by (simp add: v_TimestampedEntry_def goconv_ptrs [THEN goconv_of])
  fix v assume "has_type T_TimestampedEntry v"
  then obtain ts et x p j ex where v: "v = VStruct [VUint ts, VUint et, x, p, j, VBytes ex]"
    and t: "has_type (TPtr T_ASN1Cert) x" "has_type (TPtr T_PreCert) p" "has_type (TPtr T_JSONDataEntry) j"
    unfolding T_TimestampedEntry_def
    by (auto simp: struct_shape simp del: has_type.simps has_types.simps(2))
  show "\<exists>e. of_TimestampedEntry v = Some e \<and> v_TimestampedEntry e = v"
    by (rule goconvE [OF goconv_ptrs(1) t(1)], rule goconvE [OF goconv_ptrs(2) t(2)],
        rule goconvE [OF goconv_ptrs(3) t(3)]) (auto simp: v v_TimestampedEntry_def)
qed

lemma goconv_CertificateTimestamp:
  "goconv T_CertificateTimestamp v_CertificateTimestamp of_CertificateTimestamp"
proof (rule goconvI)
  show "of_CertificateTimestamp (v_CertificateTimestamp e) = Some e" for e
    by (simp add: v_CertificateTimestamp_def goconv_ptrs [THEN goconv_of])
  fix v assume "has_type T_CertificateTimestamp v"
  then obtain sv st ts et x p j ex where
      v: "v = VStruct [VUint sv, VUint st, VUint ts, VUint et, x, p, j, VBytes ex]"
    and t: "has_type (TPtr T_ASN1Cert) x" "has_type (TPtr T_PreCert) p" "has_type (TPtr T_JSONDataEntry) j"
    unfolding T_CertificateTimestamp_def
    by (auto simp: struct_shape simp del: has_type.simps has_types.simps(2))
  show "\<exists>e. of_CertificateTimestamp v = Some e \<and> v_CertificateTimestamp e = v"
    by (rule goconvE [OF goconv_ptrs(1) t(1)], rule goconvE [OF goconv_ptrs(2) t(2)],
        rule goconvE [OF goconv_ptrs(3) t(3)]) (auto simp: v v_CertificateTimestamp_def)
qed

lemma goconv_MerkleTreeLeaf: "goconv T_MerkleTreeLeaf v_MerkleTreeLeaf of_MerkleTreeLeaf"
proof (rule goconvI)
  show "of_MerkleTreeLeaf (v_MerkleTreeLeaf l) = Some l" for l
    by (simp add: v_MerkleTreeLeaf_def goconv_ptr [OF goconv_TimestampedEntry, THEN goconv_of])
  fix v assume "has_type T_MerkleTreeLeaf v"
  then obtain ve lt te where v: "v = VStruct [VUint ve, VUint lt, te]"
    and t: "has_type (TPtr T_TimestampedEntry) te"
    unfolding T_MerkleTreeLeaf_def
    by (auto simp: struct_shape simp del: has_type.simps has_types.simps(2))
  show "\<exists>l. of_MerkleTreeLeaf v = Some l \<and> v_MerkleTreeLeaf l = v"
    by (rule goconvE [OF goconv_ptr [OF goconv_TimestampedEntry] t]) (auto simp: v v_MerkleTreeLeaf_def)
qed

lemma goconv_certs: "goconv (TSlice T_ASN1Cert) (v_slice v_ASN1Cert) (of_slice of_ASN1Cert)"
  using goconv_slice [of _ v_ASN1Cert of_ASN1Cert] goconv_ASN1Cert by (simp add: T_ASN1Cert_def)

lemma goconv_CertificateChain: "goconv T_CertificateChain v_CertificateChain of_CertificateChain"
proof (rule goconvI)
  show "of_CertificateChain (v_CertificateChain l) = Some l" for l
    by (simp add: v_CertificateChain_def goconv_certs [THEN goconv_of])
  fix v assume "has_type T_CertificateChain v"
  then obtain es where v: "v = VStruct [es]" and t: "has_type (TSlice T_ASN1Cert) es"
    unfolding T_CertificateChain_def
    by (auto simp: struct_shape simp del: has_type.simps has_types.simps(2))
  show "\<exists>l. of_CertificateChain v = Some l \<and> v_CertificateChain l = v"
    by (rule goconvE [OF goconv_certs t]) (auto simp: v v_CertificateChain_def)
qed

lemma goconv_PrecertChainEntry: "goconv T_PrecertChainEntry v_PrecertChainEntry of_PrecertChainEntry"
proof (rule goconvI)
  show "of_PrecertChainEntry (v_PrecertChainEntry l) = Some l" for l
    by (simp add: v_PrecertChainEntry_def goconv_certs [THEN goconv_of] goconv_ASN1Cert [THEN goconv_of])
  fix v assume "has_type T_PrecertChainEntry v"
  then obtain c es where v: "v = VStruct [c, es]"
    and t: "has_type T_ASN1Cert c" "has_type (TSlice T_ASN1Cert) es"
    unfolding T_PrecertChainEntry_def
    by (auto simp: struct_shape simp del: has_type.simps has_types.simps(2))
  show "\<exists>l. of_PrecertChainEntry v = Some l \<and> v_PrecertChainEntry l = v"
    by (rule goconvE [OF goconv_ASN1Cert t(1)], rule goconvE [OF goconv_certs t(2)])
       (auto simp: v v_PrecertChainEntry_def)
qed

lemma goconv_SCT:
  "goconv T_SignedCertificateTimestamp v_SignedCertificateTimestamp of_SignedCertificateTimestamp"
proof (rule goconvI)
  show "of_SignedCertificateTimestamp (v_SignedCertificateTimestamp l) = Some l" for l
    by (simp add: v_SignedCertificateTimestamp_def ds.of_val)
  fix v assume "has_type T_SignedCertificateTimestamp v"
  then obtain sv i ts ex d where v: "v = VStruct [VUint sv, VStruct [VBytes i], VUint ts, VBytes ex, d]"
    and t: "has_type T_DigitallySigned d"
    unfolding T_SignedCertificateTimestamp_def
    by (auto simp: struct_shape simp del: has_type.simps has_types.simps(2))
  show "\<exists>l. of_SignedCertificateTimestamp v = Some l \<and> v_SignedCertificateTimestamp l = v"
    by (rule goconvE [OF goconv_DigitallySigned t]) (auto simp: v v_SignedCertificateTimestamp_def)
qed

text \<open>The tags that occur in the structures.\<close>

lemma ct_tags:
  "fieldTagToFieldInfo ''minlen:1,maxlen:16777215'' n = Inr (Some (zero_fieldInfo\<lparr>fi_count := 3,
     fi_countSet := True, fi_minlen := 1, fi_maxlen := 16777215, fi_name := n\<rparr>))"
  "fieldTagToFieldInfo ''minlen:0,maxlen:16777215'' n = Inr (Some (zero_fieldInfo\<lparr>fi_count := 3,
     fi_countSet := True, fi_maxlen := 16777215, fi_name := n\<rparr>))"
  "fieldTagToFieldInfo ''minlen:0,maxlen:1677215'' n = Inr (Some (zero_fieldInfo\<lparr>fi_count := 3,
     fi_countSet := True, fi_maxlen := 1677215, fi_name := n\<rparr>))"
  "fieldTagToFieldInfo ''maxval:65535'' n = Inr (Some (zero_fieldInfo\<lparr>fi_count := 2,
     fi_countSet := True, fi_name := n\<rparr>))"
  "fieldTagToFieldInfo ''selector:EntryType,val:0'' n = Inr (Some (zero_fieldInfo\<lparr>
     fi_selector := ''EntryType'', fi_name := n\<rparr>))"
  "fieldTagToFieldInfo ''selector:EntryType,val:1'' n = Inr (Some (zero_fieldInfo\<lparr>
     fi_selector := ''EntryType'', fi_val := 1, fi_name := n\<rparr>))"
  "fieldTagToFieldInfo ''selector:EntryType,val:32768'' n = Inr (Some (zero_fieldInfo\<lparr>
     fi_selector := ''EntryType'', fi_val := 32768, fi_name := n\<rparr>))"
  "fieldTagToFieldInfo ''selector:LeafType,val:0'' n = Inr (Some (zero_fieldInfo\<lparr>
     fi_selector := ''LeafType'', fi_name := n\<rparr>))"
  by (simp_all add: tag_eval)

lemmas ct_type_defs = T_ASN1Cert_def T_PreCert_def T_JSONDataEntry_def T_TimestampedEntry_def
  T_MerkleTreeLeaf_def T_CertificateTimestamp_def T_TreeHeadSignature_def T_CertificateChain_def
  T_PrecertChainEntry_def T_SignedCertificateTimestamp_def T_DigitallySigned_def
  T_SignatureAndHashAlgorithm_def

lemmas ct_eval = ct_tags DigitallySigned_tags zero_fieldInfo_def

lemma ct_wf:
  "tls_wf T_MerkleTreeLeaf None" "tls_wf T_CertificateTimestamp None" "tls_wf T_TreeHeadSignature None"
  "tls_wf T_CertificateChain None" "tls_wf T_PrecertChainEntry None" "tls_wf T_SignedCertificateTimestamp None"
  by (simp_all add: ct_type_defs ct_eval sized_def kind_uint8_def)

lemma tls_recordI: "tls_wf t None \<Longrightarrow> goconv t val of_val \<Longrightarrow> tls_record t val of_val"
  by unfold_locales (auto simp: goconv_def)

interpretation leaf: tls_record T_MerkleTreeLeaf v_MerkleTreeLeaf of_MerkleTreeLeaf
  by (rule tls_recordI) (rule ct_wf goconv_MerkleTreeLeaf)+

interpretation cts: tls_record T_CertificateTimestamp v_CertificateTimestamp of_CertificateTimestamp
  by (rule tls_recordI) (rule ct_wf goconv_CertificateTimestamp)+

interpretation ths: tls_record T_TreeHeadSignature v_TreeHeadSignature of_TreeHeadSignature
  by (rule tls_recordI) (rule ct_wf goconv_TreeHeadSignature)+

interpretation chain: tls_record T_CertificateChain v_CertificateChain of_CertificateChain
  by (rule tls_recordI) (rule ct_wf goconv_CertificateChain)+

interpretation pchain: tls_record T_PrecertChainEntry v_PrecertChainEntry of_PrecertChainEntry
  by (rule tls_recordI) (rule ct_wf goconv_PrecertChainEntry)+

interpretation sct: tls_record T_SignedCertificateTimestamp v_SignedCertificateTimestamp
    of_SignedCertificateTimestamp
  by (rule tls_recordI) (rule ct_wf goconv_SCT)+

text \<open>Decoding a whole buffer, for every structure at once.\<close>

context tls_record
begin

lemma unmarshal_all_iff:
  "unmarshal_all what t of_val b = Some (Inr r) \<longleftrightarrow> has_type t (val r) \<and> marshal_rec t val r = Inr b"
  unfolding unmarshal_all_def rec.dec_exact_iff [symmetric]
  by (auto split: option.splits sum.splits prod.splits)

lemma unmarshal_all_returns:
  "\<exists>res. unmarshal_all what t of_val b = Some res \<and> res \<noteq> Inl CtPanic"
proof -
  obtain res where r: "unmarshal_rec t of_val b = Some res" "res \<noteq> Inl GoPanic"
    using rec_returns by blast
  show ?thesis
  proof (cases res)
    case (Inl e)
    then have "ct_of_tls what e \<noteq> CtPanic" using r(2) by (cases e) auto
    then show ?thesis using r Inl by (simp add: unmarshal_all_def)
  next
    case (Inr p)
    then show ?thesis using r by (auto simp: unmarshal_all_def split: prod.splits)
  qed
qed

lemma marshal_ct_iff: "marshal_ct t val r = Inr b \<longleftrightarrow> marshal_rec t val r = Inr b"
  by (cases "marshal_rec t val r") (simp_all add: marshal_ct_def)

end

section \<open>Properties\<close>

text \<open>
  The base64 form of a \<^verbatim>\<open>DigitallySigned\<close> round-trips, through the JSON methods as well when
  \<open>json\<close> reads a quoted string without escapes as its content.
\<close>

theorem DigitallySigned_base64_roundtrip:
  assumes "length (ds_Signature d) < 2 ^ 63"
    and "DigitallySigned_Base64String d = Inr b64"
    and "json (CHR 0x22 # b64 @ [CHR 0x22]) = Some b64"
  shows "DigitallySigned_FromBase64String b64 = Some (Inr d) \<and>
         bind_run (Some (DigitallySigned_MarshalJSON d)) (DigitallySigned_UnmarshalJSON json)
           = Some (Inr d)"
proof -
  obtain b where b: "marshal_ct T_DigitallySigned v_DigitallySigned d = Inr b" "b64 = EncodeToString b"
    using assms(2) by (auto simp: DigitallySigned_Base64String_def result_simps)
  have "has_type T_DigitallySigned (v_DigitallySigned d)"
    using assms(1) by (simp add: T_DigitallySigned_def T_SignatureAndHashAlgorithm_def
      v_DigitallySigned_def kind_uint8_def)
  then have "DigitallySigned_FromBase64String b64 = Some (Inr d)"
    using b by (simp add: DigitallySigned_FromBase64String_def ds.unmarshal_all_iff ds.marshal_ct_iff)
  then show ?thesis
    using assms by (simp add: DigitallySigned_MarshalJSON_def DigitallySigned_UnmarshalJSON_def)
qed

lemma demo_Base64String:
  "DigitallySigned_Base64String \<lparr>ds_Algorithm = \<lparr>sha_Hash = 4, sha_Signature = 3\<rparr>, ds_Signature = [1]\<rparr>
     = Inr ''BAMAAQE=''"
  by (simp add: DigitallySigned_Base64String_def marshal_ct_def marshal_rec_def v_DigitallySigned_def
    T_DigitallySigned_def T_SignatureAndHashAlgorithm_def DigitallySigned_tags codec_eval
    b64_char_def b64_alphabet_def)

theorem DigitallySigned_base64_roundtrip_witness:
  "DigitallySigned_FromBase64String ''BAMAAQE='' =
     Some (Inr \<lparr>ds_Algorithm = \<lparr>sha_Hash = 4, sha_Signature = 3\<rparr>, ds_Signature = [1]\<rparr>)"
  using DigitallySigned_base64_roundtrip [OF _ demo_Base64String,
    of "\<lambda>s. Some (butlast (tl s))"]
  by simp

text \<open>
  (C37) \<^verbatim>\<open>ToSignedCertificateTimestamp\<close> returns without a panic on every response, and returns an
  SCT exactly when the identifier has 32 bytes, the extensions are base64, and the signature is the
  whole encoding of a \<^verbatim>\<open>DigitallySigned\<close>; the SCT carries exactly the fields of the response.
\<close>

theorem ToSignedCertificateTimestamp_iff:
  "(ToSignedCertificateTimestamp r = Some (Inr s) \<longleftrightarrow>
     length (acr_ID r) = 32 \<and> DecodeString (acr_Extensions r) = Some (sct_Extensions s) \<and>
     has_type T_DigitallySigned (v_DigitallySigned (sct_Signature s)) \<and>
     Marshal T_DigitallySigned (v_DigitallySigned (sct_Signature s)) = Inr (acr_Signature r) \<and>
     sct_SCTVersion s = acr_SCTVersion r \<and> sct_LogID s = acr_ID r \<and>
     sct_Timestamp s = acr_Timestamp r) \<and>
   (\<exists>res. ToSignedCertificateTimestamp r = Some res \<and> res \<noteq> Inl CtPanic)"
proof (intro conjI)
  show "ToSignedCertificateTimestamp r = Some (Inr s) \<longleftrightarrow>
     length (acr_ID r) = 32 \<and> DecodeString (acr_Extensions r) = Some (sct_Extensions s) \<and>
     has_type T_DigitallySigned (v_DigitallySigned (sct_Signature s)) \<and>
     Marshal T_DigitallySigned (v_DigitallySigned (sct_Signature s)) = Inr (acr_Signature r) \<and>
     sct_SCTVersion s = acr_SCTVersion r \<and> sct_LogID s = acr_ID r \<and> sct_Timestamp s = acr_Timestamp r"
    by (cases s) (auto simp: ToSignedCertificateTimestamp_def bind_run_Inr ds.unmarshal_all_iff
      marshal_rec_def split: option.splits)
  obtain res where "unmarshal_all ''DigitallySigned'' T_DigitallySigned of_DigitallySigned
      (acr_Signature r) = Some res" "res \<noteq> Inl CtPanic"
    using ds.unmarshal_all_returns by blast
  then show "\<exists>res. ToSignedCertificateTimestamp r = Some res \<and> res \<noteq> Inl CtPanic"
    by (cases res) (auto simp: ToSignedCertificateTimestamp_def split: option.splits)
qed

end
