(* ===== verification/CT_Serialization.thy ===== *)
theory CT_Serialization
  imports CT_Types X509_TBS
begin

text \<open>
  \<^verbatim>\<open>src/serialization.go\<close> and \<^verbatim>\<open>src/signatures.go\<close>: the byte strings that SCTs and STHs sign, Merkle
  tree leaves and their hashes, the reading of log entries, and the verification of SCTs and STHs.
  SHA-256, the certificate parsers and the DER codec of a TBSCertificate are arguments.
\<close>

unbundle bit_operations_syntax

section \<open>Signature inputs\<close>

definition SerializeSCTSignatureInput :: "SignedCertificateTimestamp \<Rightarrow> LogEntry \<Rightarrow> ct_error + bytes" where
  "SerializeSCTSignatureInput sct entry =
     (if sct_SCTVersion sct = V1 then
        (case leaf_TimestampedEntry (le_Leaf entry) of
           None \<Rightarrow> Inl CtPanic
         | Some te \<Rightarrow>
             let input = \<lparr>cts_SCTVersion = sct_SCTVersion sct,
                          cts_SignatureType = CertificateTimestampSignatureType,
                          cts_Timestamp = sct_Timestamp sct, cts_EntryType = te_EntryType te,
                          cts_X509Entry = None, cts_PrecertEntry = None, cts_JSONEntry = None,
                          cts_Extensions = sct_Extensions sct\<rparr>;
                 marshal = marshal_ct T_CertificateTimestamp v_CertificateTimestamp
             in if te_EntryType te = X509LogEntryType then
                  marshal (input\<lparr>cts_X509Entry := te_X509Entry te\<rparr>)
                else if te_EntryType te = PrecertLogEntryType then
                  (case te_PrecertEntry te of
                     None \<Rightarrow> Inl CtPanic
                   | Some p \<Rightarrow>
                       marshal (input\<lparr>cts_PrecertEntry :=
                         Some \<lparr>pre_IssuerKeyHash = pre_IssuerKeyHash p,
                               pre_TBSCertificate = pre_TBSCertificate p\<rparr>\<rparr>))
                else if te_EntryType te = XJSONLogEntryType then
                  marshal (input\<lparr>cts_JSONEntry := te_JSONEntry te\<rparr>)
                else Inl (UnsupportedEntryType (te_EntryType te)))
      else Inl (UnsupportedVersion (sct_SCTVersion sct)))"

definition SerializeSTHSignatureInput :: "SignedTreeHead \<Rightarrow> ct_error + bytes" where
  "SerializeSTHSignatureInput sth =
     (if sth_Version sth = V1 then
        if length (sth_SHA256RootHash sth) \<noteq> 32 then Inl (BadLength (length (sth_SHA256RootHash sth)))
        else marshal_ct T_TreeHeadSignature v_TreeHeadSignature
               \<lparr>ths_Version = sth_Version sth, ths_SignatureType = TreeHashSignatureType,
                ths_Timestamp = sth_Timestamp sth, ths_TreeSize = sth_TreeSize sth,
                ths_SHA256RootHash = sth_SHA256RootHash sth\<rparr>
      else Inl (UnsupportedVersion (sth_Version sth)))"

section \<open>Merkle tree leaves\<close>

definition zero_TimestampedEntry :: TimestampedEntry where
  "zero_TimestampedEntry = \<lparr>te_Timestamp = 0, te_EntryType = 0, te_X509Entry = None,
     te_PrecertEntry = None, te_JSONEntry = None, te_Extensions = []\<rparr>"

definition CreateX509MerkleTreeLeaf :: "ASN1Cert \<Rightarrow> u64 \<Rightarrow> MerkleTreeLeaf" where
  "CreateX509MerkleTreeLeaf cert timestamp =
     \<lparr>leaf_Version = V1, leaf_LeafType = TimestampedEntryLeafType,
      leaf_TimestampedEntry = Some (zero_TimestampedEntry\<lparr>te_Timestamp := timestamp,
        te_EntryType := X509LogEntryType, te_X509Entry := Some cert\<rparr>)\<rparr>"

text \<open>\<^verbatim>\<open>strings.Replace(s, old, new, -1)\<close> for a one-character \<^verbatim>\<open>old\<close>.\<close>

definition replace_char :: "char \<Rightarrow> string \<Rightarrow> string \<Rightarrow> string" where
  "replace_char old new s = concat (map (\<lambda>c. if c = old then new else [c]) s)"

definition string_bytes :: "string \<Rightarrow> bytes" where
  "string_bytes s = map (\<lambda>c. of_nat (of_char c :: nat)) s"

text \<open>The first argument is \<^verbatim>\<open>json.Marshal\<close> of the request; a failure gives a nil leaf.\<close>

definition CreateJSONMerkleTreeLeaf :: "('d \<Rightarrow> string option) \<Rightarrow> 'd \<Rightarrow> u64 \<Rightarrow> MerkleTreeLeaf option" where
  "CreateJSONMerkleTreeLeaf json_marshal data timestamp =
     (case json_marshal data of
        None \<Rightarrow> None
      | Some jsonData \<Rightarrow>
          let s = replace_char (CHR '':'') '': '' jsonData;
              s = replace_char (CHR '','') '', '' s;
              s = replace_char (CHR ''{'') ''{ '' s;
              s = replace_char (CHR ''}'') '' }'' s;
              s = replace_char (CHR ''/'') [CHR 0x5C, CHR ''/''] s
          in Some \<lparr>leaf_Version = V1, leaf_LeafType = TimestampedEntryLeafType,
                   leaf_TimestampedEntry = Some (zero_TimestampedEntry\<lparr>te_Timestamp := timestamp,
                     te_EntryType := XJSONLogEntryType,
                     te_JSONEntry := Some \<lparr>json_Data = string_bytes s\<rparr>\<rparr>)\<rparr>)"

definition IsPreIssuer :: "Certificate \<Rightarrow> bool" where
  "IsPreIssuer issuer = list_ex (\<lambda>eku. eku = ExtKeyUsageCertificateTransparency) (ExtKeyUsage issuer)"

definition precert_leaf :: "u64 \<Rightarrow> bytes \<Rightarrow> bytes \<Rightarrow> MerkleTreeLeaf" where
  "precert_leaf timestamp keyHash tbs =
     \<lparr>leaf_Version = V1, leaf_LeafType = TimestampedEntryLeafType,
      leaf_TimestampedEntry = Some (zero_TimestampedEntry\<lparr>te_Timestamp := timestamp,
        te_EntryType := PrecertLogEntryType,
        te_PrecertEntry := Some \<lparr>pre_IssuerKeyHash = keyHash, pre_TBSCertificate = tbs\<rparr>\<rparr>)\<rparr>"

text \<open>
  A chain is a list of pointers. Dereferencing a nil pointer panics, and so does \<^verbatim>\<open>chain[0]\<close> on an
  empty chain in the X.509 case.
\<close>

definition deref :: "'a option \<Rightarrow> ct_error + 'a" where
  "deref p = (case p of None \<Rightarrow> Inl CtPanic | Some x \<Rightarrow> Inr x)"

definition MerkleTreeLeafFromChain ::
    "(bytes \<Rightarrow> bytes) \<Rightarrow> 'o tbs_codec \<Rightarrow> Certificate option list \<Rightarrow> u64 \<Rightarrow> u64 \<Rightarrow> ct_error + MerkleTreeLeaf" where
  "MerkleTreeLeafFromChain sha256 codec chain etype timestamp =
     (if etype = X509LogEntryType then
        (case chain of
           [] \<Rightarrow> Inl CtPanic
         | p # _ \<Rightarrow> bind_res (deref p) (\<lambda>cert.
             Inr (CreateX509MerkleTreeLeaf \<lparr>cert_Data = Raw cert\<rparr> timestamp)))
      else if etype \<noteq> PrecertLogEntryType then Inl (UnsupportedEntryType etype)
      else
        (case chain of
           p # q # rest \<Rightarrow>
             bind_res (deref q) (\<lambda>issuer.
             bind_res
               (if IsPreIssuer issuer then
                  (case rest of [] \<Rightarrow> Inl NoPreIssuerIssuer | r # _ \<Rightarrow> Inr (Some issuer, r))
                else Inr (None, q))
               (\<lambda>(preIssuer, r).
             bind_res (deref p) (\<lambda>cert.
               case BuildPrecertTBS codec (RawTBSCertificate cert) preIssuer of
                 Inl _ \<Rightarrow> Inl RemoveExtensionFailed
               | Inr defangedTBS \<Rightarrow>
                   bind_res (deref r) (\<lambda>finalIssuer.
                     Inr (precert_leaf timestamp (sha256 (RawSubjectPublicKeyInfo finalIssuer)) defangedTBS)))))
         | _ \<Rightarrow> Inl NoIssuer))"

text \<open>The loop that parses the first three certificates; a fatal error stops it.\<close>

fun parse_chain :: "x509_parser \<Rightarrow> nat \<Rightarrow> ASN1Cert list \<Rightarrow> ct_error + Certificate option list" where
  "parse_chain ParseCertificate i [] = Inr []"
| "parse_chain ParseCertificate i (r # rs) =
     (let (cert, err) = ParseCertificate (cert_Data r) in
      if IsFatal err then Inl (CertParseFailed i)
      else bind_res (parse_chain ParseCertificate (Suc i) rs) (\<lambda>cs. Inr (cert # cs)))"

definition MerkleTreeLeafFromRawChain ::
    "(bytes \<Rightarrow> bytes) \<Rightarrow> 'o tbs_codec \<Rightarrow> x509_parser \<Rightarrow> ASN1Cert list \<Rightarrow> u64 \<Rightarrow> u64 \<Rightarrow> ct_error + MerkleTreeLeaf" where
  "MerkleTreeLeafFromRawChain sha256 codec ParseCertificate rawChain etype timestamp =
     (let count = (if 3 > length rawChain then length rawChain else 3) in
      bind_res (parse_chain ParseCertificate 0 (take count rawChain)) (\<lambda>chain.
        MerkleTreeLeafFromChain sha256 codec chain etype timestamp))"

definition MerkleTreeLeafForEmbeddedSCT ::
    "(bytes \<Rightarrow> bytes) \<Rightarrow> 'o tbs_codec \<Rightarrow> Certificate option list \<Rightarrow> u64 \<Rightarrow> ct_error + MerkleTreeLeaf" where
  "MerkleTreeLeafForEmbeddedSCT sha256 codec chain timestamp =
     (case chain of
        p # q # _ \<Rightarrow>
          bind_res (deref p) (\<lambda>cert.
          case RemoveSCTList codec (RawTBSCertificate cert) of
             Inl _ \<Rightarrow> Inl RemoveExtensionFailed
           | Inr tbs \<Rightarrow>
               bind_res (deref q) (\<lambda>issuer.
                 Inr (precert_leaf timestamp (sha256 (RawSubjectPublicKeyInfo issuer)) tbs)))
      | _ \<Rightarrow> Inl NoIssuer)"

definition LeafHashForLeaf :: "(bytes \<Rightarrow> bytes) \<Rightarrow> MerkleTreeLeaf \<Rightarrow> ct_error + bytes" where
  "LeafHashForLeaf sha256 leaf =
     bind_res (marshal_ct T_MerkleTreeLeaf v_MerkleTreeLeaf leaf) (\<lambda>leafData.
       Inr (sha256 ([TreeLeafPrefix] @ leafData)))"

section \<open>Reading entries\<close>

text \<open>The \<^verbatim>\<open>switch\<close> on the entry type, after the leaf has been read.\<close>

definition RawLogEntry_switch :: "64 word \<Rightarrow> LeafEntry \<Rightarrow> MerkleTreeLeaf \<Rightarrow> (ct_error, RawLogEntry) run" where
  "RawLogEntry_switch index entry leaf =
     (case leaf_TimestampedEntry leaf of
        None \<Rightarrow> Some (Inl CtPanic)
      | Some te \<Rightarrow>
          if te_EntryType te = X509LogEntryType then
            bind_run (unmarshal_all ''CertificateChain'' T_CertificateChain of_CertificateChain
                        (lentry_ExtraData entry))
              (\<lambda>certChain.
                case te_X509Entry te of
                  None \<Rightarrow> Some (Inl CtPanic)
                | Some x \<Rightarrow> Some (Inr \<lparr>rle_Index = index, rle_Leaf = leaf, rle_Cert = x,
                                      rle_Chain = chain_Entries certChain\<rparr>))
          else if te_EntryType te = PrecertLogEntryType then
            bind_run (unmarshal_all ''PrecertChainEntry'' T_PrecertChainEntry of_PrecertChainEntry
                        (lentry_ExtraData entry))
              (\<lambda>p. Some (Inr \<lparr>rle_Index = index, rle_Leaf = leaf, rle_Cert = pce_PreCertificate p,
                               rle_Chain = pce_CertificateChain p\<rparr>))
          else Some (Inl (UnsupportedEntryType (te_EntryType te))))"

definition RawLogEntryFromLeaf :: "64 word \<Rightarrow> LeafEntry \<Rightarrow> (ct_error, RawLogEntry) run" where
  "RawLogEntryFromLeaf index entry =
     bind_run (unmarshal_all ''MerkleTreeLeaf'' T_MerkleTreeLeaf of_MerkleTreeLeaf (lentry_LeafInput entry))
       (RawLogEntry_switch index entry)"

text \<open>
  \<^verbatim>\<open>ToLogEntry\<close> may return an entry together with a non-fatal error; an \<open>Inl\<close> is a failure without
  an entry.
\<close>

definition fatal_ct :: "ct_error option \<Rightarrow> bool" where
  "fatal_ct e = (case e of None \<Rightarrow> False | Some (X509Error x) \<Rightarrow> IsFatal (Some x) | Some _ \<Rightarrow> True)"

definition ToLogEntry ::
    "x509_parser \<Rightarrow> x509_parser \<Rightarrow> RawLogEntry \<Rightarrow> ct_error + (LogEntry \<times> ct_error option)" where
  "ToLogEntry ParseCertificate ParseTBSCertificate rle =
     (let entry = \<lparr>le_Index = rle_Index rle, le_Leaf = rle_Leaf rle, le_X509Cert = None,
                   le_Precert = None, le_JSONData = [], le_Chain = rle_Chain rle\<rparr> in
      case leaf_TimestampedEntry (rle_Leaf rle) of
        None \<Rightarrow> Inl CtPanic
      | Some te \<Rightarrow>
          if te_EntryType te = X509LogEntryType then
            bind_res (X509Certificate ParseCertificate (rle_Leaf rle)) (\<lambda>(cert, err).
              if fatal_ct err then Inl (CertParseFailed 0)
              else Inr (entry\<lparr>le_X509Cert := cert\<rparr>, err))
          else if te_EntryType te = PrecertLogEntryType then
            bind_res (leaf_Precertificate ParseTBSCertificate (rle_Leaf rle)) (\<lambda>(tbsCert, err).
              if fatal_ct err then Inl (CertParseFailed 0)
              else (case te_PrecertEntry te of
                  None \<Rightarrow> Inl CtPanic
                | Some p \<Rightarrow>
                    Inr (entry\<lparr>le_Precert := Some \<lparr>prec_Submitted = rle_Cert rle,
                           prec_IssuerKeyHash = pre_IssuerKeyHash p,
                           prec_TBSCertificate = tbsCert\<rparr>\<rparr>, err)))
          else Inl (UnsupportedEntryType (te_EntryType te)))"

definition LogEntryFromLeaf ::
    "x509_parser \<Rightarrow> x509_parser \<Rightarrow> 64 word \<Rightarrow> LeafEntry \<Rightarrow> (ct_error, LogEntry \<times> ct_error option) run" where
  "LogEntryFromLeaf ParseCertificate ParseTBSCertificate index leaf =
     bind_run (RawLogEntryFromLeaf index leaf) (\<lambda>rle.
       Some (ToLogEntry ParseCertificate ParseTBSCertificate rle))"

text \<open>
  \<^verbatim>\<open>time.Unix(secs, msecs*1000000)\<close> in nanoseconds since the epoch, with the conversions to
  \<^verbatim>\<open>int64\<close> written out.
\<close>

definition TimestampToTime :: "u64 \<Rightarrow> gotime" where
  "TimestampToTime ts =
     (let secs = sint (ts div 1000); msecs = (ts mod 1000)
      in secs * 1000000000 + sint (msecs * 1000000))"

section \<open>Signature verification\<close>

datatype verifier_err = WeakRSAKey nat | NotP256 | UnsupportedPublicKey

definition tls_key :: "PublicKey \<Rightarrow> (rsa_PublicKey, dsa_PublicKey, ecdsa_PublicKey) key" where
  "tls_key pk = (case pk of PubRSA r \<Rightarrow> RSAKey r | PubDSA d \<Rightarrow> DSAKey d | PubECDSA e \<Rightarrow> ECDSAKey e
     | _ \<Rightarrow> OtherKey)"

text \<open>The first argument is the global \<^verbatim>\<open>AllowVerificationWithNonCompliantKeys\<close>.\<close>

definition NewSignatureVerifier :: "bool \<Rightarrow> PublicKey \<Rightarrow> verifier_err + PublicKey" where
  "NewSignatureVerifier allowNonCompliant pk =
     (case pk of
        PubRSA k \<Rightarrow>
          if BitLen (rsa_N k) < 2048 \<and> \<not> allowNonCompliant then Inl (WeakRSAKey (BitLen (rsa_N k)))
          else Inr pk
      | PubECDSA k \<Rightarrow>
          if ec_Curve k \<noteq> P256 \<and> \<not> allowNonCompliant then Inl NotP256 else Inr pk
      | _ \<Rightarrow> Inl UnsupportedPublicKey)"

definition VerifySCTSignature ::
    "('rp, 'ep, 'rand) x509_ops \<Rightarrow> PublicKey \<Rightarrow> SignedCertificateTimestamp \<Rightarrow> LogEntry \<Rightarrow> ct_error + unit" where
  "VerifySCTSignature ops pk sct entry =
     bind_res (SerializeSCTSignatureInput sct entry) (\<lambda>sctData.
       map_sum SignatureRejected id (VerifySignature (crypto_ops.truncate ops) (tls_key pk) sctData (sct_Signature sct)))"

definition VerifySTHSignature ::
    "('rp, 'ep, 'rand) x509_ops \<Rightarrow> PublicKey \<Rightarrow> SignedTreeHead \<Rightarrow> ct_error + unit" where
  "VerifySTHSignature ops pk sth =
     bind_res (SerializeSTHSignatureInput sth) (\<lambda>sthData.
       map_sum SignatureRejected id (VerifySignature (crypto_ops.truncate ops) (tls_key pk) sthData (sth_TreeHeadSignature sth)))"

text \<open>\<^verbatim>\<open>pem.Decode\<close> and \<^verbatim>\<open>x509.ParsePKIXPublicKey\<close> are arguments.\<close>

definition PublicKeyFromPEM ::
    "(bytes \<Rightarrow> bytes option \<times> bytes) \<Rightarrow> (bytes \<Rightarrow> ct_error + PublicKey) \<Rightarrow> (bytes \<Rightarrow> bytes) \<Rightarrow> bytes \<Rightarrow>
       ct_error + (PublicKey \<times> bytes \<times> bytes)" where
  "PublicKeyFromPEM pem_decode parsePKIX sha256 b =
     (case pem_decode b of
        (None, rest) \<Rightarrow> Inl NoPEMBlock
      | (Some p, rest) \<Rightarrow> bind_res (parsePKIX p) (\<lambda>k. Inr (k, sha256 p, rest)))"

definition PublicKeyFromB64 :: "(bytes \<Rightarrow> ct_error + PublicKey) \<Rightarrow> string \<Rightarrow> ct_error + PublicKey" where
  "PublicKeyFromB64 parsePKIX b64PubKey =
     (case DecodeString b64PubKey of
        None \<Rightarrow> Inl (BadBase64 ''public key'')
      | Some der \<Rightarrow> parsePKIX der)"

section \<open>Lemmas\<close>

text \<open>The structure that an SCT signs, as a function of the SCT and the entry.\<close>

definition sct_input :: "SignedCertificateTimestamp \<Rightarrow> TimestampedEntry \<Rightarrow> CertificateTimestamp" where
  "sct_input sct te =
     \<lparr>cts_SCTVersion = V1, cts_SignatureType = CertificateTimestampSignatureType,
      cts_Timestamp = sct_Timestamp sct, cts_EntryType = te_EntryType te,
      cts_X509Entry = (if te_EntryType te = X509LogEntryType then te_X509Entry te else None),
      cts_PrecertEntry = (if te_EntryType te = PrecertLogEntryType then te_PrecertEntry te else None),
      cts_JSONEntry = (if te_EntryType te = XJSONLogEntryType then te_JSONEntry te else None),
      cts_Extensions = sct_Extensions sct\<rparr>"

lemma entry_types_distinct:
  "X509LogEntryType \<noteq> PrecertLogEntryType" "X509LogEntryType \<noteq> XJSONLogEntryType"
  "PrecertLogEntryType \<noteq> XJSONLogEntryType"
  by (simp_all add: ct_enums)

lemma PreCert_copy:
  "\<lparr>pre_IssuerKeyHash = pre_IssuerKeyHash p, pre_TBSCertificate = pre_TBSCertificate p\<rparr> = p"
  by (cases p) simp

lemma SerializeSCT_Inr:
  "SerializeSCTSignatureInput sct entry = Inr b \<longleftrightarrow>
     sct_SCTVersion sct = V1 \<and>
     (\<exists>te. leaf_TimestampedEntry (le_Leaf entry) = Some te \<and>
        (te_EntryType te = X509LogEntryType \<or>
         te_EntryType te = PrecertLogEntryType \<and> te_PrecertEntry te \<noteq> None \<or>
         te_EntryType te = XJSONLogEntryType) \<and>
        marshal_rec T_CertificateTimestamp v_CertificateTimestamp (sct_input sct te) = Inr b)"
proof (cases "leaf_TimestampedEntry (le_Leaf entry)")
  case None
  then show ?thesis by (simp add: SerializeSCTSignatureInput_def)
next
  case (Some te)
  note ev = SerializeSCTSignatureInput_def Some PreCert_copy sct_input_def cts.marshal_ct_iff Let_def
    entry_types_distinct entry_types_distinct [symmetric]
  consider (x) "te_EntryType te = X509LogEntryType" | (p) "te_EntryType te = PrecertLogEntryType"
    | (j) "te_EntryType te = XJSONLogEntryType"
    | (other) "te_EntryType te \<noteq> X509LogEntryType" "te_EntryType te \<noteq> PrecertLogEntryType"
        "te_EntryType te \<noteq> XJSONLogEntryType" by blast
  then show ?thesis
  proof cases
    case p
    then show ?thesis by (cases "te_PrecertEntry te") (simp_all add: ev cong: if_cong)
  qed (simp_all add: ev cong: if_cong)
qed

lemma SerializeSTH_Inr:
  "SerializeSTHSignatureInput sth = Inr b \<longleftrightarrow>
     sth_Version sth = V1 \<and> length (sth_SHA256RootHash sth) = 32 \<and>
     marshal_rec T_TreeHeadSignature v_TreeHeadSignature
       \<lparr>ths_Version = V1, ths_SignatureType = TreeHashSignatureType,
        ths_Timestamp = sth_Timestamp sth, ths_TreeSize = sth_TreeSize sth,
        ths_SHA256RootHash = sth_SHA256RootHash sth\<rparr> = Inr b"
  by (auto simp: SerializeSTHSignatureInput_def ths.marshal_ct_iff)

text \<open>
  Values of the Go types: the arrays have their length and the slices a length that is an \<^verbatim>\<open>int\<close>.
\<close>

definition typed_leaf :: "MerkleTreeLeaf \<Rightarrow> bool" where
  "typed_leaf l = has_type T_MerkleTreeLeaf (v_MerkleTreeLeaf l)"

definition typed_sct :: "SignedCertificateTimestamp \<Rightarrow> bool" where
  "typed_sct s = has_type T_SignedCertificateTimestamp (v_SignedCertificateTimestamp s)"

lemma typed_sct_input:
  assumes "typed_sct sct" and "typed_leaf l" and "leaf_TimestampedEntry l = Some te"
  shows "has_type T_CertificateTimestamp (v_CertificateTimestamp (sct_input sct te))"
  using assms
  by (simp add: typed_sct_def typed_leaf_def T_CertificateTimestamp_def T_MerkleTreeLeaf_def
      T_TimestampedEntry_def T_SignedCertificateTimestamp_def v_CertificateTimestamp_def
      v_MerkleTreeLeaf_def v_TimestampedEntry_def v_SignedCertificateTimestamp_def sct_input_def v_ptr_def)

lemma typed_ths:
  "length (sth_SHA256RootHash sth) = 32 \<Longrightarrow> has_type T_TreeHeadSignature (v_TreeHeadSignature
     \<lparr>ths_Version = V1, ths_SignatureType = TreeHashSignatureType,
      ths_Timestamp = sth_Timestamp sth, ths_TreeSize = sth_TreeSize sth,
      ths_SHA256RootHash = sth_SHA256RootHash sth\<rparr>)"
  by (simp add: T_TreeHeadSignature_def v_TreeHeadSignature_def kind_uint8_def)

lemma ths_layout:
  "marshal_rec T_TreeHeadSignature v_TreeHeadSignature
     \<lparr>ths_Version = V1, ths_SignatureType = TreeHashSignatureType, ths_Timestamp = ts,
      ths_TreeSize = sz, ths_SHA256RootHash = h\<rparr>
   = Inr (0 # 1 # be_bytes 8 (unat ts) @ be_bytes 8 (unat sz) @ h)"
  by (simp add: marshal_rec_def T_TreeHeadSignature_def v_TreeHeadSignature_def ct_enums ct_eval
      Marshal_eq check_def putCount_def remember_enum_def kind_uint64_def kind_uint8_def
      word_le_nat_alt word_less_nat_alt be_bytes_numeral)

lemma two_enum_prefix:
  assumes "Marshal (TStruct ((n1, ''maxval:255'', TEnum) # (n2, ''maxval:255'', TEnum) # fs))
             (VStruct (VUint a # VUint b # vs)) = Inr bs"
  shows "\<exists>r. bs = ucast a # ucast b # r"
  using assms
  by (auto simp: Marshal_eq DigitallySigned_tags zero_fieldInfo_def result_simps putCount_def
      be_bytes_numeral split: prod.splits if_splits)

lemma sct_input_prefix:
  assumes "marshal_rec T_CertificateTimestamp v_CertificateTimestamp (sct_input sct te) = Inr b"
  shows "\<exists>r. b = 0 # 0 # r"
  using two_enum_prefix [of _ _ _ 0 0 _ b] assms
  by (auto simp: marshal_rec_def T_CertificateTimestamp_def v_CertificateTimestamp_def sct_input_def ct_enums)

text \<open>Layout of an encoded entry inside a larger structure.\<close>

lemma ASN1Cert_layout:
  assumes "d \<noteq> []" "length d < 2 ^ 24"
  shows "marshalField T_ASN1Cert (VStruct [VBytes d]) info = Inr (be_bytes 3 (length d) @ d)"
proof -
  have "unat (of_nat (length d) :: u64) = length d" using assms by (intro unat_of_nat_u64) simp
  then show ?thesis using assms
    by (simp add: T_ASN1Cert_def ct_eval check_def putCount_def kind_uint8_def drop_be_bytes
        word_le_nat_alt word_less_nat_alt Suc_le_eq)
qed

lemma PreCert_layout:
  assumes "d \<noteq> []" "length d < 2 ^ 24"
  shows "marshalField T_PreCert (VStruct [VBytes h, VBytes d]) info = Inr (h @ be_bytes 3 (length d) @ d)"
proof -
  have "unat (of_nat (length d) :: u64) = length d" using assms by (intro unat_of_nat_u64) simp
  then show ?thesis using assms
    by (simp add: T_PreCert_def ct_eval check_def putCount_def kind_uint8_def kind_uint64_def
        remember_enum_def drop_be_bytes word_le_nat_alt word_less_nat_alt Suc_le_eq)
qed

lemma sct_input_layout_x509:
  assumes "d \<noteq> []" "length d < 2 ^ 24" "length ext < 2 ^ 16"
  shows "marshal_rec T_CertificateTimestamp v_CertificateTimestamp
      \<lparr>cts_SCTVersion = 0, cts_SignatureType = 0, cts_Timestamp = ts, cts_EntryType = 0,
       cts_X509Entry = Some \<lparr>cert_Data = d\<rparr>, cts_PrecertEntry = None, cts_JSONEntry = None,
       cts_Extensions = ext\<rparr>
    = Inr (0 # 0 # be_bytes 8 (unat ts) @ 0 # 0 # be_bytes 3 (length d) @ d @ be_bytes 2 (length ext) @ ext)"
proof -
  have "unat (of_nat (length ext) :: u64) = length ext" using assms by (intro unat_of_nat_u64) simp
  then show ?thesis using assms(3) ASN1Cert_layout [OF assms(1,2)]
    by (simp add: marshal_rec_def T_CertificateTimestamp_def v_CertificateTimestamp_def v_ptr_def
        v_ASN1Cert_def Marshal_eq ct_eval check_def putCount_def kind_uint8_def kind_uint64_def
        remember_enum_def note_selector_def word_le_nat_alt word_less_nat_alt be_bytes_numeral)
qed

lemma sct_input_layout_precert:
  assumes "d \<noteq> []" "length d < 2 ^ 24" "length ext < 2 ^ 16"
  shows "marshal_rec T_CertificateTimestamp v_CertificateTimestamp
      \<lparr>cts_SCTVersion = 0, cts_SignatureType = 0, cts_Timestamp = ts, cts_EntryType = 1,
       cts_X509Entry = None, cts_PrecertEntry = Some \<lparr>pre_IssuerKeyHash = h, pre_TBSCertificate = d\<rparr>,
       cts_JSONEntry = None, cts_Extensions = ext\<rparr>
    = Inr (0 # 0 # be_bytes 8 (unat ts) @ 0 # 1 # h @ be_bytes 3 (length d) @ d @
           be_bytes 2 (length ext) @ ext)"
proof -
  have "unat (of_nat (length ext) :: u64) = length ext" using assms by (intro unat_of_nat_u64) simp
  then show ?thesis using assms(3) PreCert_layout [OF assms(1,2)]
    by (simp add: marshal_rec_def T_CertificateTimestamp_def v_CertificateTimestamp_def v_ptr_def
        v_PreCert_def Marshal_eq ct_eval check_def putCount_def kind_uint8_def kind_uint64_def
        remember_enum_def note_selector_def word_le_nat_alt word_less_nat_alt be_bytes_numeral)
qed

lemma RawLogEntry_leaf:
  assumes "unmarshal_all what T_MerkleTreeLeaf of_MerkleTreeLeaf b = Some (Inr leaf)"
  obtains te where "leaf_LeafType leaf = TimestampedEntryLeafType" "leaf_TimestampedEntry leaf = Some te"
    "te_EntryType te = X509LogEntryType \<Longrightarrow> te_X509Entry te \<noteq> None"
    "te_EntryType te = PrecertLogEntryType \<Longrightarrow> te_PrecertEntry te \<noteq> None"
    "te_EntryType te = XJSONLogEntryType \<Longrightarrow> te_JSONEntry te \<noteq> None"
proof -
  have m: "Marshal T_MerkleTreeLeaf (v_MerkleTreeLeaf leaf) = Inr b"
    using assms by (simp add: leaf.unmarshal_all_iff marshal_rec_def)
  show thesis
  proof (cases "leaf_TimestampedEntry leaf")
    case None
    then show ?thesis using m
      by (auto simp: Marshal_eq T_MerkleTreeLeaf_def v_MerkleTreeLeaf_def v_ptr_def ct_eval
          remember_enum_def note_selector_def kind_uint64_def result_simps Let_def split: if_splits)
  next
    case (Some te)
    have "leaf_LeafType leaf = TimestampedEntryLeafType \<and>
       (\<exists>c. marshalField T_TimestampedEntry (v_TimestampedEntry te)
          (Some (zero_fieldInfo\<lparr>fi_selector := ''LeafType'', fi_name := ''TimestampedEntry''\<rparr>)) = Inr c)"
      using m Some
      by (auto simp: Marshal_eq T_MerkleTreeLeaf_def v_MerkleTreeLeaf_def v_ptr_def ct_eval ct_enums
          remember_enum_def note_selector_def kind_uint64_def result_simps Let_def split: if_splits)
    then show ?thesis using Some that
      by (cases "te_X509Entry te"; cases "te_PrecertEntry te"; cases "te_JSONEntry te")
         (auto simp: T_TimestampedEntry_def v_TimestampedEntry_def v_ptr_def ct_eval ct_enums
          remember_enum_def note_selector_def kind_uint64_def result_simps Let_def split: if_splits)
  qed
qed

lemma RawLogEntry_eta:
  "\<lparr>rle_Index = i, rle_Leaf = l, rle_Cert = c, rle_Chain = cs\<rparr> = r \<longleftrightarrow>
     rle_Index r = i \<and> rle_Leaf r = l \<and> rle_Cert r = c \<and> rle_Chain r = cs"
  by (cases r) auto

lemma CertificateChain_eta: "c = \<lparr>chain_Entries = cs\<rparr> \<longleftrightarrow> chain_Entries c = cs"
  by (cases c) simp

lemma PrecertChainEntry_eta:
  "p = \<lparr>pce_PreCertificate = c, pce_CertificateChain = cs\<rparr> \<longleftrightarrow>
     pce_PreCertificate p = c \<and> pce_CertificateChain p = cs"
  by (cases p) simp

lemma Some_Inr_eq: "u = Some (Inr x) \<longleftrightarrow> (\<exists>y. u = Some (Inr y) \<and> y = x)"
  by simp

lemma RawLogEntry_switch_iff:
  "RawLogEntry_switch index entry l = Some (Inr r) \<longleftrightarrow>
     rle_Index r = index \<and> rle_Leaf r = l \<and>
     (\<exists>te. leaf_TimestampedEntry l = Some te \<and>
       (te_EntryType te = X509LogEntryType \<and> te_X509Entry te = Some (rle_Cert r) \<and>
          unmarshal_all ''CertificateChain'' T_CertificateChain of_CertificateChain (lentry_ExtraData entry)
            = Some (Inr \<lparr>chain_Entries = rle_Chain r\<rparr>) \<or>
        te_EntryType te = PrecertLogEntryType \<and>
          unmarshal_all ''PrecertChainEntry'' T_PrecertChainEntry of_PrecertChainEntry (lentry_ExtraData entry)
            = Some (Inr \<lparr>pce_PreCertificate = rle_Cert r, pce_CertificateChain = rle_Chain r\<rparr>)))"
proof (cases "leaf_TimestampedEntry l")
  case (Some te)
  note ev = RawLogEntry_switch_def Some bind_run_Inr RawLogEntry_eta
    Some_Inr_eq [where x = "\<lparr>chain_Entries = rle_Chain r\<rparr>"] CertificateChain_eta
    Some_Inr_eq [where x = "\<lparr>pce_PreCertificate = rle_Cert r, pce_CertificateChain = rle_Chain r\<rparr>"]
    PrecertChainEntry_eta
  consider (x) "te_EntryType te = X509LogEntryType" | (p) "te_EntryType te = PrecertLogEntryType"
    | (o) "te_EntryType te \<noteq> X509LogEntryType" "te_EntryType te \<noteq> PrecertLogEntryType" by blast
  then show ?thesis
  proof cases
    case x
    then show ?thesis using entry_types_distinct by (cases "te_X509Entry te") (auto simp: ev)
  next
    case p
    then show ?thesis using entry_types_distinct by (auto simp: ev)
  next
    case o
    then show ?thesis by (simp add: RawLogEntry_switch_def Some)
  qed
qed (simp add: RawLogEntry_switch_def)

lemma RawLogEntry_switch_returns:
  assumes "leaf_TimestampedEntry l = Some te" and "te_EntryType te = X509LogEntryType \<Longrightarrow> te_X509Entry te \<noteq> None"
  shows "\<exists>res. RawLogEntry_switch index entry l = Some res \<and> res \<noteq> Inl CtPanic"
proof -
  obtain cr where "unmarshal_all ''CertificateChain'' T_CertificateChain of_CertificateChain
      (lentry_ExtraData entry) = Some cr" "cr \<noteq> Inl CtPanic" using chain.unmarshal_all_returns by blast
  moreover obtain pr where "unmarshal_all ''PrecertChainEntry'' T_PrecertChainEntry of_PrecertChainEntry
      (lentry_ExtraData entry) = Some pr" "pr \<noteq> Inl CtPanic" using pchain.unmarshal_all_returns by blast
  ultimately show ?thesis using assms
    by (cases cr; cases pr; cases "te_X509Entry te") (auto simp: RawLogEntry_switch_def)
qed

lemma ToLogEntry_no_panic:
  assumes "leaf_TimestampedEntry (rle_Leaf rle) = Some te"
    and "te_EntryType te = X509LogEntryType \<Longrightarrow> te_X509Entry te \<noteq> None"
    and "te_EntryType te = PrecertLogEntryType \<Longrightarrow> te_PrecertEntry te \<noteq> None"
  shows "ToLogEntry ParseCertificate ParseTBSCertificate rle \<noteq> Inl CtPanic"
proof -
  consider (x) "te_EntryType te = X509LogEntryType" | (p) "te_EntryType te = PrecertLogEntryType"
    | (o) "te_EntryType te \<noteq> X509LogEntryType" "te_EntryType te \<noteq> PrecertLogEntryType" by blast
  then show ?thesis
  proof cases
    case x
    then show ?thesis using assms(2)
      by (auto simp: ToLogEntry_def X509Certificate_def assms(1) Let_def split: prod.splits if_splits)
  next
    case p
    then show ?thesis using assms(3) entry_types_distinct
      by (auto simp: ToLogEntry_def leaf_Precertificate_def assms(1) Let_def split: prod.splits if_splits)
  next
    case o
    then show ?thesis by (simp add: ToLogEntry_def assms(1) Let_def)
  qed
qed

text \<open>The entry part of the signed data, as RFC 6962 section 3.2 lays it out.\<close>

definition signed_entry_bytes :: "TimestampedEntry \<Rightarrow> bytes option" where
  "signed_entry_bytes te =
     (if te_EntryType te = X509LogEntryType then
        (case te_X509Entry te of
           Some x \<Rightarrow> if cert_Data x \<noteq> [] \<and> length (cert_Data x) < 2 ^ 24
                     then Some (be_bytes 3 (length (cert_Data x)) @ cert_Data x) else None
         | None \<Rightarrow> None)
      else if te_EntryType te = PrecertLogEntryType then
        (case te_PrecertEntry te of
           Some p \<Rightarrow> if pre_TBSCertificate p \<noteq> [] \<and> length (pre_TBSCertificate p) < 2 ^ 24
                     then Some (pre_IssuerKeyHash p @ be_bytes 3 (length (pre_TBSCertificate p)) @
                                pre_TBSCertificate p) else None
         | None \<Rightarrow> None)
      else None)"

section \<open>Properties\<close>

text \<open>
  The data that an SCT signs has the layout of RFC 6962 section 3.2: version, signature type,
  timestamp, entry type, the length-prefixed certificate or the issuer key hash and the
  length-prefixed TBSCertificate, and the length-prefixed extensions.
\<close>

theorem SCT_signature_input_layout:
  assumes "sct_SCTVersion sct = V1" and "leaf_TimestampedEntry (le_Leaf entry) = Some te"
    and "signed_entry_bytes te = Some e" and "length (sct_Extensions sct) < 2 ^ 16"
  shows "SerializeSCTSignatureInput sct entry =
    Inr ([0, 0] @ be_bytes 8 (unat (sct_Timestamp sct)) @ be_bytes 2 (unat (te_EntryType te)) @ e @
         be_bytes 2 (length (sct_Extensions sct)) @ sct_Extensions sct)"
proof (cases "te_EntryType te = X509LogEntryType")
  case True
  then obtain d where d: "te_X509Entry te = Some \<lparr>cert_Data = d\<rparr>" "d \<noteq> []" "length d < 2 ^ 24"
    "e = be_bytes 3 (length d) @ d"
    using assms(3) by (auto simp: signed_entry_bytes_def split: option.splits if_splits)
      (metis ASN1Cert.surjective old.unit.exhaust)
  then show ?thesis using sct_input_layout_x509 [OF d(2,3) assms(4)] assms True
    by (simp add: SerializeSCT_Inr sct_input_def ct_enums be_bytes_numeral)
next
  case False
  then obtain h d where d: "te_PrecertEntry te = Some \<lparr>pre_IssuerKeyHash = h, pre_TBSCertificate = d\<rparr>"
    "d \<noteq> []" "length d < 2 ^ 24" "e = h @ be_bytes 3 (length d) @ d" "te_EntryType te = PrecertLogEntryType"
    using assms(3) by (auto simp: signed_entry_bytes_def split: option.splits if_splits)
      (metis PreCert_copy)
  then show ?thesis using sct_input_layout_precert [OF d(2,3) assms(4)] assms False
    by (simp add: SerializeSCT_Inr sct_input_def ct_enums be_bytes_numeral)
qed

text \<open>
  Every STH that \<^verbatim>\<open>SerializeSTHSignatureInput\<close> accepts is signed as 50 bytes: version, signature
  type, timestamp, tree size and root hash; other versions and hash lengths are errors.
\<close>

theorem STH_signature_input_layout:
  "SerializeSTHSignatureInput sth =
     (if sth_Version sth \<noteq> V1 then Inl (UnsupportedVersion (sth_Version sth))
      else if length (sth_SHA256RootHash sth) \<noteq> 32 then Inl (BadLength (length (sth_SHA256RootHash sth)))
      else Inr ([0, 1] @ be_bytes 8 (unat (sth_Timestamp sth)) @ be_bytes 8 (unat (sth_TreeSize sth)) @
                sth_SHA256RootHash sth))"
  by (simp add: SerializeSTHSignatureInput_def marshal_ct_def ths_layout)

text \<open>
  (C18) The signed data determines what is signed: two SCTs over entries whose inputs coincide have the
  same timestamp and extensions, and sign the same entry; and the input of an SCT is never the input
  of an STH.
\<close>

theorem SCT_signature_input_injective:
  assumes "typed_sct s" and "typed_leaf (le_Leaf e)" and "typed_sct s'" and "typed_leaf (le_Leaf e')"
    and "SerializeSCTSignatureInput s e = Inr b" and "SerializeSCTSignatureInput s' e' = Inr b"
  shows "SerializeSTHSignatureInput sth \<noteq> Inr b \<and>
    (\<exists>te te'. leaf_TimestampedEntry (le_Leaf e) = Some te \<and> leaf_TimestampedEntry (le_Leaf e') = Some te' \<and>
       sct_input s te = sct_input s' te')"
proof -
  obtain te te' where
      te: "leaf_TimestampedEntry (le_Leaf e) = Some te"
        "marshal_rec T_CertificateTimestamp v_CertificateTimestamp (sct_input s te) = Inr b"
    and te': "leaf_TimestampedEntry (le_Leaf e') = Some te'"
        "marshal_rec T_CertificateTimestamp v_CertificateTimestamp (sct_input s' te') = Inr b"
    using assms(5,6) by (auto simp: SerializeSCT_Inr)
  have "sct_input s te = sct_input s' te'"
    using cts.rec.enc_inj [OF typed_sct_input [OF assms(1,2) te(1)]
        typed_sct_input [OF assms(3,4) te'(1)] te(2) te'(2)] .
  moreover have "SerializeSTHSignatureInput sth \<noteq> Inr b"
    using sct_input_prefix [OF te(2)] by (auto simp: SerializeSTH_Inr ths_layout)
  ultimately show ?thesis using te(1) te'(1) by blast
qed

text \<open>
  Two different leaves with the same leaf hash exhibit a collision of SHA-256.
\<close>

theorem LeafHash_collision:
  assumes "typed_leaf l" and "typed_leaf l'" and "l \<noteq> l'"
    and "LeafHashForLeaf sha256 l = Inr h" and "LeafHashForLeaf sha256 l' = Inr h"
  shows "\<exists>x y. x \<noteq> y \<and> sha256 (TreeLeafPrefix # x) = sha256 (TreeLeafPrefix # y) \<and>
     Marshal T_MerkleTreeLeaf (v_MerkleTreeLeaf l) = Inr x \<and>
     Marshal T_MerkleTreeLeaf (v_MerkleTreeLeaf l') = Inr y"
proof -
  obtain x y where x: "marshal_rec T_MerkleTreeLeaf v_MerkleTreeLeaf l = Inr x" "h = sha256 (TreeLeafPrefix # x)"
    and y: "marshal_rec T_MerkleTreeLeaf v_MerkleTreeLeaf l' = Inr y" "h = sha256 (TreeLeafPrefix # y)"
    using assms(4,5) by (auto simp: LeafHashForLeaf_def result_simps leaf.marshal_ct_iff)
  have "x \<noteq> y"
    using leaf.rec.enc_inj [OF assms(1,2) [unfolded typed_leaf_def] x(1)] y(1) assms(3) by auto
  then show ?thesis using x y by (auto simp: marshal_rec_def)
qed

text \<open>
  (C30) Reading an entry is exact: \<^verbatim>\<open>RawLogEntryFromLeaf\<close> returns an entry just when the leaf input is
  the encoding of its leaf and the extra data the encoding of its chain (with the submitted
  precertificate, for a precertificate entry).
\<close>

theorem RawLogEntryFromLeaf_iff:
  "RawLogEntryFromLeaf index entry = Some (Inr r) \<longleftrightarrow>
     rle_Index r = index \<and> typed_leaf (rle_Leaf r) \<and>
     Marshal T_MerkleTreeLeaf (v_MerkleTreeLeaf (rle_Leaf r)) = Inr (lentry_LeafInput entry) \<and>
     (\<exists>te. leaf_TimestampedEntry (rle_Leaf r) = Some te \<and>
       (te_EntryType te = X509LogEntryType \<and> te_X509Entry te = Some (rle_Cert r) \<and>
          unmarshal_all ''CertificateChain'' T_CertificateChain of_CertificateChain (lentry_ExtraData entry)
            = Some (Inr \<lparr>chain_Entries = rle_Chain r\<rparr>) \<or>
        te_EntryType te = PrecertLogEntryType \<and>
          unmarshal_all ''PrecertChainEntry'' T_PrecertChainEntry of_PrecertChainEntry (lentry_ExtraData entry)
            = Some (Inr \<lparr>pce_PreCertificate = rle_Cert r, pce_CertificateChain = rle_Chain r\<rparr>)))"
proof -
  have "unmarshal_all ''MerkleTreeLeaf'' T_MerkleTreeLeaf of_MerkleTreeLeaf (lentry_LeafInput entry)
      = Some (Inr l) \<longleftrightarrow> typed_leaf l \<and> Marshal T_MerkleTreeLeaf (v_MerkleTreeLeaf l) = Inr (lentry_LeafInput entry)"
    for l by (simp add: leaf.unmarshal_all_iff marshal_rec_def typed_leaf_def)
  then show ?thesis
    unfolding RawLogEntryFromLeaf_def bind_run_Inr RawLogEntry_switch_iff by blast
qed

text \<open>
  (C31) Reading an entry from a log never panics and always returns, whatever the bytes are and
  whatever the certificate parsers return.
\<close>

theorem LogEntryFromLeaf_returns:
  "\<exists>res. LogEntryFromLeaf ParseCertificate ParseTBSCertificate index entry = Some res \<and> res \<noteq> Inl CtPanic"
proof -
  obtain res where u: "unmarshal_all ''MerkleTreeLeaf'' T_MerkleTreeLeaf of_MerkleTreeLeaf
      (lentry_LeafInput entry) = Some res" "res \<noteq> Inl CtPanic" using leaf.unmarshal_all_returns by blast
  show ?thesis
  proof (cases res)
    case (Inl e)
    then show ?thesis using u by (simp add: LogEntryFromLeaf_def RawLogEntryFromLeaf_def)
  next
    case (Inr l)
    obtain te where te: "leaf_TimestampedEntry l = Some te"
      "te_EntryType te = X509LogEntryType \<Longrightarrow> te_X509Entry te \<noteq> None"
      "te_EntryType te = PrecertLogEntryType \<Longrightarrow> te_PrecertEntry te \<noteq> None"
      using u(1) unfolding Inr by (rule RawLogEntry_leaf) blast
    obtain cres where c: "RawLogEntry_switch index entry l = Some cres" "cres \<noteq> Inl CtPanic"
      using RawLogEntry_switch_returns [OF te(1,2)] by blast
    have "ToLogEntry ParseCertificate ParseTBSCertificate rle \<noteq> Inl CtPanic" if "cres = Inr rle" for rle
      using c(1) that te ToLogEntry_no_panic [of rle te ParseCertificate ParseTBSCertificate]
      by (simp add: RawLogEntry_switch_iff)
    then show ?thesis using u c Inr
      by (cases cres) (simp_all add: LogEntryFromLeaf_def RawLogEntryFromLeaf_def)
  qed
qed


text \<open>
  \<^verbatim>\<open>TimestampToTime\<close> is exact: no conversion to \<^verbatim>\<open>int64\<close> in it overflows, for any timestamp.
\<close>

theorem TimestampToTime_exact: "TimestampToTime ts = int (unat ts) * 1000000"
proof -
  have "unat (ts div 1000) = unat ts div 1000" "unat (ts mod 1000) = unat ts mod 1000"
    by (simp_all add: unat_div unat_mod)
  moreover have "unat ts < 2 ^ 64" using unsigned_less [of ts] by simp
  ultimately have s: "sint (ts div 1000) = int (unat ts div 1000)"
    and m: "unat (ts mod 1000 * 1000000) = unat ts mod 1000 * 1000000"
    using sint_small [of "ts div 1000"] by (simp_all add: unat_word_ariths)
  have "sint (ts mod 1000 * 1000000) = int (unat ts mod 1000 * 1000000)"
    using sint_small [of "ts mod 1000 * 1000000"] m
      mod_less_divisor [of 1000 "unat ts"] by simp
  moreover have "int (unat ts) = 1000 * int (unat ts div 1000) + int (unat ts mod 1000)"
    by (metis mult_div_mod_eq of_nat_add of_nat_mult of_nat_numeral)
  ultimately show ?thesis using s by (simp add: TimestampToTime_def del: of_nat_unat)
qed

section \<open>Witnesses\<close>

definition demo_sct :: "u64 \<Rightarrow> SignedCertificateTimestamp" where
  "demo_sct ts = \<lparr>sct_SCTVersion = 0, sct_LogID = replicate 32 1, sct_Timestamp = ts, sct_Extensions = [],
     sct_Signature = \<lparr>ds_Algorithm = \<lparr>sha_Hash = 4, sha_Signature = 3\<rparr>, ds_Signature = []\<rparr>\<rparr>"

definition demo_entry :: "bytes \<Rightarrow> LogEntry" where
  "demo_entry d = \<lparr>le_Index = 0, le_Leaf = CreateX509MerkleTreeLeaf \<lparr>cert_Data = d\<rparr> 7,
     le_X509Cert = None, le_Precert = None, le_JSONData = [], le_Chain = []\<rparr>"

lemmas demo_ct = demo_sct_def demo_entry_def CreateX509MerkleTreeLeaf_def zero_TimestampedEntry_def ct_enums

lemma typed_demo:
  "typed_sct (demo_sct ts)" "typed_leaf (CreateX509MerkleTreeLeaf \<lparr>cert_Data = [d]\<rparr> ts)"
  "typed_leaf (le_Leaf (demo_entry [d]))"
  by (simp_all add: typed_sct_def typed_leaf_def demo_ct ct_type_defs v_SignedCertificateTimestamp_def
      v_DigitallySigned_def v_MerkleTreeLeaf_def v_TimestampedEntry_def v_ptr_def v_ASN1Cert_def
      kind_uint8_def)

theorem SCT_signature_input_layout_witness:
  "SerializeSCTSignatureInput (demo_sct 5) (demo_entry [9])
     = Inr [0, 0, 0, 0, 0, 0, 0, 0, 0, 5, 0, 0, 0, 0, 1, 9, 0, 0]"
  using SCT_signature_input_layout [of "demo_sct 5" "demo_entry [9]"]
  by (simp add: demo_ct signed_entry_bytes_def be_bytes_numeral)

lemma demo_SerializeSCT:
  "SerializeSCTSignatureInput (demo_sct 5) (demo_entry [9])
     = Inr [0, 0, 0, 0, 0, 0, 0, 0, 0, 5, 0, 0, 0, 0, 1, 9, 0, 0]"
  by (simp add: SerializeSCT_Inr sct_input_def demo_ct sct_input_layout_x509 be_bytes_numeral)

definition demo_sth :: SignedTreeHead where
  "demo_sth = \<lparr>sth_Version = 0, sth_TreeSize = 1, sth_Timestamp = 2, sth_SHA256RootHash = replicate 32 0,
     sth_TreeHeadSignature = sct_Signature (demo_sct 5), sth_LogID = replicate 32 0\<rparr>"

theorem SCT_signature_input_injective_witness:
  "SerializeSTHSignatureInput demo_sth \<noteq> Inr [0, 0, 0, 0, 0, 0, 0, 0, 0, 5, 0, 0, 0, 0, 1, 9, 0, 0]"
  using SCT_signature_input_injective [OF typed_demo(1) typed_demo(3) typed_demo(1) typed_demo(3)
    demo_SerializeSCT demo_SerializeSCT] by blast

lemma demo_leaf_hash:
  "LeafHashForLeaf (\<lambda>_. [0]) (CreateX509MerkleTreeLeaf \<lparr>cert_Data = [d]\<rparr> 1) = Inr [0]"
  by (simp add: LeafHashForLeaf_def marshal_ct_def marshal_rec_def v_MerkleTreeLeaf_def v_ptr_def
      v_TimestampedEntry_def v_ASN1Cert_def demo_ct ct_type_defs ct_eval codec_eval)

theorem LeafHash_collision_witness:
  "\<exists>x y. x \<noteq> y \<and> (\<lambda>_. [0 :: byte]) (TreeLeafPrefix # x) = (\<lambda>_. [0]) (TreeLeafPrefix # y) \<and>
     Marshal T_MerkleTreeLeaf (v_MerkleTreeLeaf (CreateX509MerkleTreeLeaf \<lparr>cert_Data = [1]\<rparr> 1)) = Inr x \<and>
     Marshal T_MerkleTreeLeaf (v_MerkleTreeLeaf (CreateX509MerkleTreeLeaf \<lparr>cert_Data = [2]\<rparr> 1)) = Inr y"
  by (rule LeafHash_collision [OF typed_demo(2) typed_demo(2) _ demo_leaf_hash demo_leaf_hash])
     (simp add: demo_ct)


end
