(* ===== verification/Range_Tracker.thy ===== *)
theory Range_Tracker
  imports CT_Prelude "HOL-Library.Multiset"
begin

text \<open>
  \<^verbatim>\<open>src/ingestor/ranges/tracker.go\<close>: tracking how much of a range of indices has been covered by
  sub-ranges added in any order. The \<^verbatim>\<open>int64\<close> indices are integers, with the one addition that can
  wrap written out. \<^verbatim>\<open>sort.Sort\<close> orders by the first index; recorded sub-ranges have different first
  indices, so every sorting algorithm gives the list that \<open>sort_key\<close> gives. The printing functions are
  left out.
\<close>

record subRange =
  sr_first :: int
  sr_last :: int

record watermarks =
  wm_lo :: int
  wm_mid :: int
  wm_hi :: int

record Tracker =
  tr_start :: int
  tr_end :: int
  tr_wm :: watermarks
  tr_subRanges :: "subRange list"
  tr_startTime :: int

datatype tracker_err =
    StartAfterEnd | NegativeStart | InvertedSubRange | OutsideRange | Overlapping subRange

definition MaxInt64 :: int where
  "MaxInt64 = 2 ^ 63 - 1"

text \<open>The two loops of \<^verbatim>\<open>update\<close>; the state of the second is \<^verbatim>\<open>(mid, nextLo)\<close>.\<close>

definition update_lo_hi :: "subRange list \<Rightarrow> int \<times> int" where
  "update_lo_hi srs =
     foldl (\<lambda>(lo, hi) sr. (if sr_first sr < lo then sr_first sr else lo,
                           if sr_last sr > hi then sr_last sr else hi)) (MaxInt64, -1) srs"

definition update_mid :: "int \<times> int \<Rightarrow> subRange list \<Rightarrow> int \<times> int" where
  "update_mid st srs =
     foldl (\<lambda>(mid, nextLo) sr.
              if sr_first sr = nextLo then (sr_last sr, wrap64 (sr_last sr + 1)) else (mid, nextLo)) st srs"

definition wm_update :: "int \<Rightarrow> subRange list \<Rightarrow> watermarks" where
  "wm_update start srs =
     (let (lo, hi) = update_lo_hi srs;
          mid = (if lo = start then fst (update_mid (-1, lo) srs) else -1)
      in \<lparr>wm_lo = lo, wm_mid = mid, wm_hi = hi\<rparr>)"

definition NewTracker :: "int \<Rightarrow> int \<Rightarrow> int \<Rightarrow> tracker_err + Tracker" where
  "NewTracker now start end1 =
     (if start > end1 then Inl StartAfterEnd
      else if start < 0 then Inl NegativeStart
      else Inr \<lparr>tr_start = start, tr_end = end1, tr_wm = \<lparr>wm_lo = -1, wm_mid = -1, wm_hi = -1\<rparr>,
                tr_subRanges = [], tr_startTime = now\<rparr>)"

definition collides :: "int \<Rightarrow> int \<Rightarrow> subRange \<Rightarrow> bool" where
  "collides first last1 sr \<longleftrightarrow>
     sr_first sr \<le> first \<and> first \<le> sr_last sr \<or> sr_first sr \<le> last1 \<and> last1 \<le> sr_last sr"

definition AddSubRange :: "Tracker \<Rightarrow> int \<Rightarrow> int \<Rightarrow> tracker_err + Tracker" where
  "AddSubRange rt first last1 =
     (if last1 < first then Inl InvertedSubRange
      else if first < tr_start rt \<or> last1 > tr_end rt then Inl OutsideRange
      else (case find (collides first last1) (tr_subRanges rt) of
          Some sr \<Rightarrow> Inl (Overlapping sr)
        | None \<Rightarrow>
            let srs = sort_key sr_first (tr_subRanges rt @ [\<lparr>sr_first = first, sr_last = last1\<rparr>])
            in Inr (rt\<lparr>tr_subRanges := srs, tr_wm := wm_update (tr_start rt) srs\<rparr>)))"

definition IsPartiallyComplete :: "Tracker \<Rightarrow> bool" where
  "IsPartiallyComplete rt \<longleftrightarrow> wm_mid (tr_wm rt) \<ge> 0"

definition IsComplete :: "Tracker \<Rightarrow> bool" where
  "IsComplete rt \<longleftrightarrow>
     IsPartiallyComplete rt \<and> wm_mid (tr_wm rt) = wm_hi (tr_wm rt) \<and> wm_hi (tr_wm rt) = tr_end rt"

definition PartiallyCompleteUpto :: "Tracker \<Rightarrow> int" where
  "PartiallyCompleteUpto rt = wm_mid (tr_wm rt)"

section \<open>Specification\<close>

text \<open>The indices covered so far, and the trackers that the package can produce.\<close>

definition covered :: "subRange list \<Rightarrow> int set" where
  "covered srs = (\<Union>sr\<in>set srs. {sr_first sr..sr_last sr})"

inductive tracked :: "Tracker \<Rightarrow> bool" where
  new: "NewTracker now start end1 = Inr rt \<Longrightarrow> end1 \<le> MaxInt64 \<Longrightarrow> tracked rt"
| add: "tracked rt \<Longrightarrow> AddSubRange rt first last1 = Inr rt' \<Longrightarrow> tracked rt'"

text \<open>Two recorded sub-ranges are disjoint, or one is strictly inside the other.\<close>

definition separate :: "subRange \<Rightarrow> subRange \<Rightarrow> bool" where
  "separate a b \<longleftrightarrow>
     sr_last a < sr_first b \<or> sr_last b < sr_first a \<or>
     sr_first a < sr_first b \<and> sr_last b < sr_last a \<or>
     sr_first b < sr_first a \<and> sr_last a < sr_last b"

definition srs_inv :: "int \<Rightarrow> int \<Rightarrow> subRange list \<Rightarrow> bool" where
  "srs_inv start end1 srs \<longleftrightarrow>
     0 \<le> start \<and> start \<le> end1 \<and> end1 \<le> MaxInt64 \<and>
     sorted_wrt (\<lambda>a b. sr_first a < sr_first b) srs \<and>
     (\<forall>a\<in>set srs. start \<le> sr_first a \<and> sr_first a \<le> sr_last a \<and> sr_last a \<le> end1) \<and>
     (\<forall>a\<in>set srs. \<forall>b\<in>set srs. a \<noteq> b \<longrightarrow> separate a b)"

definition tracker_inv :: "Tracker \<Rightarrow> bool" where
  "tracker_inv rt \<longleftrightarrow>
     srs_inv (tr_start rt) (tr_end rt) (tr_subRanges rt) \<and>
     (if tr_subRanges rt = [] then tr_wm rt = \<lparr>wm_lo = -1, wm_mid = -1, wm_hi = -1\<rparr>
      else tr_wm rt = wm_update (tr_start rt) (tr_subRanges rt))"

section \<open>Lemmas\<close>

lemma not_collides_separate:
  "\<not> collides f l sr \<Longrightarrow> f \<le> l \<Longrightarrow> sr_first sr \<le> sr_last sr \<Longrightarrow>
     separate sr \<lparr>sr_first = f, sr_last = l\<rparr> \<and> sr \<noteq> \<lparr>sr_first = f, sr_last = l\<rparr> \<and> sr_first sr \<noteq> f"
  by (auto simp: collides_def separate_def)

lemma separate_sym: "separate a b \<longleftrightarrow> separate b a"
  by (auto simp: separate_def)

lemma sorted_wrt_sort_key:
  fixes f :: "'a \<Rightarrow> 'b::linorder"
  assumes "distinct (map f xs)"
  shows "sorted_wrt (\<lambda>a b. f a < f b) (sort_key f xs)"
proof -
  have "mset (map f (sort_key f xs)) = mset (map f xs)" by simp
  then have "distinct (map f (sort_key f xs))" using assms by (metis mset_eq_imp_distinct_iff)
  then have "sorted_wrt (<) (map f (sort_key f xs))"
    by (simp add: strict_sorted_iff)
  then show ?thesis by (simp add: sorted_wrt_map)
qed

lemma srs_inv_distinct: "srs_inv s e srs \<Longrightarrow> distinct (map sr_first srs)"
  unfolding srs_inv_def using strict_sorted_iff sorted_wrt_map by metis

lemma srs_inv_add:
  assumes inv: "srs_inv s e srs" and ord: "f \<le> l" "s \<le> f" "l \<le> e"
    and nc: "\<forall>sr\<in>set srs. \<not> collides f l sr"
  shows "srs_inv s e (sort_key sr_first (srs @ [\<lparr>sr_first = f, sr_last = l\<rparr>]))"
proof -
  let ?n = "\<lparr>sr_first = f, sr_last = l\<rparr>"
  have sep: "separate sr ?n" "sr_first sr \<noteq> f" if "sr \<in> set srs" for sr
    using not_collides_separate [of f l sr] nc ord that inv unfolding srs_inv_def by auto
  have "distinct (map sr_first (srs @ [?n]))"
    using srs_inv_distinct [OF inv] sep(2) by auto
  from sorted_wrt_sort_key [OF this]
  show ?thesis using inv ord sep(1) separate_sym unfolding srs_inv_def by auto
qed

lemma update_lo_hi_bounds:
  "fst (update_lo_hi srs) \<le> MaxInt64 \<and> -1 \<le> snd (update_lo_hi srs) \<and>
   (\<forall>sr\<in>set srs. fst (update_lo_hi srs) \<le> sr_first sr \<and> sr_last sr \<le> snd (update_lo_hi srs)) \<and>
   (fst (update_lo_hi srs) = MaxInt64 \<or> (\<exists>sr\<in>set srs. sr_first sr = fst (update_lo_hi srs))) \<and>
   (snd (update_lo_hi srs) = -1 \<or> (\<exists>sr\<in>set srs. sr_last sr = snd (update_lo_hi srs)))"
proof (induction srs rule: rev_induct)
  case Nil
  then show ?case by (simp add: update_lo_hi_def)
next
  case (snoc x xs)
  have "update_lo_hi (xs @ [x]) =
    (if sr_first x < fst (update_lo_hi xs) then sr_first x else fst (update_lo_hi xs),
     if sr_last x > snd (update_lo_hi xs) then sr_last x else snd (update_lo_hi xs))"
    by (simp add: update_lo_hi_def case_prod_unfold)
  then show ?case using snoc by fastforce
qed

lemma wrap64_succ: "0 \<le> m \<Longrightarrow> m \<le> MaxInt64 \<Longrightarrow> wrap64 (m + 1) = (if m = MaxInt64 then - (2 ^ 63) else m + 1)"
  by (auto simp: MaxInt64_def wrap64_def)

text \<open>The invariant of the second loop of \<^verbatim>\<open>update\<close>.\<close>

definition walk_inv :: "int \<Rightarrow> int \<Rightarrow> subRange list \<Rightarrow> int \<times> int \<Rightarrow> bool" where
  "walk_inv start end1 xs st \<longleftrightarrow>
     (st = (-1, start) \<or> start \<le> fst st \<and> fst st \<le> end1 \<and> snd st = wrap64 (fst st + 1)) \<and>
     (\<forall>z. start \<le> z \<and> z \<le> fst st \<longrightarrow> (\<exists>c\<in>set xs. sr_first c \<le> z \<and> z \<le> sr_last c \<and> sr_last c \<le> fst st)) \<and>
     (\<forall>y\<in>set xs. sr_first y \<noteq> snd st)"

lemma walk_step:
  assumes inv: "walk_inv s e xs (mid, nextLo)" and bounds: "0 \<le> s" "e \<le> MaxInt64"
    and x: "s \<le> sr_first x" "sr_first x \<le> sr_last x" "sr_last x \<le> e"
    and lt: "\<forall>y\<in>set xs. s \<le> sr_first y \<and> sr_first y < sr_first x"
  shows "walk_inv s e (xs @ [x])
     (if sr_first x = nextLo then (sr_last x, wrap64 (sr_last x + 1)) else (mid, nextLo))"
proof (cases "sr_first x = nextLo")
  case False
  then show ?thesis using inv by (auto simp: walk_inv_def)
next
  case True
  have mid: "nextLo = mid + 1 \<or> mid = -1 \<and> nextLo = s"
    using inv True x bounds wrap64_succ [of mid] by (auto simp: walk_inv_def split: if_splits)
  have "wrap64 (sr_last x + 1) > sr_last x \<or> wrap64 (sr_last x + 1) < 0"
    using wrap64_succ [of "sr_last x"] x bounds by auto
  then have ne: "\<forall>y\<in>set (xs @ [x]). sr_first y \<noteq> wrap64 (sr_last x + 1)"
    using lt x bounds by fastforce
  have "\<exists>c\<in>set (xs @ [x]). sr_first c \<le> z \<and> z \<le> sr_last c \<and> sr_last c \<le> sr_last x"
    if z: "s \<le> z" "z \<le> sr_last x" for z
  proof (cases "z \<le> mid")
    case True
    then obtain c where "c \<in> set xs" "sr_first c \<le> z" "z \<le> sr_last c" "sr_last c \<le> mid"
      using inv z(1) by (auto simp: walk_inv_def)
    then show ?thesis using mid x True \<open>sr_first x = nextLo\<close> z bounds by (intro bexI [of _ c]) auto
  next
    case False
    then show ?thesis using mid z \<open>sr_first x = nextLo\<close> by (intro bexI [of _ x]) auto
  qed
  then show ?thesis using True x ne by (simp add: walk_inv_def)
qed

lemma walk_all:
  assumes "srs_inv s e srs"
  shows "walk_inv s e srs (update_mid (-1, s) srs)"
  using assms
proof (induction srs rule: rev_induct)
  case Nil
  then show ?case by (auto simp: walk_inv_def update_mid_def srs_inv_def)
next
  case (snoc x xs)
  have inv: "srs_inv s e xs" using snoc.prems by (auto simp: srs_inv_def sorted_wrt_append)
  obtain mid nextLo where st: "update_mid (-1, s) xs = (mid, nextLo)" by fastforce
  have "walk_inv s e (xs @ [x])
     (if sr_first x = nextLo then (sr_last x, wrap64 (sr_last x + 1)) else (mid, nextLo))"
    using snoc.prems snoc.IH [OF inv] st
    by (intro walk_step) (auto simp: srs_inv_def sorted_wrt_append)
  then show ?case using st by (simp add: update_mid_def)
qed

lemma covered_iff: "z \<in> covered srs \<longleftrightarrow> (\<exists>c\<in>set srs. sr_first c \<le> z \<and> z \<le> sr_last c)"
  by (auto simp: covered_def)

text \<open>What the middle watermark says about the covered indices.\<close>

definition mid_spec :: "int \<Rightarrow> int \<Rightarrow> int set \<Rightarrow> int \<Rightarrow> bool" where
  "mid_spec start end1 U m \<longleftrightarrow>
     (if start \<in> U then start \<le> m \<and> m \<le> end1 \<and> {start..m} \<subseteq> U \<and> m + 1 \<notin> U else m = -1)"

lemma walk_mid_spec:
  assumes inv: "srs_inv s e srs" and start: "s \<in> covered srs"
  shows "mid_spec s e (covered srs) (fst (update_mid (-1, s) srs))"
proof -
  obtain m n where st: "update_mid (-1, s) srs = (m, n)" by fastforce
  have w: "walk_inv s e srs (m, n)" using walk_all [OF inv] st by simp
  obtain c where "c \<in> set srs" "sr_first c = s"
    using start inv by (fastforce simp: covered_iff srs_inv_def)
  then have m: "s \<le> m" "m \<le> e" "n = wrap64 (m + 1)" using w by (auto simp: walk_inv_def)
  have sub: "{s..m} \<subseteq> covered srs" using w by (fastforce simp: walk_inv_def covered_iff)
  have "m + 1 \<notin> covered srs"
  proof
    assume "m + 1 \<in> covered srs"
    then obtain y where y: "y \<in> set srs" "sr_first y \<le> m + 1" "m + 1 \<le> sr_last y" by (auto simp: covered_iff)
    then have "n = m + 1" using m inv wrap64_succ [of m] by (fastforce simp: srs_inv_def)
    then have "sr_first y \<le> m" "s \<le> sr_first y" using y w inv by (fastforce simp: walk_inv_def srs_inv_def)+
    then obtain d where d: "d \<in> set srs" "sr_first d \<le> sr_first y" "sr_first y \<le> sr_last d" "sr_last d \<le> m"
      using w by (auto simp: walk_inv_def)
    then have "d \<noteq> y" using y by auto
    then have "separate d y" using inv d(1) y(1) by (auto simp: srs_inv_def)
    then show False using d y by (auto simp: separate_def)
  qed
  then show ?thesis using st m sub start by (simp add: mid_spec_def)
qed

lemma wm_update_spec:
  assumes inv: "srs_inv s e srs"
  shows "mid_spec s e (covered srs) (wm_mid (wm_update s srs))"
    and "srs \<noteq> [] \<Longrightarrow> (\<forall>z\<in>covered srs. z \<le> wm_hi (wm_update s srs)) \<and> wm_hi (wm_update s srs) \<in> covered srs"
proof -
  obtain lo hi where lh: "update_lo_hi srs = (lo, hi)" by fastforce
  note b = update_lo_hi_bounds [of srs, unfolded lh fst_conv snd_conv]
  have "s \<in> covered srs \<longleftrightarrow> lo = s" if ne: "srs \<noteq> []"
  proof
    assume "s \<in> covered srs"
    then obtain c where "c \<in> set srs" "sr_first c = s" using inv by (fastforce simp: covered_iff srs_inv_def)
    moreover have "s \<le> lo" using b inv by (fastforce simp: srs_inv_def)
    ultimately show "lo = s" using b by force
  next
    assume "lo = s"
    obtain x where x: "x \<in> set srs" using ne by (cases srs) auto
    have "sr_first x \<le> MaxInt64" using x inv by (fastforce simp: srs_inv_def)
    then have "\<exists>c\<in>set srs. sr_first c = s" using b \<open>lo = s\<close> x inv by (fastforce simp: srs_inv_def)
    then show "s \<in> covered srs" using inv by (fastforce simp: covered_iff srs_inv_def)
  qed
  moreover have "mid_spec s e (covered []) (wm_mid (wm_update s []))"
    by (simp add: mid_spec_def covered_def wm_update_def update_lo_hi_def update_mid_def)
  ultimately show "mid_spec s e (covered srs) (wm_mid (wm_update s srs))"
    using walk_mid_spec [OF inv] by (cases "srs = []") (auto simp: wm_update_def lh mid_spec_def)
  assume "srs \<noteq> []"
  then obtain x where x: "x \<in> set srs" by (cases srs) auto
  then have "0 \<le> sr_last x" "sr_last x \<le> hi" using b inv by (auto simp: srs_inv_def)
  then have "hi \<noteq> -1" by simp
  then show "(\<forall>z\<in>covered srs. z \<le> wm_hi (wm_update s srs)) \<and> wm_hi (wm_update s srs) \<in> covered srs"
  proof -
    have hi: "wm_hi (wm_update s srs) = hi" by (simp add: wm_update_def lh)
    obtain c where "c \<in> set srs" "sr_last c = hi" using b \<open>hi \<noteq> -1\<close> by blast
    then have "hi \<in> covered srs" using inv by (auto simp: covered_iff srs_inv_def)
    moreover have "z \<le> hi" if "z \<in> covered srs" for z
      using that b by (auto simp: covered_iff)
    ultimately show ?thesis by (simp add: hi)
  qed
qed

lemma tracker_inv_add:
  assumes "tracker_inv rt" and "AddSubRange rt f l = Inr rt'"
  shows "tracker_inv rt'"
  using assms srs_inv_add [of "tr_start rt" "tr_end rt" "tr_subRanges rt" f l]
  by (auto simp: tracker_inv_def AddSubRange_def find_None_iff Let_def
      split: if_splits option.splits dest: arg_cong [of _ _ set])

lemma tracked_inv: "tracked rt \<Longrightarrow> tracker_inv rt"
proof (induction rule: tracked.induct)
  case (new now start end1 rt)
  then show ?case by (auto simp: NewTracker_def tracker_inv_def srs_inv_def split: if_splits)
next
  case (add rt first last1 rt')
  then show ?case by (blast intro: tracker_inv_add)
qed

section \<open>Properties\<close>


text \<open>
  (C20) For every tracker that the package can produce, \<^verbatim>\<open>PartiallyCompleteUpto\<close> is the end of the
  longest covered stretch from the start of the extent, or -1 when the start is not covered; and
  \<^verbatim>\<open>IsComplete\<close> holds exactly when the recorded sub-ranges cover the whole extent.
\<close>

theorem tracker_watermarks:
  assumes "tracked rt"
  shows "mid_spec (tr_start rt) (tr_end rt) (covered (tr_subRanges rt)) (PartiallyCompleteUpto rt) \<and>
         (IsComplete rt \<longleftrightarrow> covered (tr_subRanges rt) = {tr_start rt..tr_end rt})"
proof -
  let ?U = "covered (tr_subRanges rt)" and ?m = "wm_mid (tr_wm rt)" and ?h = "wm_hi (tr_wm rt)"
  note ti = tracked_inv [OF assms, unfolded tracker_inv_def]
  then have inv: "srs_inv (tr_start rt) (tr_end rt) (tr_subRanges rt)" by simp
  have wm: "mid_spec (tr_start rt) (tr_end rt) ?U ?m" "?U \<noteq> {} \<Longrightarrow> (\<forall>z\<in>?U. z \<le> ?h) \<and> ?h \<in> ?U"
    using wm_update_spec [OF inv] ti
    by (auto simp: mid_spec_def covered_def split: if_splits)
  have sub: "?U \<subseteq> {tr_start rt..tr_end rt}" and s: "0 \<le> tr_start rt" "tr_start rt \<le> tr_end rt"
    using inv by (fastforce simp: srs_inv_def covered_iff)+
  have "IsComplete rt \<longleftrightarrow> ?U = {tr_start rt..tr_end rt}"
  proof
    assume "IsComplete rt"
    then have "0 \<le> ?m" "?m = tr_end rt" by (auto simp: IsComplete_def IsPartiallyComplete_def)
    then show "?U = {tr_start rt..tr_end rt}" using wm(1) sub by (auto simp: mid_spec_def split: if_splits)
  next
    assume U: "?U = {tr_start rt..tr_end rt}"
    then have "tr_end rt \<le> ?h \<and> ?h \<le> tr_end rt" using wm(2) s(2) by fastforce
    moreover have "?m = tr_end rt" using U wm(1) s by (auto simp: mid_spec_def)
    ultimately have "?m = tr_end rt" "?h = tr_end rt" by auto
    then show "IsComplete rt" using s by (simp add: IsComplete_def IsPartiallyComplete_def)
  qed
  then show ?thesis using wm(1) by (simp add: PartiallyCompleteUpto_def)
qed

text \<open>A tracker for 0 to 9 with the sub-ranges 5 to 9 and 0 to 4.\<close>

definition demo_tracker :: Tracker where
  "demo_tracker = \<lparr>tr_start = 0, tr_end = 9, tr_wm = \<lparr>wm_lo = 0, wm_mid = 9, wm_hi = 9\<rparr>,
     tr_subRanges = [\<lparr>sr_first = 0, sr_last = 4\<rparr>, \<lparr>sr_first = 5, sr_last = 9\<rparr>], tr_startTime = 0\<rparr>"

lemmas tracker_eval = NewTracker_def AddSubRange_def wm_update_def update_lo_hi_def update_mid_def
  collides_def MaxInt64_def wrap64_def Let_def

lemma demo_tracked: "tracked demo_tracker"
proof -
  have "tracked \<lparr>tr_start = 0, tr_end = 9, tr_wm = \<lparr>wm_lo = -1, wm_mid = -1, wm_hi = -1\<rparr>,
      tr_subRanges = [], tr_startTime = 0\<rparr>"
    by (rule tracked.new [of 0 0 9]) (simp_all add: tracker_eval)
  then have "tracked \<lparr>tr_start = 0, tr_end = 9, tr_wm = \<lparr>wm_lo = 5, wm_mid = -1, wm_hi = 9\<rparr>,
      tr_subRanges = [\<lparr>sr_first = 5, sr_last = 9\<rparr>], tr_startTime = 0\<rparr>"
    by (rule tracked.add [of _ 5 9]) (simp add: tracker_eval)
  then show ?thesis unfolding demo_tracker_def
    by (rule tracked.add [of _ 0 4]) (simp add: tracker_eval)
qed

theorem tracker_watermarks_witness: "IsComplete demo_tracker"
  using tracker_watermarks [OF demo_tracked]
  by (auto simp: demo_tracker_def covered_def)

text \<open>
  The sub-ranges of a tracker are documented as non-overlapping, but a sub-range that strictly
  contains a recorded one is accepted.
\<close>

theorem AddSubRange_accepts_overlap:
  "\<exists>rt rt1 rt2. NewTracker 0 0 9 = Inr rt \<and> AddSubRange rt 5 5 = Inr rt1 \<and> AddSubRange rt1 0 9 = Inr rt2 \<and>
     tr_subRanges rt2 = [\<lparr>sr_first = 0, sr_last = 9\<rparr>, \<lparr>sr_first = 5, sr_last = 5\<rparr>]"
  by (simp add: tracker_eval)

end
