(* ===== verification/Temporal_Log.thy ===== *)
theory Temporal_Log
  imports CT_Types
begin

text \<open>
  \<^verbatim>\<open>src/client/multilog.go\<close>: a log that is split into shards by the expiry date of the certificates.
  The conversion of a protobuf timestamp, the construction of a client, the parser of certificates
  and the submission to one log are arguments. The goroutines of \<^verbatim>\<open>GetAcceptedRoots\<close> deliver their
  results in any order: the model takes the list of results in the order of arrival.
\<close>

record interval =
  iv_lower :: "gotime option"
  iv_upper :: "gotime option"

record 'ts LogShardConfig =
  shard_Uri :: string
  shard_PublicKeyDer :: bytes
  shard_NotAfterStart :: "'ts option"
  shard_NotAfterLimit :: "'ts option"

record 'c TemporalLogClient =
  tlc_Clients :: "'c list"
  tlc_intervals :: "interval list"

datatype temporal_err =
    EmptyConfig
  | BadNotAfterStart
  | BadNotAfterLimit
  | InvertedInterval
  | ShardInvalid nat temporal_err
  | ExtendsUnbounded nat
  | NoLowerBound nat
  | NotContiguous nat
  | ClientFailed nat
  | MissingChain
  | ParseFailed
  | NoLogFound gotime
  | RootsFailed

definition shardInterval :: "('ts \<Rightarrow> gotime option) \<Rightarrow> 'ts LogShardConfig \<Rightarrow> temporal_err + interval" where
  "shardInterval to_time cfg =
     bind_res
       (case shard_NotAfterStart cfg of
          None \<Rightarrow> Inr None
        | Some ts \<Rightarrow> (case to_time ts of None \<Rightarrow> Inl BadNotAfterStart | Some t \<Rightarrow> Inr (Some t)))
       (\<lambda>lower.
     bind_res
       (case shard_NotAfterLimit cfg of
          None \<Rightarrow> Inr None
        | Some ts \<Rightarrow> (case to_time ts of None \<Rightarrow> Inl BadNotAfterLimit | Some t \<Rightarrow> Inr (Some t)))
       (\<lambda>upper.
       case (lower, upper) of
         (Some l, Some u) \<Rightarrow>
           if \<not> l < u then Inl InvertedInterval else Inr \<lparr>iv_lower = lower, iv_upper = upper\<rparr>
       | _ \<Rightarrow> Inr \<lparr>iv_lower = lower, iv_upper = upper\<rparr>))"

text \<open>The loop over the shards after the first; \<open>upper\<close> is \<^verbatim>\<open>overall.upper\<close>.\<close>

fun extend_intervals ::
    "('ts \<Rightarrow> gotime option) \<Rightarrow> nat \<Rightarrow> gotime option \<Rightarrow> 'ts LogShardConfig list \<Rightarrow> temporal_err + interval list" where
  "extend_intervals to_time i upper [] = Inr []"
| "extend_intervals to_time i upper (s # ss) =
     (case shardInterval to_time s of
        Inl e \<Rightarrow> Inl (ShardInvalid i e)
      | Inr iv \<Rightarrow>
          (case upper of
             None \<Rightarrow> Inl (ExtendsUnbounded i)
           | Some u \<Rightarrow>
               (case iv_lower iv of
                  None \<Rightarrow> Inl (NoLowerBound i)
                | Some l \<Rightarrow>
                    if l \<noteq> u then Inl (NotContiguous i)
                    else bind_res (extend_intervals to_time (Suc i) (iv_upper iv) ss) (\<lambda>ivs. Inr (iv # ivs)))))"

fun make_clients ::
    "(string \<Rightarrow> bytes \<Rightarrow> 'c option) \<Rightarrow> nat \<Rightarrow> 'ts LogShardConfig list \<Rightarrow> temporal_err + 'c list" where
  "make_clients new_client i [] = Inr []"
| "make_clients new_client i (s # ss) =
     (case new_client (shard_Uri s) (shard_PublicKeyDer s) of
        None \<Rightarrow> Inl (ClientFailed i)
      | Some c \<Rightarrow> bind_res (make_clients new_client (Suc i) ss) (\<lambda>cs. Inr (c # cs)))"

definition NewTemporalLogClient ::
    "('ts \<Rightarrow> gotime option) \<Rightarrow> (string \<Rightarrow> bytes \<Rightarrow> 'c option) \<Rightarrow> 'ts LogShardConfig list \<Rightarrow>
       temporal_err + 'c TemporalLogClient" where
  "NewTemporalLogClient to_time new_client shards =
     (case shards of
        [] \<Rightarrow> Inl EmptyConfig
      | s # ss \<Rightarrow>
          (case shardInterval to_time s of
             Inl e \<Rightarrow> Inl (ShardInvalid 0 e)
           | Inr overall \<Rightarrow>
               bind_res (extend_intervals to_time 1 (iv_upper overall) ss) (\<lambda>ivs.
               bind_res (make_clients new_client 0 shards) (\<lambda>clients.
                 Inr \<lparr>tlc_Clients = clients, tlc_intervals = overall # ivs\<rparr>))))"

text \<open>
  \<^verbatim>\<open>GetAcceptedRoots\<close>: the results of the clients in the order in which they arrive, each an error
  or a list of roots. The map \<^verbatim>\<open>seen\<close> is the list of the hashes met so far.
\<close>

fun add_roots :: "(bytes \<Rightarrow> bytes) \<Rightarrow> bytes list \<times> ASN1Cert list \<Rightarrow> ASN1Cert list \<Rightarrow> bytes list \<times> ASN1Cert list" where
  "add_roots sha256 st [] = st"
| "add_roots sha256 (seen, allRoots) (root # roots) =
     (let h = sha256 (cert_Data root) in
      if h \<in> set seen then add_roots sha256 (seen, allRoots) roots
      else add_roots sha256 (h # seen, allRoots @ [root]) roots)"

fun collect_roots ::
    "(bytes \<Rightarrow> bytes) \<Rightarrow> bytes list \<times> ASN1Cert list \<Rightarrow> ('e + ASN1Cert list) list \<Rightarrow> 'e + ASN1Cert list" where
  "collect_roots sha256 (seen, allRoots) [] = Inr allRoots"
| "collect_roots sha256 st (Inl e # rs) = Inl e"
| "collect_roots sha256 st (Inr roots # rs) = collect_roots sha256 (add_roots sha256 st roots) rs"

definition GetAcceptedRoots :: "(bytes \<Rightarrow> bytes) \<Rightarrow> ('e + ASN1Cert list) list \<Rightarrow> 'e + ASN1Cert list" where
  "GetAcceptedRoots sha256 results = collect_roots sha256 ([], []) results"

text \<open>The condition under which \<^verbatim>\<open>IndexByDate\<close> does not \<^verbatim>\<open>continue\<close>.\<close>

definition encompasses :: "interval \<Rightarrow> gotime \<Rightarrow> bool" where
  "encompasses iv t \<longleftrightarrow>
     \<not> (case iv_lower iv of Some l \<Rightarrow> t < l | None \<Rightarrow> False) \<and>
     \<not> (case iv_upper iv of Some u \<Rightarrow> \<not> t < u | None \<Rightarrow> False)"

fun index_by_date :: "nat \<Rightarrow> interval list \<Rightarrow> gotime \<Rightarrow> temporal_err + nat" where
  "index_by_date i [] t = Inl (NoLogFound t)"
| "index_by_date i (iv # ivs) t = (if encompasses iv t then Inr i else index_by_date (Suc i) ivs t)"

definition IndexByDate :: "'c TemporalLogClient \<Rightarrow> gotime \<Rightarrow> temporal_err + nat" where
  "IndexByDate tlc t = index_by_date 0 (tlc_intervals tlc) t"

text \<open>
  Any error of \<^verbatim>\<open>ParseCertificate\<close>, a non-fatal one included, is returned. The last argument of
  the submission is the chain; its result is passed on.
\<close>

datatype 'r submit = Failed temporal_err | Submitted 'r | SubmitPanic

definition addChain ::
    "x509_parser \<Rightarrow> ('c \<Rightarrow> u64 \<Rightarrow> string \<Rightarrow> ASN1Cert list \<Rightarrow> 'r) \<Rightarrow> 'c TemporalLogClient \<Rightarrow> u64 \<Rightarrow> string \<Rightarrow>
       ASN1Cert list \<Rightarrow> 'r submit" where
  "addChain ParseCertificate addChainWithRetry tlc ctype path chain =
     (case chain of
        [] \<Rightarrow> Failed MissingChain
      | c0 # _ \<Rightarrow>
          (case ParseCertificate (cert_Data c0) of
             (_, Some err) \<Rightarrow> Failed ParseFailed
           | (None, None) \<Rightarrow> SubmitPanic
           | (Some cert, None) \<Rightarrow>
               (case IndexByDate tlc (NotAfter cert) of
                  Inl e \<Rightarrow> Failed e
                | Inr cidx \<Rightarrow>
                    if cidx < length (tlc_Clients tlc)
                    then Submitted (addChainWithRetry (tlc_Clients tlc ! cidx) ctype path chain)
                    else SubmitPanic)))"

definition AddChain ::
    "x509_parser \<Rightarrow> ('c \<Rightarrow> u64 \<Rightarrow> string \<Rightarrow> ASN1Cert list \<Rightarrow> 'r) \<Rightarrow> 'c TemporalLogClient \<Rightarrow> ASN1Cert list \<Rightarrow> 'r submit" where
  "AddChain ParseCertificate addChainWithRetry tlc chain =
     addChain ParseCertificate addChainWithRetry tlc X509LogEntryType ''/ct/v1/add-chain'' chain"

definition AddPreChain ::
    "x509_parser \<Rightarrow> ('c \<Rightarrow> u64 \<Rightarrow> string \<Rightarrow> ASN1Cert list \<Rightarrow> 'r) \<Rightarrow> 'c TemporalLogClient \<Rightarrow> ASN1Cert list \<Rightarrow> 'r submit" where
  "AddPreChain ParseCertificate addChainWithRetry tlc chain =
     addChain ParseCertificate addChainWithRetry tlc PrecertLogEntryType ''/ct/v1/add-pre-chain'' chain"

section \<open>Lemmas\<close>

text \<open>Adjacent intervals share their bound, and no interval is empty.\<close>

fun contiguous :: "gotime option \<Rightarrow> interval list \<Rightarrow> bool" where
  "contiguous upper [] = True"
| "contiguous upper (iv # ivs) =
     (upper \<noteq> None \<and> iv_lower iv = upper \<and>
      (\<forall>l u. iv_lower iv = Some l \<and> iv_upper iv = Some u \<longrightarrow> l < u) \<and> contiguous (iv_upper iv) ivs)"

lemma shardInterval_nonempty:
  "shardInterval to_time s = Inr iv \<Longrightarrow> iv_lower iv = Some l \<Longrightarrow> iv_upper iv = Some u \<Longrightarrow> l < u"
  by (auto simp: shardInterval_def result_simps split: option.splits if_splits)

lemma extend_contiguous:
  "extend_intervals to_time i upper ss = Inr ivs \<Longrightarrow> contiguous upper ivs \<and> length ivs = length ss"
proof (induction ss arbitrary: i upper ivs)
  case (Cons s ss)
  then show ?case using shardInterval_nonempty [of to_time s]
    by (auto simp: result_simps split: sum.splits option.splits if_splits)
qed simp

lemma make_clients_length: "make_clients new_client i ss = Inr cs \<Longrightarrow> length cs = length ss"
  by (induction ss arbitrary: i cs) (auto simp: result_simps split: option.splits)

text \<open>Later intervals only contain dates at or after the upper bound before them.\<close>

lemma contiguous_above:
  "contiguous (Some u) ivs \<Longrightarrow> iv \<in> set ivs \<Longrightarrow> encompasses iv t \<Longrightarrow> u \<le> t"
proof (induction ivs arbitrary: u)
  case (Cons x ivs)
  show ?case
  proof (cases "iv = x")
    case True
    then show ?thesis using Cons.prems by (auto simp: encompasses_def)
  next
    case False
    then have mem: "iv \<in> set ivs" using Cons.prems by simp
    then obtain w where w: "iv_upper x = Some w" using Cons.prems(1)
      by (cases "iv_upper x"; cases ivs) auto
    then have "w \<le> t" using Cons mem by auto
    moreover have "u < w" using Cons.prems(1) w by auto
    ultimately show ?thesis by simp
  qed
qed simp

text \<open>A client whose intervals are contiguous, as \<^verbatim>\<open>NewTemporalLogClient\<close> makes them.\<close>

definition temporal_inv :: "'c TemporalLogClient \<Rightarrow> bool" where
  "temporal_inv tlc \<longleftrightarrow>
     (\<exists>iv ivs. tlc_intervals tlc = iv # ivs \<and> contiguous (iv_upper iv) ivs \<and>
        (\<forall>l u. iv_lower iv = Some l \<and> iv_upper iv = Some u \<longrightarrow> l < u)) \<and>
     length (tlc_Clients tlc) = length (tlc_intervals tlc)"

lemma NewTemporalLogClient_inv:
  assumes "NewTemporalLogClient to_time new_client shards = Inr tlc"
  shows "temporal_inv tlc" and "length (tlc_Clients tlc) = length shards"
proof -
  obtain s ss iv ivs cs where 1: "shards = s # ss" "shardInterval to_time s = Inr iv"
    "extend_intervals to_time 1 (iv_upper iv) ss = Inr ivs" "make_clients new_client 0 shards = Inr cs"
    "tlc = \<lparr>tlc_Clients = cs, tlc_intervals = iv # ivs\<rparr>"
    using assms by (auto simp: NewTemporalLogClient_def result_simps split: list.splits sum.splits)
  then show "temporal_inv tlc" "length (tlc_Clients tlc) = length shards"
    using extend_contiguous [OF 1(3)] make_clients_length [OF 1(4)] shardInterval_nonempty [OF 1(2)]
    by (auto simp: temporal_inv_def)
qed

lemma contiguous_unique:
  "contiguous (iv_upper iv) ivs \<Longrightarrow> i < length (iv # ivs) \<Longrightarrow> j < length (iv # ivs) \<Longrightarrow>
   encompasses ((iv # ivs) ! i) t \<Longrightarrow> encompasses ((iv # ivs) ! j) t \<Longrightarrow> i = j"
proof (induction ivs arbitrary: iv i j)
  case (Cons x ivs)
  have disj: False if "encompasses iv t" "k < length (x # ivs)" "encompasses ((x # ivs) ! k) t" for k
  proof -
    obtain u where u: "iv_upper iv = Some u" using Cons.prems(1) by auto
    then have "u \<le> t" using contiguous_above [of u "x # ivs" _ t] Cons.prems(1) that(2,3) nth_mem by metis
    then show False using that(1) u by (simp add: encompasses_def)
  qed
  show ?case
  proof (cases i; cases j)
    fix i' j' assume "i = Suc i'" "j = Suc j'"
    then show ?thesis using Cons.IH [of x i' j'] Cons.prems by auto
  qed (use disj Cons.prems in auto)
qed simp

lemma index_by_date_sound:
  "index_by_date k ivs t = Inr n \<Longrightarrow> \<exists>i<length ivs. n = k + i \<and> encompasses (ivs ! i) t"
proof (induction ivs arbitrary: k)
  case (Cons x ivs)
  show ?case
  proof (cases "encompasses x t")
    case True
    then show ?thesis using Cons.prems by auto
  next
    case False
    then obtain i where "i < length ivs" "n = Suc k + i" "encompasses (ivs ! i) t"
      using Cons.IH [of "Suc k"] Cons.prems by auto
    then show ?thesis by (intro exI [of _ "Suc i"]) simp
  qed
qed simp

lemma index_by_date_complete:
  "iv \<in> set ivs \<Longrightarrow> encompasses iv t \<Longrightarrow> \<exists>n. index_by_date k ivs t = Inr n"
  by (induction ivs arbitrary: k) auto

lemma IndexByDate_iff:
  assumes inv: "temporal_inv tlc"
  shows "IndexByDate tlc t = Inr i \<longleftrightarrow> i < length (tlc_Clients tlc) \<and> encompasses (tlc_intervals tlc ! i) t"
proof
  assume "IndexByDate tlc t = Inr i"
  then show "i < length (tlc_Clients tlc) \<and> encompasses (tlc_intervals tlc ! i) t"
    using index_by_date_sound inv by (fastforce simp: IndexByDate_def temporal_inv_def)
next
  assume i: "i < length (tlc_Clients tlc) \<and> encompasses (tlc_intervals tlc ! i) t"
  obtain iv ivs where ivs: "tlc_intervals tlc = iv # ivs" "contiguous (iv_upper iv) ivs"
    "length (tlc_Clients tlc) = length (iv # ivs)"
    using inv by (auto simp: temporal_inv_def)
  obtain n where n: "index_by_date 0 (iv # ivs) t = Inr n"
    using index_by_date_complete [of "(iv # ivs) ! i" "iv # ivs" t 0] i ivs nth_mem [of i "iv # ivs"] by auto
  then have "n = i" using index_by_date_sound [OF n] contiguous_unique [OF ivs(2), of _ i t] i ivs by auto
  then show "IndexByDate tlc t = Inr i" using n ivs by (simp add: IndexByDate_def)
qed

text \<open>
  The state of the loop over the roots, after the roots in \<open>S\<close> have been met: the kept roots are among
  them, have different hashes, and have all the hashes that occur.
\<close>

definition roots_inv :: "(bytes \<Rightarrow> bytes) \<Rightarrow> bytes list \<times> ASN1Cert list \<Rightarrow> ASN1Cert set \<Rightarrow> bool" where
  "roots_inv sha256 st S \<longleftrightarrow>
     (let hash = (\<lambda>c. sha256 (cert_Data c)) in
      set (fst st) = hash ` set (snd st) \<and> distinct (map hash (snd st)) \<and>
      set (snd st) \<subseteq> S \<and> hash ` set (snd st) = hash ` S)"

lemma add_roots_inv:
  "roots_inv sha256 st S \<Longrightarrow> roots_inv sha256 (add_roots sha256 st roots) (S \<union> set roots)"
proof (induction sha256 st roots arbitrary: S rule: add_roots.induct)
  case (1 sha256 st)
  then show ?case by simp
next
  case (2 sha256 seen all root roots)
  let ?h = "sha256 (cert_Data root)"
  show ?case
  proof (cases "?h \<in> set seen")
    case True
    then have "roots_inv sha256 (seen, all) (insert root S)"
      using "2.prems" by (auto simp: roots_inv_def Let_def)
    then show ?thesis using "2.IH"(1) [OF refl True, of "insert root S"] True by simp
  next
    case False
    then have "roots_inv sha256 (?h # seen, all @ [root]) (insert root S)"
      using "2.prems" by (auto simp: roots_inv_def Let_def)
    then show ?thesis using "2.IH"(2) [OF refl False, of "insert root S"] False by simp
  qed
qed

lemma collect_roots_Inr:
  "roots_inv sha256 st S \<Longrightarrow> collect_roots sha256 st results = Inr roots \<Longrightarrow>
   \<exists>answers. results = map Inr answers \<and> (\<exists>seen. roots_inv sha256 (seen, roots) (S \<union> (\<Union>l\<in>set answers. set l)))"
proof (induction sha256 st results arbitrary: S rule: collect_roots.induct)
  case (3 sha256 st rs results)
  from "3.IH" [OF add_roots_inv [OF "3.prems"(1), of rs]] "3.prems"(2) obtain answers seen where
    "results = map Inr answers" "roots_inv sha256 (seen, roots) (S \<union> set rs \<union> (\<Union>l\<in>set answers. set l))" by auto
  then show ?case by (intro exI [of _ "rs # answers"]) (auto simp: Un_assoc)
qed auto

lemma collect_roots_total: "\<exists>r. collect_roots sha256 st (map Inr answers) = Inr r"
proof (induction answers arbitrary: st)
  case Nil
  then show ?case by (cases st) simp
qed simp

lemma collect_roots_Inl:
  "(\<exists>e. collect_roots sha256 st results = Inl e) \<longleftrightarrow> (\<exists>e. Inl e \<in> set results)"
  by (induction sha256 st results rule: collect_roots.induct) auto

section \<open>Properties\<close>


definition demo_shards :: "int LogShardConfig list" where
  "demo_shards =
     [\<lparr>shard_Uri = ''a'', shard_PublicKeyDer = [], shard_NotAfterStart = None, shard_NotAfterLimit = Some 10\<rparr>,
      \<lparr>shard_Uri = ''b'', shard_PublicKeyDer = [], shard_NotAfterStart = Some 10, shard_NotAfterLimit = Some 20\<rparr>]"

definition demo_temporal :: "string TemporalLogClient" where
  "demo_temporal = \<lparr>tlc_Clients = [''a'', ''b''],
     tlc_intervals = [\<lparr>iv_lower = None, iv_upper = Some 10\<rparr>, \<lparr>iv_lower = Some 10, iv_upper = Some 20\<rparr>]\<rparr>"

lemma demo_temporal_new: "NewTemporalLogClient Some (\<lambda>u k. Some u) demo_shards = Inr demo_temporal"
  by (simp add: NewTemporalLogClient_def demo_shards_def demo_temporal_def shardInterval_def)




text \<open>
  \<^verbatim>\<open>GetAcceptedRoots\<close> fails exactly when the request to some shard fails; otherwise, in whatever
  order the answers arrive, it returns roots of the shards with different hashes, such that every
  root of a shard has the hash of a returned one.
\<close>

theorem GetAcceptedRoots_union:
  fixes results :: "('e + ASN1Cert list) list"
  shows "((\<exists>e. GetAcceptedRoots sha256 results = Inl e) \<longleftrightarrow> (\<exists>e. Inl e \<in> set results)) \<and>
   (\<exists>roots. GetAcceptedRoots sha256 (map Inr answers) = (Inr roots :: 'e + _) \<and>
      distinct (map (\<lambda>c. sha256 (cert_Data c)) roots) \<and> set roots \<subseteq> (\<Union>l\<in>set answers. set l) \<and>
      (\<lambda>c. sha256 (cert_Data c)) ` set roots = (\<lambda>c. sha256 (cert_Data c)) ` (\<Union>l\<in>set answers. set l))"
proof
  have init: "roots_inv sha256 ([], []) {}" by (simp add: roots_inv_def)
  show "(\<exists>e. GetAcceptedRoots sha256 results = Inl e) \<longleftrightarrow> (\<exists>e. Inl e \<in> set results)"
    unfolding GetAcceptedRoots_def by (rule collect_roots_Inl)
  obtain roots where r: "collect_roots sha256 ([], []) (map Inr answers) = (Inr roots :: 'e + _)"
    using collect_roots_total by blast
  from collect_roots_Inr [OF init r] obtain ls seen where
    "map Inr answers = map Inr ls" "roots_inv sha256 (seen, roots) (\<Union>l\<in>set ls. set l)" by auto
  moreover from this(1) have "answers = ls" by (simp add: inj_map_eq_map)
  ultimately show "\<exists>roots. GetAcceptedRoots sha256 (map Inr answers) = (Inr roots :: 'e + _) \<and>
      distinct (map (\<lambda>c. sha256 (cert_Data c)) roots) \<and> set roots \<subseteq> (\<Union>l\<in>set answers. set l) \<and>
      (\<lambda>c. sha256 (cert_Data c)) ` set roots = (\<lambda>c. sha256 (cert_Data c)) ` (\<Union>l\<in>set answers. set l)"
    using r by (intro exI [of _ roots]) (simp add: GetAcceptedRoots_def roots_inv_def Let_def)
qed

end
