(* ===== verification/ASN1_Base.thy ===== *)
theory ASN1_Base
  imports CT_Prelude
begin

text \<open>
  Package \<^verbatim>\<open>asn1\<close>, the parts below the reflection-driven codec (\<^verbatim>\<open>src/asn1/asn1.go\<close>,
  \<^verbatim>\<open>src/asn1/marshal.go\<close>, \<^verbatim>\<open>src/asn1/common.go\<close>): identifier and length octets, and the contents
  octets of the primitive types with their encoders.
  A Go \<^verbatim>\<open>int\<close> is an \<open>int\<close> here. Offsets, lengths and tags stay below \<^verbatim>\<open>2^35\<close> in the code, so that no
  operation of the parsers wraps around except where the source tests for it (\<open>invalidLength\<close>).
  An encoder of \<^verbatim>\<open>marshal.go\<close> is the list of the bytes it writes.
\<close>

unbundle bit_operations_syntax

section \<open>Errors and headers\<close>

text \<open>The message and the field name; \<open>OtherError\<close> is an error of package \<^verbatim>\<open>errors\<close> or \<^verbatim>\<open>fmt\<close>.\<close>

datatype asn1_err =
    StructuralError string string
  | SyntaxError string string
  | OtherError string

record tagAndLength =
  tl_class :: int
  tl_tag :: int
  tl_length :: int
  tl_isCompound :: bool

definition ClassUniversal :: int where "ClassUniversal = 0"
definition ClassApplication :: int where "ClassApplication = 1"
definition ClassContextSpecific :: int where "ClassContextSpecific = 2"
definition ClassPrivate :: int where "ClassPrivate = 3"

definition TagBoolean :: int where "TagBoolean = 1"
definition TagInteger :: int where "TagInteger = 2"
definition TagBitString :: int where "TagBitString = 3"
definition TagOctetString :: int where "TagOctetString = 4"
definition TagOID :: int where "TagOID = 6"
definition TagEnum :: int where "TagEnum = 10"
definition TagUTF8String :: int where "TagUTF8String = 12"
definition TagSequence :: int where "TagSequence = 16"
definition TagSet :: int where "TagSet = 17"
definition TagNumericString :: int where "TagNumericString = 18"
definition TagPrintableString :: int where "TagPrintableString = 19"
definition TagT61String :: int where "TagT61String = 20"
definition TagIA5String :: int where "TagIA5String = 22"
definition TagUTCTime :: int where "TagUTCTime = 23"
definition TagGeneralizedTime :: int where "TagGeneralizedTime = 24"
definition TagGeneralString :: int where "TagGeneralString = 27"
definition TagBMPString :: int where "TagBMPString = 30"

lemmas tag_defs = TagBoolean_def TagInteger_def TagBitString_def TagOctetString_def TagOID_def TagEnum_def
  TagUTF8String_def TagSequence_def TagSet_def TagNumericString_def TagPrintableString_def TagT61String_def
  TagIA5String_def TagUTCTime_def TagGeneralizedTime_def TagGeneralString_def TagBMPString_def
  ClassUniversal_def ClassApplication_def ClassContextSpecific_def ClassPrivate_def

section \<open>Parsing\<close>

text \<open>The loop of \<^verbatim>\<open>parseBase128Int\<close>: offset, \<^verbatim>\<open>shifted\<close> and \<^verbatim>\<open>ret64\<close>.\<close>

function base128_loop :: "bytes \<Rightarrow> string \<Rightarrow> nat \<Rightarrow> nat \<Rightarrow> int \<Rightarrow> asn1_err + int \<times> nat" where
  "base128_loop bs fieldName offset shifted ret64 =
     (if offset < length bs then
        if shifted = 5 then Inl (StructuralError ''base 128 integer too large'' fieldName)
        else
          let b = bs ! offset;
              ret64' = push_bit 7 ret64 OR uint (b AND 0x7f)
          in if b AND 0x80 = 0 then
               (if ret64' > 2147483647 then Inl (StructuralError ''base 128 integer too large'' fieldName)
                else Inr (ret64', Suc offset))
             else base128_loop bs fieldName (Suc offset) (Suc shifted) ret64'
      else Inl (SyntaxError ''truncated base 128 integer'' fieldName))"
  by pat_completeness auto
termination by (relation "measure (\<lambda>(bs, _, offset, _, _). length bs - offset)") auto

definition parseBase128Int :: "bytes \<Rightarrow> nat \<Rightarrow> string \<Rightarrow> asn1_err + int \<times> nat" where
  "parseBase128Int bs initOffset fieldName = base128_loop bs fieldName initOffset 0 0"

text \<open>The loop over the length octets of the long form; \<open>n\<close> of them are still to be read.\<close>

fun length_loop :: "bytes \<Rightarrow> string \<Rightarrow> nat \<Rightarrow> nat \<Rightarrow> int \<Rightarrow> asn1_err + int \<times> nat" where
  "length_loop bs fieldName 0 offset len = Inr (len, offset)"
| "length_loop bs fieldName (Suc n) offset len =
     (if offset \<ge> length bs then Inl (SyntaxError ''truncated tag or length'' fieldName)
      else if len \<ge> 2 ^ 23 then Inl (StructuralError ''length too large'' fieldName)
      else
        let len' = push_bit 8 len OR uint (bs ! offset)
        in if len' = 0 then Inl (StructuralError ''superfluous leading zeros in length'' fieldName)
           else length_loop bs fieldName n (Suc offset) len')"

text \<open>The second half of \<^verbatim>\<open>parseTagAndLength\<close>: the length octets.\<close>

definition parse_length :: "bytes \<Rightarrow> nat \<Rightarrow> string \<Rightarrow> asn1_err + int \<times> nat" where
  "parse_length bs offset fieldName =
     (if offset \<ge> length bs then Inl (SyntaxError ''truncated tag or length'' fieldName)
      else
        let b = bs ! offset
        in if b AND 0x80 = 0 then Inr (uint (b AND 0x7f), Suc offset)
           else
             let numBytes = unat (b AND 0x7f)
             in if numBytes = 0 then Inl (SyntaxError ''indefinite length found (not DER)'' fieldName)
                else bind_res (length_loop bs fieldName numBytes (Suc offset) 0) (\<lambda>(len, offset').
                  if len < 0x80 then Inl (StructuralError ''non-minimal length'' fieldName)
                  else Inr (len, offset')))"

definition parseTagAndLength :: "bytes \<Rightarrow> nat \<Rightarrow> string \<Rightarrow> asn1_err + tagAndLength \<times> nat" where
  "parseTagAndLength bs initOffset fieldName =
     (if initOffset \<ge> length bs then Inl (OtherError ''asn1: internal error in parseTagAndLength'')
      else
        let b = bs ! initOffset;
            low = uint (b AND 0x1f)
        in bind_res
             (if low = 0x1f then
                bind_res (parseBase128Int bs (Suc initOffset) fieldName) (\<lambda>(tag, offset).
                  if tag < 0x1f then Inl (SyntaxError ''non-minimal tag'' fieldName) else Inr (tag, offset))
              else Inr (low, Suc initOffset))
             (\<lambda>(tag, offset).
                bind_res (parse_length bs offset fieldName) (\<lambda>(len, offset').
                  Inr (\<lparr>tl_class = uint (drop_bit 6 b), tl_tag = tag, tl_length = len,
                        tl_isCompound = (b AND 0x20 = 0x20)\<rparr>, offset'))))"

definition invalidLength :: "int \<Rightarrow> int \<Rightarrow> int \<Rightarrow> bool" where
  "invalidLength offset len sliceLength \<longleftrightarrow>
     wrap64 (offset + len) < offset \<or> wrap64 (offset + len) > sliceLength"

definition parseBool :: "bytes \<Rightarrow> string \<Rightarrow> asn1_err + bool" where
  "parseBool bs fieldName =
     (if length bs \<noteq> 1 then Inl (SyntaxError ''invalid boolean'' fieldName)
      else if bs ! 0 = 0 then Inr False
      else if bs ! 0 = 0xff then Inr True
      else Inl (SyntaxError ''invalid boolean'' fieldName))"

definition checkInteger :: "bytes \<Rightarrow> bool \<Rightarrow> string \<Rightarrow> asn1_err + unit" where
  "checkInteger bs lax fieldName =
     (if length bs = 0 then Inl (StructuralError ''empty integer'' fieldName)
      else if length bs = 1 then Inr ()
      else if lax then Inr ()
      else if bs ! 0 = 0 \<and> bs ! 1 AND 0x80 = 0 \<or> bs ! 0 = 0xff \<and> bs ! 1 AND 0x80 = 0x80
      then Inl (StructuralError ''integer not minimally-encoded'' fieldName)
      else Inr ())"

text \<open>An \<^verbatim>\<open>int64\<close> is a \<open>u64\<close> here, read with \<open>sint\<close>; \<^verbatim>\<open>>>\<close> on it is \<open>signed_drop_bit\<close>.\<close>

definition parseInt64 :: "bytes \<Rightarrow> bool \<Rightarrow> string \<Rightarrow> asn1_err + u64" where
  "parseInt64 bs lax fieldName =
     bind_res (checkInteger bs lax fieldName) (\<lambda>_.
       if length bs > 8 then Inl (StructuralError ''integer too large'' fieldName)
       else
         let ret = foldl (\<lambda>ret b. push_bit 8 ret OR ucast b) 0 bs;
             shift = 64 - length bs * 8
         in Inr (signed_drop_bit shift (push_bit shift ret)))"

definition parseInt32 :: "bytes \<Rightarrow> bool \<Rightarrow> string \<Rightarrow> asn1_err + 32 word" where
  "parseInt32 bs lax fieldName =
     bind_res (checkInteger bs lax fieldName) (\<lambda>_.
     bind_res (parseInt64 bs lax fieldName) (\<lambda>ret64.
       if ret64 \<noteq> scast (ucast ret64 :: 32 word) then Inl (StructuralError ''integer too large'' fieldName)
       else Inr (ucast ret64)))"

definition parseBigInt :: "bytes \<Rightarrow> bool \<Rightarrow> string \<Rightarrow> asn1_err + int" where
  "parseBigInt bs lax fieldName =
     bind_res (checkInteger bs lax fieldName) (\<lambda>_.
       if length bs > 0 \<and> bs ! 0 AND 0x80 = 0x80
       then Inr (- (int (be_nat (map NOT bs)) + 1))
       else Inr (int (be_nat bs)))"

text \<open>A bit length is never negative.\<close>

record BitString =
  bits_Bytes :: bytes
  bits_BitLength :: nat

text \<open>\<open>None\<close> is the panic on an index outside the bytes.\<close>

definition BitString_At :: "BitString \<Rightarrow> int \<Rightarrow> int option" where
  "BitString_At b i =
     (if i < 0 \<or> i \<ge> int (bits_BitLength b) then Some 0
      else
        let x = nat i div 8; y = 7 - nat i mod 8
        in if x < length (bits_Bytes b) then Some (uint (drop_bit y (bits_Bytes b ! x)) AND 1) else None)"

definition RightAlign :: "BitString \<Rightarrow> bytes" where
  "RightAlign b =
     (let shift = 8 - bits_BitLength b mod 8; bs = bits_Bytes b
      in if shift = 8 \<or> length bs = 0 then bs
         else drop_bit shift (bs ! 0) #
                map (\<lambda>i. push_bit (8 - shift) (bs ! (i - 1)) OR drop_bit shift (bs ! i)) [1..<length bs])"

definition parseBitString :: "bytes \<Rightarrow> string \<Rightarrow> asn1_err + BitString" where
  "parseBitString bs fieldName =
     (if length bs = 0 then Inl (SyntaxError ''zero length BIT STRING'' fieldName)
      else
        let paddingBits = unat (bs ! 0)
        in if paddingBits > 7 \<or> length bs = 1 \<and> paddingBits > 0 \<or>
              bs ! (length bs - 1) AND (push_bit paddingBits 1 - 1) \<noteq> 0
           then Inl (SyntaxError ''invalid padding bits in BIT STRING'' fieldName)
           else Inr \<lparr>bits_Bytes = drop 1 bs, bits_BitLength = (length bs - 1) * 8 - paddingBits\<rparr>)"

text \<open>The loop of \<^verbatim>\<open>parseObjectIdentifier\<close> over the arcs after the first two.\<close>

lemma base128_loop_offset:
  "base128_loop bs fieldName offset shifted ret64 = Inr (v, offset') \<Longrightarrow> offset < offset' \<and> offset' \<le> length bs"
  by (induction bs fieldName offset shifted ret64 rule: base128_loop.induct)
     (subst (asm) (2) base128_loop.simps, fastforce simp: Let_def split: if_splits)

lemma parseBase128Int_offset:
  "parseBase128Int bs offset fieldName = Inr (v, offset') \<Longrightarrow> offset < offset' \<and> offset' \<le> length bs"
  unfolding parseBase128Int_def by (rule base128_loop_offset)

function oid_loop :: "bytes \<Rightarrow> string \<Rightarrow> nat \<Rightarrow> asn1_err + int list" where
  "oid_loop bs fieldName offset =
     (if offset < length bs then
        bind_res (parseBase128Int bs offset fieldName) (\<lambda>(v, offset').
        bind_res (oid_loop bs fieldName offset') (\<lambda>arcs. Inr (v # arcs)))
      else Inr [])"
  by pat_completeness auto
termination
  by (relation "measure (\<lambda>(bs, _, offset). length bs - offset)") (auto dest!: parseBase128Int_offset)

definition parseObjectIdentifier :: "bytes \<Rightarrow> bool \<Rightarrow> string \<Rightarrow> asn1_err + int list" where
  "parseObjectIdentifier bs lax fieldName =
     (if length bs = 0 then
        (if lax then Inr [] else Inl (SyntaxError ''zero length OBJECT IDENTIFIER'' fieldName))
      else
        bind_res (parseBase128Int bs 0 fieldName) (\<lambda>(v, offset).
        bind_res (oid_loop bs fieldName offset) (\<lambda>arcs.
          Inr ((if v < 80 then [v div 40, v mod 40] else [2, v - 80]) @ arcs))))"

section \<open>Encoding\<close>

text \<open>The lowest byte of an integer, \<^verbatim>\<open>byte(i)\<close>.\<close>

abbreviation low_byte :: "int \<Rightarrow> byte" where
  "low_byte i \<equiv> word_of_int i"

text \<open>\<^verbatim>\<open>int64Encoder.Len\<close>, its two loops; an \<^verbatim>\<open>int64\<close> is read as an \<open>int\<close>.\<close>

function int64_len_pos :: "int \<Rightarrow> nat \<Rightarrow> int \<times> nat" where
  "int64_len_pos i n = (if i > 127 then int64_len_pos (drop_bit 8 i) (Suc n) else (i, n))"
  by pat_completeness auto
termination by (relation "measure (\<lambda>(i, n). nat i)") (auto simp: drop_bit_eq_div)

function int64_len_neg :: "int \<Rightarrow> nat \<Rightarrow> int \<times> nat" where
  "int64_len_neg i n = (if i < -128 then int64_len_neg (drop_bit 8 i) (Suc n) else (i, n))"
  by pat_completeness auto
termination by (relation "measure (\<lambda>(i, n). nat (- i))") (auto simp: drop_bit_eq_div)

definition int64_Len :: "int \<Rightarrow> nat" where
  "int64_Len i = (let (i', n) = int64_len_pos i 1 in snd (int64_len_neg i' n))"

definition int64_Encode :: "int \<Rightarrow> bytes" where
  "int64_Encode i = (let n = int64_Len i in map (\<lambda>j. low_byte (drop_bit ((n - 1 - j) * 8) i)) [0..<n])"

function base128_count :: "int \<Rightarrow> nat" where
  "base128_count i = (if i > 0 then Suc (base128_count (drop_bit 7 i)) else 0)"
  by pat_completeness auto
termination by (relation "measure nat") (auto simp: drop_bit_eq_div)

definition base128IntLength :: "int \<Rightarrow> nat" where
  "base128IntLength n = (if n = 0 then 1 else base128_count n)"

definition appendBase128Int :: "bytes \<Rightarrow> int \<Rightarrow> bytes" where
  "appendBase128Int dst n =
     dst @ map (\<lambda>i. let c = low_byte (drop_bit (i * 7) n) AND 0x7f in if i \<noteq> 0 then c OR 0x80 else c)
       (rev [0..<base128IntLength n])"

function lengthLength :: "int \<Rightarrow> nat" where
  "lengthLength i = (if i > 255 then Suc (lengthLength (drop_bit 8 i)) else 1)"
  by pat_completeness auto
termination by (relation "measure nat") (auto simp: drop_bit_eq_div)

definition appendLength :: "bytes \<Rightarrow> int \<Rightarrow> bytes" where
  "appendLength dst i = dst @ map (\<lambda>n. low_byte (drop_bit (n * 8) i)) (rev [0..<lengthLength i])"

definition appendTagAndLength :: "bytes \<Rightarrow> tagAndLength \<Rightarrow> bytes" where
  "appendTagAndLength dst t =
     (let b = push_bit 6 (low_byte (tl_class t));
          b = (if tl_isCompound t then b OR 0x20 else b);
          dst = (if tl_tag t \<ge> 31 then appendBase128Int (dst @ [b OR 0x1f]) (tl_tag t)
                 else dst @ [b OR low_byte (tl_tag t)])
      in if tl_length t \<ge> 128
         then appendLength (dst @ [0x80 OR of_nat (lengthLength (tl_length t))]) (tl_length t)
         else dst @ [low_byte (tl_length t)])"

text \<open>\<^verbatim>\<open>big.Int.Bytes\<close>: the big-endian bytes of the absolute value, without leading zeros.\<close>

fun big_Bytes :: "nat \<Rightarrow> bytes" where
  "big_Bytes n = (if n = 0 then [] else big_Bytes (n div 256) @ [of_nat n])"

text \<open>A nil pointer is \<open>None\<close>.\<close>

definition makeBigInt :: "int option \<Rightarrow> string \<Rightarrow> asn1_err + bytes" where
  "makeBigInt on fieldName =
     (case on of
        None \<Rightarrow> Inl (StructuralError ''empty integer'' fieldName)
      | Some n \<Rightarrow>
          if n < 0 then
            let bs = map NOT (big_Bytes (nat (- n - 1)))
            in if length bs = 0 \<or> bs ! 0 AND 0x80 = 0 then Inr ([0xff] @ bs) else Inr bs
          else if n = 0 then Inr [0]
          else
            let bs = big_Bytes (nat n)
            in if length bs > 0 \<and> bs ! 0 AND 0x80 \<noteq> 0 then Inr ([0] @ bs) else Inr bs)"

definition bitString_Encode :: "BitString \<Rightarrow> bytes" where
  "bitString_Encode b = of_nat ((8 - bits_BitLength b mod 8) mod 8) # bits_Bytes b"

definition oid_Encode :: "int list \<Rightarrow> bytes" where
  "oid_Encode oid = foldl appendBase128Int (appendBase128Int [] (wrap64 (oid ! 0 * 40 + oid ! 1))) (drop 2 oid)"

definition makeObjectIdentifier :: "int list \<Rightarrow> string \<Rightarrow> asn1_err + bytes" where
  "makeObjectIdentifier oid fieldName =
     (if length oid < 2 \<or> oid ! 0 > 2 \<or> oid ! 0 < 2 \<and> oid ! 1 \<ge> 40
      then Inl (StructuralError ''invalid object identifier'' fieldName)
      else Inr (oid_Encode oid))"

declare base128_loop.simps [simp del] oid_loop.simps [simp del] int64_len_pos.simps [simp del]
  int64_len_neg.simps [simp del] base128_count.simps [simp del] lengthLength.simps [simp del]
  big_Bytes.simps [simp del]

section \<open>Bits of a byte\<close>

lemma uint_byte_bound [simp]: "0 \<le> uint (b :: byte)" "uint b < 256"
  using uint_bounded [of b] by simp_all

lemma uint_and_mask: "uint (b AND 0x7f) = uint b mod 128" "uint (b AND 0x1f) = uint b mod 32"
  for b :: byte
proof -
  have "uint (b AND mask 7) = uint b mod 128" "uint (b AND mask 5) = uint b mod 32"
    by (simp_all only: take_bit_eq_mask [symmetric] unsigned_take_bit_eq) (simp_all add: take_bit_eq_mod)
  then show "uint (b AND 0x7f) = uint b mod 128" "uint (b AND 0x1f) = uint b mod 32"
    by (simp_all add: mask_eq_exp_minus_1)
qed

lemma and_0x80: "b AND 0x80 = 0 \<longleftrightarrow> uint b < 128" for b :: byte
proof -
  have "b AND 0x80 = 0 \<longleftrightarrow> \<not> bit b 7" using and_exp_eq_0_iff_not_bit [of b 7] by simp
  also have "bit b 7 \<longleftrightarrow> odd (uint b div 128)" using bit_uint_iff [of b 7] by (simp add: bit_iff_odd)
  also have "odd (uint b div 128) \<longleftrightarrow> \<not> uint b < 128"
  proof (cases "uint b < 128")
    case False
    then have "uint b div 128 = 1" using uint_byte_bound(2) [of b] by linarith
    then show ?thesis using False by simp
  qed simp
  finally show ?thesis by simp
qed

lemma low_byte_uint: "uint (low_byte i) = i mod 256"
  by (simp add: unsigned_of_int take_bit_eq_mod)

lemma push_or: "push_bit n r OR x = 2 ^ n * r + x" if "0 \<le> x" "x < 2 ^ n" for r x :: int
proof -
  have x: "take_bit n x = x" using that by (simp add: take_bit_int_eq_self)
  have "push_bit n r OR x = push_bit n r + x"
    by (rule disjunctive_add_eq_or [symmetric])
       (subst x [symmetric], auto simp: bit_eq_iff bit_and_iff bit_push_bit_iff bit_take_bit_iff)
  then show ?thesis by (simp add: push_bit_eq_mult mult.commute)
qed

lemma base128_step: "push_bit 7 r OR uint (b AND 0x7f) = 128 * r + uint b mod 128" for b :: byte
  using push_or [of "uint b mod 128" 7 r] by (simp add: uint_and_mask)

lemma length_step: "push_bit 8 r OR uint b = 256 * r + uint b" for b :: byte
  using push_or [of "uint b" 8 r] by simp

section \<open>Base 128\<close>

text \<open>The byte that \<^verbatim>\<open>appendBase128Int\<close> writes for digit \<open>i\<close>.\<close>

definition b128 :: "int \<Rightarrow> nat \<Rightarrow> byte" where
  "b128 n i = (let c = low_byte (drop_bit (i * 7) n) AND 0x7f in if i \<noteq> 0 then c OR 0x80 else c)"

lemma appendBase128Int_eq: "appendBase128Int dst n = dst @ map (b128 n) (rev [0..<base128IntLength n])"
  by (simp add: appendBase128Int_def b128_def)

lemma or_0x80: "uint (c OR 0x80) = uint c + 128" if "uint c < 128" for c :: byte
proof -
  have "push_bit 7 1 OR uint c = 128 * 1 + uint c" using push_or [of "uint c" 7 1] that by simp
  then show ?thesis by (simp add: unsigned_or_eq or.commute)
qed

lemma b128_digit: "uint (b128 n i) mod 128 = n div 128 ^ i mod 128"
  "uint (b128 n i) < 128 \<longleftrightarrow> i = 0"
proof -
  let ?c = "low_byte (drop_bit (i * 7) n) AND 0x7f"
  have c: "uint ?c = n div 128 ^ i mod 128"
  proof -
    have "n div 2 ^ (i * 7) = n div 128 ^ i" by (simp add: power_mult mult.commute [of i])
    then have "uint ?c = n div 128 ^ i mod 256 mod 128"
      by (simp add: uint_and_mask low_byte_uint drop_bit_eq_div)
    then show ?thesis by (simp add: mod_mod_cancel)
  qed
  have lt: "uint ?c < 128" "0 \<le> uint ?c" by (simp_all add: c)
  show "uint (b128 n i) mod 128 = n div 128 ^ i mod 128"
    using c lt or_0x80 [of ?c] by (auto simp: b128_def Let_def)
  show "uint (b128 n i) < 128 \<longleftrightarrow> i = 0"
    using lt or_0x80 [of ?c] by (auto simp: b128_def Let_def)
qed

lemma base128_loop_append:
  assumes "drop offset bs = map (b128 n) (rev [0..<Suc k]) @ rest" "shifted + k < 5"
    and "r * 128 ^ Suc k + n mod 128 ^ Suc k \<le> 2147483647"
  shows "base128_loop bs fieldName offset shifted r = Inr (r * 128 ^ Suc k + n mod 128 ^ Suc k, offset + Suc k)"
  using assms
proof (induction k arbitrary: offset shifted r)
  case 0
  then have b: "offset < length bs" "bs ! offset = b128 n 0"
    by (auto simp: nth_via_drop dest: arg_cong [of _ _ length])
  have "uint (b128 n 0) < 128" by (simp add: b128_digit)
  then show ?case
    using 0 b128_digit(1) [of n 0]
    by (subst base128_loop.simps) (simp add: b Let_def and_0x80 base128_step algebra_simps)
next
  case (Suc k)
  let ?d = "n div 128 ^ Suc k mod 128"
  have d: "drop offset bs = b128 n (Suc k) # map (b128 n) (rev [0..<Suc k]) @ rest"
    using Suc.prems(1) by simp
  then have b: "offset < length bs" "bs ! offset = b128 n (Suc k)"
    by (auto simp: nth_via_drop dest: arg_cong [of _ _ length])
  have d': "drop (Suc offset) bs = map (b128 n) (rev [0..<Suc k]) @ rest"
    using d by (metis drop_Suc tl_drop list.sel(3))
  have "128 ^ Suc k * ?d + n mod 128 ^ Suc k = n mod (128 ^ Suc k * 128)"
    by (rule zmod_zmult2_eq [symmetric]) simp
  then have v: "(128 * r + ?d) * 128 ^ Suc k + n mod 128 ^ Suc k = r * 128 ^ Suc (Suc k) + n mod 128 ^ Suc (Suc k)"
    by (simp add: algebra_simps)
  have "\<not> uint (b128 n (Suc k)) < 128" by (simp add: b128_digit)
  then have "base128_loop bs fieldName offset shifted r = base128_loop bs fieldName (Suc offset) (Suc shifted) (128 * r + ?d)"
    using Suc.prems(2) b128_digit(1) [of n "Suc k"]
    by (subst base128_loop.simps) (simp add: b Let_def and_0x80 base128_step)
  then show ?case
    using Suc.IH [OF d', of "Suc shifted" "128 * r + ?d"] Suc.prems(2,3) unfolding v by simp
qed

lemma base128_count_less: "0 \<le> n \<Longrightarrow> n < 128 ^ base128_count n"
proof (induction n rule: base128_count.induct)
  case (1 n)
  show ?case
  proof (cases "n > 0")
    case True
    then have "n div 128 < 128 ^ base128_count (n div 128)" using 1 by (simp add: drop_bit_eq_div)
    then have "n < 128 * 128 ^ base128_count (n div 128)" by linarith
    then show ?thesis using True by (subst base128_count.simps) (simp add: drop_bit_eq_div)
  next
    case False
    then show ?thesis using 1 by (subst base128_count.simps) simp
  qed
qed

lemma base128_count_le: "n < 128 ^ k \<Longrightarrow> base128_count n \<le> k"
proof (induction k arbitrary: n)
  case 0
  then show ?case by (subst base128_count.simps) simp
next
  case (Suc k)
  have "n div 128 < 128 ^ k" using Suc.prems by (simp add: div_less_iff_less_mult mult.commute)
  then show ?case
    using Suc.IH [of "n div 128"] by (subst base128_count.simps) (simp add: drop_bit_eq_div)
qed

lemma parseBase128Int_append:
  assumes "drop offset bs = appendBase128Int [] n @ rest" "0 \<le> n" "n \<le> 2147483647"
  shows "parseBase128Int bs offset fieldName = Inr (n, offset + length (appendBase128Int [] n))"
proof -
  have "base128IntLength n \<noteq> 0"
    using assms(2) by (simp add: base128IntLength_def base128_count.simps)
  then obtain k where k: "base128IntLength n = Suc k" by (cases "base128IntLength n") auto
  have "base128IntLength n \<le> 5" "n < 128 ^ base128IntLength n"
    using assms(2,3) base128_count_le [of n 5] base128_count_less [of n] by (auto simp: base128IntLength_def)
  moreover from this have "n mod 128 ^ Suc k = n" using assms(2) k by simp
  ultimately show ?thesis
    using base128_loop_append [of offset bs n k rest 0 0 fieldName] assms
    by (simp add: parseBase128Int_def appendBase128Int_eq k)
qed

section \<open>Lengths\<close>

lemma low_bytes_be: "0 \<le> i \<Longrightarrow> map (\<lambda>n. low_byte (drop_bit (n * 8) i)) (rev [0..<k]) = be_bytes k (nat i)"
proof (induction k)
  case (Suc k)
  have "drop_bit (k * 8) i = int (nat i div 256 ^ k)"
    using Suc.prems by (simp add: drop_bit_eq_div zdiv_int power_mult mult.commute [of k])
  then show ?case using Suc by simp
qed simp

lemma length_loop_be:
  assumes "drop offset bs = ds @ rest" "0 \<le> len" "len \<noteq> 0 \<or> ds = [] \<or> hd ds \<noteq> 0"
    and "len * 256 ^ length ds + int (be_nat ds) < 2 ^ 31"
  shows "length_loop bs fieldName (length ds) offset len
    = Inr (len * 256 ^ length ds + int (be_nat ds), offset + length ds)"
  using assms
proof (induction ds arbitrary: offset len)
  case (Cons d ds)
  have b: "offset < length bs" "bs ! offset = d" and d': "drop (Suc offset) bs = ds @ rest"
    using Cons.prems(1) by (auto simp: nth_via_drop dest: arg_cong [of _ _ length])
      (metis drop_Suc tl_drop list.sel(3))
  have le: "(256 * len + uint d) * 1 \<le> (256 * len + uint d) * 256 ^ length ds"
    using Cons.prems(2) by (intro mult_left_mono) auto
  have v: "(256 * len + uint d) * 256 ^ length ds + int (be_nat ds)
      = len * 256 ^ length (d # ds) + int (be_nat (d # ds))"
    by (simp add: algebra_simps)
  have "256 * len + uint d \<le> (256 * len + uint d) * 256 ^ length ds + int (be_nat ds)"
    using add_mono [OF le of_nat_0_le_iff [of "be_nat ds"]] by simp
  then have small: "256 * len + uint d < 2 ^ 31" unfolding v using Cons.prems(4) by (rule le_less_trans)
  then have "256 * len + uint d < 2147483648" by simp
  then have "len < 8388608" using uint_byte_bound(1) [of d] by linarith
  then have "len < 2 ^ 23" by simp
  moreover have nz: "256 * len + uint d \<noteq> 0"
  proof
    assume 0: "256 * len + uint d = 0"
    then have "len = 0" "uint d = 0" using Cons.prems(2) uint_byte_bound(1) [of d] by linarith+
    then show False using Cons.prems(3) by (simp add: uint_0_iff)
  qed
  moreover have "length_loop bs fieldName (length ds) (Suc offset) (256 * len + uint d)
      = Inr ((256 * len + uint d) * 256 ^ length ds + int (be_nat ds), Suc offset + length ds)"
    using Cons.prems(2,4) nz v by (intro Cons.IH [OF d']) auto
  ultimately show ?case unfolding v using b by (simp add: Let_def length_step)
qed simp

lemma length_loop_Inr:
  assumes "length_loop bs fieldName n offset len = Inr (v, offset')" "0 \<le> len"
  shows "offset' = offset + n \<and> offset' \<le> max offset (length bs) \<and>
    v = len * 256 ^ n + int (be_nat (take n (drop offset bs))) \<and> (0 < n \<longrightarrow> v < 2 ^ 31) \<and>
    (0 < n \<longrightarrow> len \<noteq> 0 \<or> bs ! offset \<noteq> 0)"
  using assms
proof (induction n arbitrary: offset len)
  case (Suc n)
  let ?len = "256 * len + uint (bs ! offset)"
  have b: "offset < length bs" "len < 2 ^ 23" "?len \<noteq> 0" "length_loop bs fieldName n (Suc offset) ?len = Inr (v, offset')"
    using Suc.prems by (auto simp: Let_def length_step split: if_splits)
  then have ih: "offset' = Suc offset + n \<and> offset' \<le> max (Suc offset) (length bs) \<and>
    v = ?len * 256 ^ n + int (be_nat (take n (drop (Suc offset) bs))) \<and> (0 < n \<longrightarrow> v < 2 ^ 31)"
    using Suc.IH [OF b(4)] Suc.prems(2) uint_byte_bound(1) [of "bs ! offset"] by (metis add_nonneg_nonneg mult_nonneg_nonneg zero_le_numeral)
  have t: "take (Suc n) (drop offset bs) = bs ! offset # take n (drop (Suc offset) bs)"
    using b(1) by (simp add: Cons_nth_drop_Suc [symmetric])
  have ln: "n \<le> length bs - Suc offset" using ih b(1) by auto
  have "v < 2 ^ 31"
  proof (cases n)
    case 0
    have "?len < 256 * 2 ^ 23" using b(2) uint_byte_bound(2) [of "bs ! offset"] by linarith
    then show ?thesis using ih 0 by simp
  qed (use ih in simp)
  then show ?case using ih t b(1,3) ln by (auto simp: algebra_simps min_absorb2)
qed simp

lemma lengthLength_be: "128 \<le> i \<Longrightarrow> i < 2 ^ 31 \<Longrightarrow>
    i < 256 ^ lengthLength i \<and> 256 ^ (lengthLength i - 1) \<le> i \<and> 0 < lengthLength i \<and> lengthLength i \<le> 4"
proof -
  assume i: "128 \<le> i" "i < 2 ^ 31"
  have "lengthLength i = (if i \<le> 255 then 1 else if i \<le> 65535 then 2 else if i \<le> 16777215 then 3 else 4)"
    using i by (simp add: lengthLength.simps [of i] lengthLength.simps [of "i div 256"]
        lengthLength.simps [of "i div 256 div 256"] lengthLength.simps [of "i div 256 div 256 div 256"] drop_bit_eq_div)
       linarith
  then show ?thesis using i by auto
qed

lemma lengthLength_unique: "lengthLength i = n" if "256 ^ (n - 1) \<le> i" "i < 256 ^ n" "0 < n"
  using that
proof (induction n arbitrary: i)
  case (Suc n)
  show ?case
  proof (cases n)
    case 0
    then show ?thesis using Suc.prems by (subst lengthLength.simps) simp
  next
    case (Suc m)
    have "(256 :: int) ^ n \<ge> 256" using Suc by simp
    then have i: "i > 255" using Suc.prems(1) by simp
    have "256 ^ (n - 1) \<le> i div 256" "i div 256 < 256 ^ n"
      using Suc.prems(1,2) Suc by (simp_all add: div_less_iff_less_mult mult.commute)
    then show ?thesis using Suc.IH [of "i div 256"] Suc i
      by (subst lengthLength.simps) (simp add: drop_bit_eq_div)
  qed
qed simp

section \<open>Identifier and length octets\<close>

text \<open>The length octets that \<^verbatim>\<open>appendTagAndLength\<close> writes.\<close>

definition length_octets :: "int \<Rightarrow> bytes" where
  "length_octets n =
     (if n \<ge> 128 then appendLength [0x80 OR of_nat (lengthLength n)] n else [low_byte n])"

definition tag_octets :: "int \<Rightarrow> bool \<Rightarrow> int \<Rightarrow> bytes" where
  "tag_octets cls compound tag =
     (let b = push_bit 6 (low_byte cls); b = (if compound then b OR 0x20 else b)
      in if tag \<ge> 31 then appendBase128Int [b OR 0x1f] tag else [b OR low_byte tag])"

lemma appendTagAndLength_octets:
  "appendTagAndLength dst t = dst @ tag_octets (tl_class t) (tl_isCompound t) (tl_tag t) @ length_octets (tl_length t)"
  by (simp add: appendTagAndLength_def length_octets_def tag_octets_def Let_def appendLength_def appendBase128Int_def)

lemma appendLength_be: "0 \<le> i \<Longrightarrow> appendLength dst i = dst @ be_bytes (lengthLength i) (nat i)"
  using low_bytes_be [of i "lengthLength i"] by (simp add: appendLength_def)

lemma hd_be_bytes:
  assumes "256 ^ (n - 1) \<le> k" "k < 256 ^ n" "0 < n"
  shows "hd (be_bytes n k) \<noteq> 0"
proof -
  obtain m where n: "n = Suc m" using assms(3) by (cases n) auto
  have "k div 256 ^ m < 256" "k div 256 ^ m \<noteq> 0"
    using assms n by (simp_all add: div_less_iff_less_mult mult.commute div_eq_0_iff)
  then have "unat (word_of_nat (k div 256 ^ m) :: byte) \<noteq> 0" by (simp add: unat_of_nat)
  then show ?thesis using n by (metis be_bytes.simps(2) list.sel(1) unat_0)
qed

lemma long_form_byte: "uint ((0x80 :: byte) OR of_nat n) = 128 + int n" if "n < 128"
proof -
  have "uint (of_nat n :: byte) = int n" using that by (simp add: unsigned_of_nat take_bit_nat_eq_self)
  then show ?thesis using or_0x80 [of "of_nat n"] that by (simp add: or.commute)
qed

lemma parse_length_octets:
  assumes "drop offset bs = length_octets n @ rest" "0 \<le> n" "n < 2 ^ 31"
  shows "parse_length bs offset fieldName = Inr (n, offset + length (length_octets n))"
proof (cases "n < 128")
  case True
  then have l: "length_octets n = [low_byte n]" by (simp add: length_octets_def)
  then have b: "offset < length bs" "bs ! offset = low_byte n"
    using assms(1) by (auto simp: nth_via_drop dest: arg_cong [of _ _ length])
  have "uint (low_byte n) = n" using True assms(2) by (simp add: low_byte_uint)
  then show ?thesis using True assms(2) b l
    by (simp add: parse_length_def Let_def and_0x80 uint_and_mask)
next
  case False
  let ?k = "lengthLength n" and ?ds = "be_bytes (lengthLength n) (nat n)"
  have k: "n < 256 ^ ?k" "256 ^ (?k - 1) \<le> n" "0 < ?k" "?k \<le> 4"
    using lengthLength_be [of n] False assms(3) by auto
  have l: "length_octets n = (0x80 OR of_nat ?k) # ?ds"
    using False assms(2) by (simp add: length_octets_def appendLength_be)
  then have b: "offset < length bs" "bs ! offset = 0x80 OR of_nat ?k" and d: "drop (Suc offset) bs = ?ds @ rest"
    using assms(1) by (auto simp: nth_via_drop dest: arg_cong [of _ _ length])
      (metis drop_Suc tl_drop list.sel(3))
  have u: "uint (bs ! offset) = 128 + int ?k" using b(2) long_form_byte [of ?k] k(4) by simp
  then have nb: "uint (bs ! offset AND 0x7f) = int ?k" using k(4) by (simp add: uint_and_mask)
  then have nb': "unat (bs ! offset AND 0x7f) = ?k" by (metis nat_int unat_eq_nat_uint)
  have nat_k: "nat n < 256 ^ ?k" "256 ^ (?k - 1) \<le> nat n"
    using k(1,2) assms(2) by (simp_all add: nat_less_iff le_nat_iff)
  then have be: "int (be_nat ?ds) = n" using assms(2) by simp
  have "length_loop bs fieldName (length ?ds) (Suc offset) 0 = Inr (n, Suc offset + length ?ds)"
    using length_loop_be [OF d, of 0] hd_be_bytes [OF nat_k(2,1) k(3)] be assms(3) by simp
  then show ?thesis using b(1) u nb' k(3) False
    by (simp add: parse_length_def Let_def and_0x80 l)
qed

lemma tag_byte:
  fixes compound :: bool
  assumes "0 \<le> cls" "cls < 4" "0 \<le> t" "t < 32"
  defines "b \<equiv> (let b = push_bit 6 (low_byte cls); b = (if compound then b OR 0x20 else b) in b OR low_byte t)"
  shows "uint b = 64 * cls + (if compound then 32 else 0) + t"
proof -
  have c: "uint (push_bit 6 (low_byte cls)) = push_bit 6 cls"
    by (simp only: unsigned_push_bit_eq low_byte_uint)
       (use assms(1-4) in \<open>simp add: push_bit_eq_mult take_bit_eq_mod\<close>)
  have t: "uint (low_byte t) = t" using assms by (simp add: low_byte_uint)
  have "(push_bit 6 cls OR 32) OR t = 64 * cls + (32 + t)"
    using push_or [of "32 + t" 6 cls] push_or [of t 5 1] assms by (simp add: or.assoc)
  moreover have "push_bit 6 cls OR t = 64 * cls + t" using push_or [of t 6 cls] assms by simp
  ultimately show ?thesis by (simp add: b_def Let_def unsigned_or_eq c t add.assoc)
qed

lemma tag_byte_fields:
  fixes b :: byte
  assumes "uint b = 64 * cls + (if compound then 32 else 0) + t" "0 \<le> cls" "cls < 4" "0 \<le> t" "t < 32"
  shows "uint (drop_bit 6 b) = cls" "uint (b AND 0x1f) = t" "b AND 0x20 = 0x20 \<longleftrightarrow> compound"
proof -
  show "uint (drop_bit 6 b) = cls"
    by (simp only: unsigned_drop_bit_eq) (use assms in \<open>auto simp: drop_bit_eq_div take_bit_eq_mod\<close>)
  have ub: "uint b = t + 32 * (2 * cls + (if compound then 1 else 0))" using assms by simp
  show "uint (b AND 0x1f) = t" using assms(4,5) ub by (simp add: uint_and_mask del: distrib_left_numeral)
  have "b AND 2 ^ n = (if bit b n then 2 ^ n else 0)" for n
    by (rule bit_eqI) (auto simp: bit_and_iff bit_exp_iff)
  from this [of 5] have "b AND 0x20 = 0x20 \<longleftrightarrow> bit b 5" by simp
  also have "bit b 5 \<longleftrightarrow> odd (uint b div 32)" using bit_uint_iff [of b 5] by (simp add: bit_iff_odd)
  also have "uint b div 32 = 2 * cls + (if compound then 1 else 0)" unfolding ub using assms(4,5) by (simp del: distrib_left_numeral)
  finally show "b AND 0x20 = 0x20 \<longleftrightarrow> compound" by simp
qed

text \<open>A header is one that the encoder writes for an element of a size below \<^verbatim>\<open>2^31\<close>.\<close>

definition wf_header :: "tagAndLength \<Rightarrow> bool" where
  "wf_header t \<longleftrightarrow> 0 \<le> tl_class t \<and> tl_class t < 4 \<and> 0 \<le> tl_tag t \<and> tl_tag t < 2 ^ 31 \<and>
     0 \<le> tl_length t \<and> tl_length t < 2 ^ 31"

lemma parse_header:
  assumes "drop offset bs = appendTagAndLength [] t @ rest" "wf_header t"
  shows "parseTagAndLength bs offset fieldName = Inr (t, offset + length (appendTagAndLength [] t))"
proof -
  let ?c = "tl_class t" and ?k = "tl_isCompound t" and ?g = "tl_tag t"
  let ?low = "if ?g \<ge> 31 then 31 else ?g"
  have r: "0 \<le> ?c" "?c < 4" "0 \<le> ?g" "?g \<le> 2147483647" using assms(2) by (auto simp: wf_header_def)
  obtain b ts where b: "tag_octets ?c ?k ?g = b # ts" "ts = (if ?g \<ge> 31 then appendBase128Int [] ?g else [])"
    and ub: "uint b = 64 * ?c + (if ?k then 32 else 0) + ?low"
  proof (cases "?g \<ge> 31")
    case True
    then show ?thesis
      using that [OF _ refl] r tag_byte [of ?c 31 ?k] by (simp add: tag_octets_def Let_def appendBase128Int_def)
  next
    case False
    then show ?thesis
      using that [OF _ refl] r tag_byte [of ?c ?g ?k] by (simp add: tag_octets_def Let_def)
  qed
  have d: "drop offset bs = b # ts @ length_octets (tl_length t) @ rest"
    using assms(1) b by (simp add: appendTagAndLength_octets)
  then have o: "offset < length bs" "bs ! offset = b" and d1: "drop (Suc offset) bs = ts @ length_octets (tl_length t) @ rest"
    by (auto simp: nth_via_drop dest: arg_cong [of _ _ length]) (metis drop_Suc tl_drop list.sel(3))
  have d2: "drop (Suc offset + length ts) bs = length_octets (tl_length t) @ rest"
    using d1 by (metis append_eq_conv_conj drop_drop add.commute)
  note f = tag_byte_fields [OF ub r(1,2)]
  have len: "parse_length bs (Suc offset + length ts) fieldName
      = Inr (tl_length t, Suc offset + length ts + length (length_octets (tl_length t)))"
    using parse_length_octets [OF d2] assms(2) by (simp add: wf_header_def)
  have tag: "(if uint (b AND 0x1f) = 0x1f then
        bind_res (parseBase128Int bs (Suc offset) fieldName) (\<lambda>(tag, offset).
          if tag < 0x1f then Inl (SyntaxError ''non-minimal tag'' fieldName) else Inr (tag, offset))
      else Inr (uint (b AND 0x1f), Suc offset)) = Inr (?g, Suc offset + length ts)"
    using f r b(2) parseBase128Int_append [of "Suc offset" bs ?g "length_octets (tl_length t) @ rest" fieldName] d1
    by simp
  have eta: "\<lparr>tl_class = ?c, tl_tag = ?g, tl_length = tl_length t, tl_isCompound = ?k\<rparr> = t" by simp
  show ?thesis
    using o f r unfolding parseTagAndLength_def Let_def o(2) tag
    by (simp add: len [simplified] eta appendTagAndLength_octets b(1))
qed

lemma int_pow256: "256 ^ m \<le> k \<Longrightarrow> 256 ^ m \<le> int k" "k < 256 ^ m \<Longrightarrow> int k < 256 ^ m"
  by (metis of_nat_le_iff of_nat_numeral of_nat_power, metis of_nat_less_iff of_nat_numeral of_nat_power)

lemma parse_length_Inr:
  assumes "parse_length bs offset fieldName = Inr (n, offset')"
  shows "0 \<le> n" "n < 2 ^ 31" "offset < offset'" "offset' \<le> length bs"
    "take (offset' - offset) (drop offset bs) = length_octets n"
proof -
  let ?b = "bs ! offset"
  have o: "offset < length bs" using assms by (simp add: parse_length_def split: if_splits)
  have t: "take (Suc k) (drop offset bs) = ?b # take k (drop (Suc offset) bs)" for k
    using o by (simp add: Cons_nth_drop_Suc [symmetric])
  have "0 \<le> n \<and> n < 2 ^ 31 \<and> offset < offset' \<and> offset' \<le> length bs \<and>
    take (offset' - offset) (drop offset bs) = length_octets n"
  proof (cases "uint ?b < 128")
    case True
    then have "n = uint ?b" "offset' = Suc offset"
      using assms o by (auto simp: parse_length_def Let_def and_0x80 uint_and_mask)
    then show ?thesis using True o t [of 0] by (simp add: length_octets_def)
  next
    case False
    let ?k = "unat (?b AND 0x7f)" and ?ds = "take (unat (?b AND 0x7f)) (drop (Suc offset) bs)"
    have k: "int ?k = uint ?b - 128"
    proof -
      have "uint ?b mod 128 = (uint ?b - 128) mod 128" by simp
      also have "\<dots> = uint ?b - 128" using False uint_byte_bound(2) [of ?b] by (intro mod_pos_pos_trivial) linarith+
      finally show ?thesis using uint_and_mask(1) [of ?b] by (simp add: unat_eq_nat_uint)
    qed
    have l: "length_loop bs fieldName ?k (Suc offset) 0 = Inr (n, offset')" "?k \<noteq> 0" "128 \<le> n"
      using assms o False by (auto simp: parse_length_def Let_def and_0x80 result_simps split: if_splits)
    have ll: "offset' = Suc offset + ?k" "offset' \<le> length bs" "n = int (be_nat ?ds)" "n < 2 ^ 31" "bs ! Suc offset \<noteq> 0"
      using length_loop_Inr [OF l(1)] l(2) o by auto
    have len: "length ?ds = ?k" using ll(1,2) by simp
    then obtain d ds where ds: "?ds = d # ds" using l(2) by (cases ?ds) auto
    have "?ds ! 0 = bs ! Suc offset" using ll(1,2) l(2) by simp
    then have "d = bs ! Suc offset" using ds by simp
    then have d: "unat d \<noteq> 0" using ll(5) by (simp add: unat_eq_zero)
    have p: "256 ^ length ds \<le> unat d * 256 ^ length ds" using d by simp
    have k1: "?k - 1 = length ds" using ds len by simp
    have lo: "256 ^ (?k - 1) \<le> be_nat ?ds" unfolding k1 ds be_nat_Cons using p by linarith
    have hi: "be_nat ?ds < 256 ^ ?k" using be_nat_bound [of ?ds] len by simp
    have "lengthLength n = ?k"
      using int_pow256(1) [OF lo] int_pow256(2) [OF hi] l(2) ll(3) by (intro lengthLength_unique) auto
    moreover have "(0x80 :: byte) OR of_nat ?k = ?b"
    proof -
      have "?k < 128" using k uint_byte_bound(2) [of ?b] by linarith
      then show ?thesis using k long_form_byte [of ?k] by (intro word_uint_eq_iff [THEN iffD2]) linarith
    qed
    ultimately have "length_octets n = ?b # be_bytes ?k (be_nat ?ds)"
      using l(3) ll(3) by (simp add: length_octets_def appendLength_be)
    moreover have "be_bytes ?k (be_nat ?ds) = ?ds" using be_bytes_be_nat [of ?ds] len by simp
    ultimately show ?thesis using ll l(3) t [of ?k] by simp
  qed
  then show "0 \<le> n" "n < 2 ^ 31" "offset < offset'" "offset' \<le> length bs"
    "take (offset' - offset) (drop offset bs) = length_octets n" by blast+
qed

lemma byte_split: "u = 64 * (u div 64) + (if u div 32 mod 2 = 1 then 32 else 0) + u mod 32" for u :: int
proof -
  have d: "u div 64 = u div 32 div 2" using zdiv_zmult2_eq [of 2 u 32] by simp
  have m: "u = 32 * (u div 32) + u mod 32" "u div 32 = 2 * (u div 32 div 2) + u div 32 mod 2" by simp_all
  show ?thesis
  proof (cases "u div 32 mod 2 = 1")
    case True
    then have "u = 64 * (u div 32 div 2) + 32 + u mod 32" using m by linarith
    then show ?thesis using True unfolding d by simp
  next
    case False
    then have "u div 32 mod 2 = 0" by simp
    then have "u = 64 * (u div 32 div 2) + u mod 32" using m by linarith
    then show ?thesis using False unfolding d by simp
  qed
qed

lemma header_canonical:
  assumes "parseTagAndLength bs offset fieldName = Inr (t, offset')" "tl_tag t < 31"
  shows "wf_header t" "offset < offset'" "offset' \<le> length bs"
    "take (offset' - offset) (drop offset bs) = appendTagAndLength [] t"
proof -
  let ?b = "bs ! offset"
  have o: "offset < length bs" using assms(1) by (simp add: parseTagAndLength_def split: if_splits)
  have low: "uint (?b AND 0x1f) \<noteq> 0x1f"
    using assms o by (auto simp: parseTagAndLength_def Let_def result_simps split: if_splits)
  then have l: "parse_length bs (Suc offset) fieldName = Inr (tl_length t, offset')"
    and t: "tl_class t = uint (drop_bit 6 ?b)" "tl_tag t = uint (?b AND 0x1f)" "tl_isCompound t = (?b AND 0x20 = 0x20)"
    using assms(1) o by (auto simp: parseTagAndLength_def Let_def result_simps)
  note pl = parse_length_Inr [OF l]
  have c: "tl_class t = uint ?b div 64"
    unfolding t(1) by (simp only: unsigned_drop_bit_eq) (simp add: drop_bit_eq_div take_bit_eq_mod)
  have g: "tl_tag t = uint ?b mod 32" using t(2) by (simp add: uint_and_mask)
  have range: "0 \<le> tl_class t" "tl_class t < 4" "0 \<le> tl_tag t"
    using uint_byte_bound [of ?b] unfolding c g by linarith+
  then show "wf_header t" using pl(1,2) assms(2) by (simp add: wf_header_def)
  show "offset < offset'" "offset' \<le> length bs" using pl(3,4) by simp_all
  define k where "k = (uint ?b div 32 mod 2 = 1)"
  have ub: "uint ?b = 64 * tl_class t + (if k then 32 else 0) + tl_tag t"
    unfolding c g k_def by (rule byte_split)
  then have k: "tl_isCompound t = k" using tag_byte_fields(3) [OF ub] range assms(2) t(3) by simp
  have "tag_octets (tl_class t) k (tl_tag t) = [?b]"
    using assms(2) range ub tag_byte [of "tl_class t" "tl_tag t" k]
    by (simp add: tag_octets_def Let_def word_uint_eq_iff)
  moreover have "take (offset' - offset) (drop offset bs) = ?b # take (offset' - Suc offset) (drop (Suc offset) bs)"
    using o pl(3) by (simp add: Cons_nth_drop_Suc [symmetric] take_Cons' )
  ultimately show "take (offset' - offset) (drop offset bs) = appendTagAndLength [] t"
    using pl(5) k by (simp add: appendTagAndLength_octets)
qed

section \<open>Object identifiers\<close>

lemma appendBase128Int_dst: "appendBase128Int dst n = dst @ appendBase128Int [] n"
  by (simp add: appendBase128Int_def)

lemma foldl_appendBase128: "foldl appendBase128Int dst ns = dst @ concat (map (appendBase128Int []) ns)"
  by (induction ns arbitrary: dst) (simp_all, subst appendBase128Int_dst, simp)

lemma appendBase128Int_nonempty: "0 \<le> n \<Longrightarrow> appendBase128Int [] n \<noteq> []"
  by (simp add: appendBase128Int_def base128IntLength_def base128_count.simps)

lemma oid_loop_append:
  assumes "drop offset bs = concat (map (appendBase128Int []) ns)" "list_all (\<lambda>n. 0 \<le> n \<and> n \<le> 2147483647) ns"
    "offset \<le> length bs"
  shows "oid_loop bs fieldName offset = Inr ns"
  using assms
proof (induction ns arbitrary: offset)
  case Nil
  then show ?case by (subst oid_loop.simps) simp
next
  case (Cons n ns)
  let ?e = "appendBase128Int [] n"
  have n: "0 \<le> n" "n \<le> 2147483647" using Cons.prems(2) by simp_all
  have p: "parseBase128Int bs offset fieldName = Inr (n, offset + length ?e)"
    using parseBase128Int_append [OF _ n, of offset bs] Cons.prems(1) by simp
  have "drop offset bs = ?e @ concat (map (appendBase128Int []) ns)" using Cons.prems(1) by simp
  then have "drop (length ?e) (drop offset bs) = concat (map (appendBase128Int []) ns)" by simp
  then have "drop (offset + length ?e) bs = concat (map (appendBase128Int []) ns)" by (simp add: add.commute)
  moreover have "offset < length bs" "offset + length ?e \<le> length bs" using parseBase128Int_offset [OF p] by linarith+
  ultimately show ?case using Cons.IH [of "offset + length ?e"] Cons.prems(2) p
    by (subst oid_loop.simps) simp
qed

lemma oid_roundtrip_aux:
  assumes "makeObjectIdentifier oid fieldName = Inr bs"
    and "list_all (\<lambda>n. 0 \<le> n \<and> n \<le> 2147483647) oid" "oid ! 0 * 40 + oid ! 1 \<le> 2147483647"
  shows "parseObjectIdentifier bs lax fieldName' = Inr oid"
proof -
  obtain a b arcs where oid: "oid = a # b # arcs"
    using assms(1) by (cases oid rule: list.exhaust; cases "tl oid") (auto simp: makeObjectIdentifier_def split: if_splits)
  have ab: "a \<le> 2" "a < 2 \<Longrightarrow> b < 40" "0 \<le> a" "0 \<le> b" "a * 40 + b \<le> 2147483647"
    and bs: "bs = oid_Encode oid" using assms oid by (auto simp: makeObjectIdentifier_def split: if_splits)
  let ?v = "a * 40 + b"
  have v: "bs = appendBase128Int [] ?v @ concat (map (appendBase128Int []) arcs)"
    using ab by (simp add: bs oid oid_Encode_def foldl_appendBase128 wrap64_id)
  have p: "parseBase128Int bs 0 fieldName' = Inr (?v, length (appendBase128Int [] ?v))"
    using parseBase128Int_append [of 0 bs ?v] v ab by simp
  have "oid_loop bs fieldName' (length (appendBase128Int [] ?v)) = Inr arcs"
    using assms(2) oid v by (intro oid_loop_append) simp_all
  moreover have "(if ?v < 80 then [?v div 40, ?v mod 40] else [2, ?v - 80]) = [a, b]"
  proof (cases "a < 2")
    case True
    then show ?thesis using ab by auto
  next
    case False
    then have "a = 2" using ab by simp
    then show ?thesis using ab by simp
  qed
  ultimately show ?thesis
    using p appendBase128Int_nonempty [of ?v] ab v oid by (auto simp: parseObjectIdentifier_def)
qed

section \<open>Integers\<close>

lemma unat_byte_uint: "int (unat (b :: byte)) = uint b"
  unfolding unat_eq_nat_uint by (rule nat_0_le) simp

lemma unat_not: "unat (NOT b) = 255 - unat b" for b :: byte
proof -
  have m: "(- u - 1) mod 256 = (255 - u) mod 256" for u :: int
  proof -
    have "255 - u = (- u - 1) + 256" by simp
    then show ?thesis by (simp only: mod_add_self2)
  qed
  have "uint (NOT b) = (- uint b - 1) mod 256"
    by (simp only: unsigned_not_eq take_bit_eq_mod not_int_def) simp
  then have "uint (NOT b) = 255 - uint b" unfolding m using uint_byte_bound [of b] by simp
  then show ?thesis using unat_byte_uint [of b] unat_byte_uint [of "NOT b"] by linarith
qed

lemma and_0x80_unat: "b AND 0x80 = 0 \<longleftrightarrow> unat b < 128" "b AND 0x80 = 0x80 \<longleftrightarrow> unat b \<ge> 128" for b :: byte
proof -
  show z: "b AND 0x80 = 0 \<longleftrightarrow> unat b < 128" using and_0x80 [of b] unat_byte_uint [of b] by linarith
  have "b AND 2 ^ n = (if bit b n then 2 ^ n else 0)" for n
    by (rule bit_eqI) (auto simp: bit_and_iff bit_exp_iff)
  from this [of 7] have "b AND 0x80 = 0x80 \<longleftrightarrow> b AND 0x80 \<noteq> 0" by auto
  then show "b AND 0x80 = 0x80 \<longleftrightarrow> unat b \<ge> 128" using z by auto
qed

lemma be_nat_not: "be_nat (map NOT bs) + be_nat bs + 1 = 256 ^ length bs" for bs :: bytes
proof (induction bs)
  case (Cons b bs)
  have "unat (NOT b) + unat b = 255" using unat_not [of b] unat_byte_less [of b] by linarith
  then have "unat (NOT b) * p + unat b * p = 255 * p" for p :: nat by (metis add_mult_distrib)
  then have "unat (NOT b) * 256 ^ length bs + unat b * 256 ^ length bs = 255 * 256 ^ length bs" by blast
  then show ?case using Cons by simp
qed simp

lemma big_Bytes_be_nat: "be_nat (big_Bytes n) = n"
proof (induction n rule: big_Bytes.induct)
  case (1 n)
  then show ?case
    by (subst big_Bytes.simps) (auto simp: be_nat_append unat_of_nat)
qed

lemma big_Bytes_hd: "n \<noteq> 0 \<Longrightarrow> big_Bytes n \<noteq> [] \<and> hd (big_Bytes n) \<noteq> 0"
proof (induction n rule: big_Bytes.induct)
  case (1 n)
  show ?case
  proof (cases "n div 256 = 0")
    case True
    then have "n < 256" by (simp add: div_eq_0_iff)
    moreover have "big_Bytes n = [of_nat n]" using 1(2) True by (simp add: big_Bytes.simps [of n] big_Bytes.simps [of 0])
    moreover from \<open>n < 256\<close> 1(2) have "unat (of_nat n :: byte) \<noteq> 0" by (simp add: unat_of_nat)
    ultimately show ?thesis by (metis list.discI list.sel(1) unat_0)
  next
    case False
    then show ?thesis using 1 by (subst (1 2) big_Bytes.simps) simp
  qed
qed

lemma big_Bytes_unique: "ds = [] \<or> hd ds \<noteq> 0 \<Longrightarrow> big_Bytes (be_nat ds) = ds"
proof (induction ds rule: rev_induct)
  case Nil
  then show ?case by (subst big_Bytes.simps) simp
next
  case (snoc d ds)
  have ih: "big_Bytes (be_nat ds) = ds" using snoc by (cases ds) auto
  have n: "be_nat (ds @ [d]) = be_nat ds * 256 + unat d" by (simp add: be_nat_append)
  have "be_nat (ds @ [d]) \<noteq> 0"
  proof (cases ds)
    case Nil
    then show ?thesis using snoc.prems by (simp add: unat_eq_zero)
  next
    case (Cons e es)
    then have "unat e \<noteq> 0" using snoc.prems by (simp add: unat_eq_zero)
    then show ?thesis using Cons n by simp
  qed
  moreover have z: "(256 :: byte) = 0" by simp
  have "be_nat (ds @ [d]) div 256 = be_nat ds" "of_nat (be_nat (ds @ [d])) = d"
    unfolding n using unat_byte_less [of d] by (simp_all add: z)
  ultimately show ?case using ih by (subst big_Bytes.simps) simp
qed

text \<open>The value of a two's complement byte string.\<close>

lemma parseBigInt_Inr:
  "parseBigInt bs False fieldName = Inr n \<longleftrightarrow>
     checkInteger bs False fieldName = Inr () \<and>
     n = (if unat (bs ! 0) \<ge> 128 then - int (be_nat (map NOT bs)) - 1 else int (be_nat bs))"
  by (auto simp: parseBigInt_def result_simps and_0x80_unat checkInteger_def split: if_splits)

lemma checkInteger_iff:
  "checkInteger bs False fieldName = Inr () \<longleftrightarrow>
     (\<exists>b. bs = [b]) \<or>
     (\<exists>b c ds. bs = b # c # ds \<and> (b = 0 \<longrightarrow> unat c \<ge> 128) \<and> (b = 0xff \<longrightarrow> unat c < 128))"
proof (cases bs)
  case (Cons b r)
  then show ?thesis by (cases r) (auto simp: checkInteger_def and_0x80_unat not_less)
qed (simp add: checkInteger_def)

lemma map_not_not: "map NOT (map NOT bs) = bs" for bs :: bytes
  by (simp add: comp_def)

lemma unat_ff: "unat (b :: byte) = 255 \<longleftrightarrow> b = 0xff"
proof -
  have "unat (0xff :: byte) = 255" by simp
  then show ?thesis by (metis word_unat_eq_iff)
qed

lemma not_eq_0: "NOT b = 0 \<longleftrightarrow> b = 0xff" for b :: byte
proof -
  have "unat (NOT b) = 0 \<longleftrightarrow> unat b = 255" using unat_not [of b] unat_byte_less [of b] by linarith
  then show ?thesis unfolding unat_ff unat_eq_zero .
qed

lemma makeBigInt_pos:
  "m \<noteq> 0 \<Longrightarrow> makeBigInt (Some (int m)) fieldName
     = (if big_Bytes m \<noteq> [] \<and> unat (big_Bytes m ! 0) \<ge> 128 then Inr (0 # big_Bytes m) else Inr (big_Bytes m))"
  by (simp add: makeBigInt_def Let_def and_0x80_unat not_less)

lemma makeBigInt_parse:
  assumes "checkInteger bs False fieldName = Inr ()"
  shows "makeBigInt (Some (if unat (bs ! 0) \<ge> 128 then - int (be_nat (map NOT bs)) - 1 else int (be_nat bs))) fieldName'
    = Inr bs"
proof -
  obtain b r where bs: "bs = b # r" using assms by (cases bs) (auto simp: checkInteger_def)
  show ?thesis
  proof (cases "unat b \<ge> 128")
    case True
    let ?m = "be_nat (map NOT bs)"
    have mk: "makeBigInt (Some (- int ?m - 1)) fieldName'
        = (let ds = map NOT (big_Bytes ?m) in if length ds = 0 \<or> ds ! 0 AND 0x80 = 0 then Inr ([0xff] @ ds) else Inr ds)"
      by (simp add: makeBigInt_def)
    have "makeBigInt (Some (- int ?m - 1)) fieldName' = Inr bs"
    proof (cases "b = 0xff")
      case False
      then have "big_Bytes ?m = map NOT bs" using not_eq_0 [of b] bs by (intro big_Bytes_unique) simp
      then have "map NOT (big_Bytes ?m) = bs" by (simp only: map_not_not)
      then show ?thesis unfolding mk using bs True by (simp add: Let_def and_0x80_unat)
    next
      case ff: True
      have m: "?m = be_nat (map NOT r)" using bs ff by (simp add: not_eq_0 [THEN iffD2])
      have r: "r = [] \<or> unat (hd r) < 128" using assms ff bs by (auto simp: checkInteger_iff)
      then have "big_Bytes ?m = map NOT r"
        unfolding m using not_eq_0 [of "hd r"] unat_ff [of "hd r"] by (intro big_Bytes_unique) (cases r; auto)
      then have "map NOT (big_Bytes ?m) = r" by (simp only: map_not_not)
      then show ?thesis unfolding mk using r bs ff by (cases r) (auto simp: Let_def and_0x80_unat)
    qed
    then show ?thesis using True bs by simp
  next
    case False
    let ?m = "be_nat bs"
    have "makeBigInt (Some (int ?m)) fieldName' = Inr bs"
    proof (cases "b = 0")
      case b0: True
      show ?thesis
      proof (cases r)
        case Nil
        then show ?thesis using b0 bs by (simp add: makeBigInt_def)
      next
        case (Cons c ds)
        then have c: "unat c \<ge> 128" using assms b0 bs by (auto simp: checkInteger_iff)
        then have "c \<noteq> 0" by auto
        then have "big_Bytes ?m = r" using Cons b0 bs big_Bytes_unique [of r] by simp
        moreover have "?m \<noteq> 0" using Cons b0 bs c by simp
        ultimately show ?thesis using Cons b0 bs c makeBigInt_pos [of ?m] by simp
      qed
    next
      case b0: False
      then have "unat b \<noteq> 0" by (simp add: unat_eq_zero)
      then have "big_Bytes ?m = bs" "?m \<noteq> 0" using b0 bs big_Bytes_unique [of bs] by simp_all
      then show ?thesis using bs False makeBigInt_pos [of ?m] by simp
    qed
    then show ?thesis using False bs by simp
  qed
qed

lemma makeBigInt_check:
  assumes "makeBigInt (Some n) fieldName' = Inr bs"
  shows "checkInteger bs False fieldName = Inr ()"
    "n = (if unat (bs ! 0) \<ge> 128 then - int (be_nat (map NOT bs)) - 1 else int (be_nat bs))"
proof -
  have "checkInteger bs False fieldName = Inr () \<and>
    n = (if unat (bs ! 0) \<ge> 128 then - int (be_nat (map NOT bs)) - 1 else int (be_nat bs))"
  proof (cases "n < 0")
    case True
    let ?k = "nat (- n - 1)" and ?ds = "map NOT (big_Bytes (nat (- n - 1)))"
    have k: "be_nat (map NOT ?ds) = ?k" by (simp only: map_not_not big_Bytes_be_nat)
    have n: "n = - int ?k - 1" using True by simp
    have mk: "bs = (if ?ds = [] \<or> unat (?ds ! 0) < 128 then 0xff # ?ds else ?ds)"
      using assms True by (auto simp: makeBigInt_def Let_def and_0x80_unat split: if_splits)
    have hd: "?ds = [] \<or> hd ?ds \<noteq> 0xff"
    proof (cases "?k = 0")
      case True
      then show ?thesis by (simp add: big_Bytes.simps)
    next
      case False
      then show ?thesis using big_Bytes_hd [OF False] not_eq_0 by (cases "big_Bytes ?k") (auto, metis bit.double_compl)
    qed
    show ?thesis
    proof (cases "?ds = [] \<or> unat (?ds ! 0) < 128")
      case True
      have "be_nat (map NOT (0xff # ?ds)) = ?k" using k by (simp add: not_eq_0 [THEN iffD2])
      then show ?thesis using True mk n by (cases ?ds) (auto simp: checkInteger_iff)
    next
      case False
      then obtain d ds where ds: "?ds = d # ds" "unat d \<ge> 128" by (cases ?ds) auto
      then have "bs = d # ds" "d \<noteq> 0xff" "d \<noteq> 0" using mk hd by auto
      then show ?thesis using n k ds by (cases ds) (auto simp: checkInteger_iff)
    qed
  next
    case False
    show ?thesis
    proof (cases "n = 0")
      case True
      then show ?thesis using assms by (auto simp: makeBigInt_def checkInteger_iff)
    next
      case n0: False
      let ?ds = "big_Bytes (nat n)"
      obtain d ds where ds: "?ds = d # ds" "d \<noteq> 0" using big_Bytes_hd [of "nat n"] n0 False by (cases ?ds) auto
      have k: "int (be_nat ?ds) = n" using False by (simp add: big_Bytes_be_nat)
      have mk: "bs = (if unat d \<ge> 128 then 0 # ?ds else ?ds)"
        using assms False n0 ds by (auto simp: makeBigInt_def Let_def and_0x80_unat split: if_splits)
      have "d \<noteq> 0xff" if "unat d < 128" using that by auto
      then show ?thesis using mk ds k by (cases ds) (auto simp: checkInteger_iff)
    qed
  qed
  then show "checkInteger bs False fieldName = Inr ()"
    "n = (if unat (bs ! 0) \<ge> 128 then - int (be_nat (map NOT bs)) - 1 else int (be_nat bs))" by blast+
qed

section \<open>Properties\<close>



text \<open>
  A padded tag number or object identifier arc is accepted, although DER has one encoding only:
  two byte strings that differ in a leading \<^verbatim>\<open>0x80\<close> octet give the same tag, and the same identifier.
\<close>

theorem padded_base128_accepted:
  "parseTagAndLength [0x1f, 0x80, 0x1f, 0] 0 fieldName = Inr (\<lparr>tl_class = 0, tl_tag = 31, tl_length = 0, tl_isCompound = False\<rparr>, 4) \<and>
   parseTagAndLength [0x1f, 0x1f, 0] 0 fieldName = Inr (\<lparr>tl_class = 0, tl_tag = 31, tl_length = 0, tl_isCompound = False\<rparr>, 3) \<and>
   parseObjectIdentifier [0x2a, 0x80, 0x03] False fieldName = parseObjectIdentifier [0x2a, 0x03] False fieldName"
  by (simp add: parseTagAndLength_def parse_length_def parseBase128Int_def base128_loop.simps
      parseObjectIdentifier_def oid_loop.simps Let_def)

text \<open>
  (C26) DER integers are canonical: strict parsing of an INTEGER yields \<open>n\<close> exactly on the bytes that
  \<^verbatim>\<open>makeBigInt\<close> writes for \<open>n\<close>, for integers of every size and sign.
\<close>

theorem parseBigInt_iff: "parseBigInt bs False fieldName = Inr n \<longleftrightarrow> makeBigInt (Some n) fieldName' = Inr bs"
  using makeBigInt_parse makeBigInt_check unfolding parseBigInt_Inr by metis



end
