(* ===== verification/ASN1_Strings.thy ===== *)
theory ASN1_Strings
  imports ASN1_Base
begin

text \<open>
  The string and time types of package \<^verbatim>\<open>asn1\<close> (\<^verbatim>\<open>src/asn1/asn1.go\<close>, \<^verbatim>\<open>src/asn1/marshal.go\<close>). A Go
  string is the list of its bytes. The functions of \<^verbatim>\<open>unicode/utf8\<close>, \<^verbatim>\<open>unicode/utf16\<close> and \<^verbatim>\<open>time\<close>
  that the sources call are modelled by their documented meaning.
\<close>

unbundle bit_operations_syntax

section \<open>String types\<close>

definition isNumeric :: "byte \<Rightarrow> bool" where
  "isNumeric b \<longleftrightarrow> 48 \<le> b \<and> b \<le> 57 \<or> b = 32"

definition parseNumericString :: "bytes \<Rightarrow> string \<Rightarrow> asn1_err + bytes" where
  "parseNumericString bs fieldName =
     (if list_all isNumeric bs then Inr bs
      else Inl (SyntaxError ''NumericString contains invalid character'' fieldName))"

text \<open>The flags are \<^verbatim>\<open>asterisk\<close> and \<^verbatim>\<open>ampersand\<close>.\<close>

definition isPrintable :: "byte \<Rightarrow> bool \<Rightarrow> bool \<Rightarrow> bool" where
  "isPrintable b asterisk ampersand \<longleftrightarrow>
     97 \<le> b \<and> b \<le> 122 \<or> 65 \<le> b \<and> b \<le> 90 \<or> 48 \<le> b \<and> b \<le> 57 \<or> 39 \<le> b \<and> b \<le> 41 \<or> 43 \<le> b \<and> b \<le> 47 \<or>
     b = 32 \<or> b = 58 \<or> b = 61 \<or> b = 63 \<or> asterisk \<and> b = 42 \<or> ampersand \<and> b = 38"

definition couldBeISO8859_1 :: "bytes \<Rightarrow> bool" where
  "couldBeISO8859_1 bs = list_all (\<lambda>b. \<not> (b < 0x20 \<or> b \<ge> 0x7F \<and> b < 0xA0)) bs"

definition couldBeT61 :: "bytes \<Rightarrow> bool" where
  "couldBeT61 bs = list_all (\<lambda>b. b \<notin> set [0x00,
     0x23, 0x24, 0x5C, 0x5E, 0x60, 0x7B, 0x7D, 0x7E, 0xA5, 0xA6, 0xAC, 0xAD, 0xAE, 0xAF,
     0xB9, 0xBA, 0xC0, 0xC9, 0xD0, 0xD1, 0xD2, 0xD3, 0xD4, 0xD5, 0xD6, 0xD7, 0xD8, 0xD9,
     0xDA, 0xDB, 0xDC, 0xDE, 0xDF, 0xE5, 0xFF]) bs"

text \<open>The UTF-8 encoding of a code point, as the conversion \<^verbatim>\<open>string([]rune)\<close> makes it.\<close>

definition utf8_rune :: "nat \<Rightarrow> bytes" where
  "utf8_rune r =
     (if r < 0x80 then [of_nat r]
      else if r < 0x800 then [of_nat (0xC0 + r div 64), of_nat (0x80 + r mod 64)]
      else if 0xD800 \<le> r \<and> r < 0xE000 \<or> r > 0x10FFFF then [0xEF, 0xBF, 0xBD]
      else if r < 0x10000 then
        [of_nat (0xE0 + r div 4096), of_nat (0x80 + r div 64 mod 64), of_nat (0x80 + r mod 64)]
      else
        [of_nat (0xF0 + r div 262144), of_nat (0x80 + r div 4096 mod 64), of_nat (0x80 + r div 64 mod 64),
         of_nat (0x80 + r mod 64)])"

definition iso8859_1ToUTF8 :: "bytes \<Rightarrow> bytes" where
  "iso8859_1ToUTF8 bs = concat (map (\<lambda>b. utf8_rune (unat b)) bs)"

definition parseT61String :: "bytes \<Rightarrow> asn1_err + bytes" where
  "parseT61String bs = Inr bs"

definition parsePrintableString :: "bytes \<Rightarrow> bool \<Rightarrow> string \<Rightarrow> asn1_err + bytes" where
  "parsePrintableString bs lax fieldName =
     (if list_all (\<lambda>b. isPrintable b True True) bs then Inr bs
      else if \<not> lax then Inl (SyntaxError ''PrintableString contains invalid character'' fieldName)
      else if couldBeISO8859_1 bs then Inr (iso8859_1ToUTF8 bs)
      else if couldBeT61 bs then parseT61String bs
      else Inl (SyntaxError ''PrintableString contains invalid character, couldn't determine correct String type'' fieldName))"

definition parseIA5String :: "bytes \<Rightarrow> string \<Rightarrow> asn1_err + bytes" where
  "parseIA5String bs fieldName =
     (if list_ex (\<lambda>b. b \<ge> 0x80) bs then Inl (SyntaxError ''IA5String contains invalid character'' fieldName)
      else Inr bs)"

text \<open>
  \<^verbatim>\<open>utf8.Valid\<close>: the well-formed byte sequences of the Unicode standard (no overlong forms, no
  surrogates, nothing above U+10FFFF).
\<close>

definition utf8_cont :: "byte \<Rightarrow> bool" where
  "utf8_cont b \<longleftrightarrow> 0x80 \<le> b \<and> b \<le> 0xBF"

fun utf8_Valid :: "bytes \<Rightarrow> bool" where
  "utf8_Valid [] = True"
| "utf8_Valid (b # bs) =
     (if b < 0x80 then utf8_Valid bs
      else if 0xC2 \<le> b \<and> b \<le> 0xDF then
        (case bs of c1 # r \<Rightarrow> utf8_cont c1 \<and> utf8_Valid r | _ \<Rightarrow> False)
      else if 0xE0 \<le> b \<and> b \<le> 0xEF then
        (case bs of
           c1 # c2 # r \<Rightarrow>
             utf8_cont c1 \<and> utf8_cont c2 \<and> (b \<noteq> 0xE0 \<or> 0xA0 \<le> c1) \<and> (b \<noteq> 0xED \<or> c1 \<le> 0x9F) \<and> utf8_Valid r
         | _ \<Rightarrow> False)
      else if 0xF0 \<le> b \<and> b \<le> 0xF4 then
        (case bs of
           c1 # c2 # c3 # r \<Rightarrow>
             utf8_cont c1 \<and> utf8_cont c2 \<and> utf8_cont c3 \<and> (b \<noteq> 0xF0 \<or> 0x90 \<le> c1) \<and>
             (b \<noteq> 0xF4 \<or> c1 \<le> 0x8F) \<and> utf8_Valid r
         | _ \<Rightarrow> False)
      else False)"

definition parseUTF8String :: "bytes \<Rightarrow> asn1_err + bytes" where
  "parseUTF8String bs =
     (if utf8_Valid bs then Inr bs else Inl (OtherError ''asn1: invalid UTF-8 string''))"

text \<open>\<^verbatim>\<open>utf16.Decode\<close>: surrogate pairs are joined, a lone surrogate becomes U+FFFD.\<close>

fun utf16_Decode :: "nat list \<Rightarrow> nat list" where
  "utf16_Decode [] = []"
| "utf16_Decode [r] = [if r < 0xD800 \<or> 0xE000 \<le> r then r else 0xFFFD]"
| "utf16_Decode (r # r2 # rs) =
     (if r < 0xD800 \<or> 0xE000 \<le> r then r # utf16_Decode (r2 # rs)
      else if r < 0xDC00 \<and> 0xDC00 \<le> r2 \<and> r2 < 0xE000
      then (0x10000 + (r - 0xD800) * 1024 + (r2 - 0xDC00)) # utf16_Decode rs
      else 0xFFFD # utf16_Decode (r2 # rs))"

fun bmp_units :: "bytes \<Rightarrow> nat list" where
  "bmp_units (b0 # b1 # bs) = (unat b0 * 256 + unat b1) # bmp_units bs"
| "bmp_units _ = []"

definition parseBMPString :: "bytes \<Rightarrow> asn1_err + bytes" where
  "parseBMPString bmpString =
     (if length bmpString mod 2 \<noteq> 0 then Inl (OtherError ''pkcs12: odd-length BMP string'')
      else
        let l = length bmpString;
            s = (if l \<ge> 2 \<and> bmpString ! (l - 1) = 0 \<and> bmpString ! (l - 2) = 0 then take (l - 2) bmpString
                 else bmpString)
        in Inr (concat (map utf8_rune (utf16_Decode (bmp_units s)))))"

definition makePrintableString :: "bytes \<Rightarrow> string \<Rightarrow> asn1_err + bytes" where
  "makePrintableString s fieldName =
     (if list_all (\<lambda>b. isPrintable b True False) s then Inr s
      else Inl (StructuralError ''PrintableString contains invalid character'' fieldName))"

definition makeIA5String :: "bytes \<Rightarrow> string \<Rightarrow> asn1_err + bytes" where
  "makeIA5String s fieldName =
     (if list_all (\<lambda>b. \<not> b > 127) s then Inr s
      else Inl (StructuralError ''IA5String contains invalid character'' fieldName))"

definition makeNumericString :: "bytes \<Rightarrow> string \<Rightarrow> asn1_err + bytes" where
  "makeNumericString s fieldName =
     (if list_all isNumeric s then Inr s
      else Inl (StructuralError ''NumericString contains invalid character'' fieldName))"

definition makeUTF8String :: "bytes \<Rightarrow> bytes" where
  "makeUTF8String s = s"

section \<open>Times\<close>

text \<open>
  A \<^verbatim>\<open>time.Time\<close> with a resolution of seconds, by its reading in its own zone: the civil date and the
  clock, and the offset of the zone in seconds east of UTC.
\<close>

record Time =
  tm_Year :: int
  tm_Month :: int
  tm_Day :: int
  tm_Hour :: int
  tm_Min :: int
  tm_Sec :: int
  tm_Offset :: int

definition leap_year :: "int \<Rightarrow> bool" where
  "leap_year y \<longleftrightarrow> y mod 4 = 0 \<and> (y mod 100 \<noteq> 0 \<or> y mod 400 = 0)"

definition daysIn :: "int \<Rightarrow> int \<Rightarrow> int" where
  "daysIn y m = (if m = 2 then (if leap_year y then 29 else 28) else if m \<in> {4, 6, 9, 11} then 30 else 31)"

definition two_digits :: "bytes \<Rightarrow> int option" where
  "two_digits bs =
     (case bs of
        [a, b] \<Rightarrow>
          if 48 \<le> a \<and> a \<le> 57 \<and> 48 \<le> b \<and> b \<le> 57 then Some (10 * (uint a - 48) + (uint b - 48)) else None
      | _ \<Rightarrow> None)"

text \<open>The zone element \<^verbatim>\<open>Z0700\<close> of a layout: \<^verbatim>\<open>Z\<close>, or a sign, two digits of hours and two of minutes.\<close>

definition parse_zone :: "bytes \<Rightarrow> int option" where
  "parse_zone z =
     (if z = [90] then Some 0
      else
        (case (two_digits (take 2 (drop 1 z)), two_digits (drop 3 z)) of
           (Some hr, Some mm) \<Rightarrow>
             if hd z = 43 then Some ((hr * 60 + mm) * 60)
             else if hd z = 45 then Some (- ((hr * 60 + mm) * 60))
             else None
         | _ \<Rightarrow> None))"

text \<open>
  \<^verbatim>\<open>time.Parse\<close> for the layouts of the sources, restricted to fields of full width: a year of two
  digits from 69 on is in the twentieth century; ranges are those of a calendar date. The library
  also reads some shorter forms, which the callers refuse because they do not print back.
\<close>

definition parse_clock :: "int \<Rightarrow> bytes \<Rightarrow> bool \<Rightarrow> Time option" where
  "parse_clock year bs with_seconds =
     (let secs = (if with_seconds then take 2 (drop 8 bs) else [48, 48]);
          zone = drop (if with_seconds then 10 else 8) bs
      in case (two_digits (take 2 bs), two_digits (take 2 (drop 2 bs)), two_digits (take 2 (drop 4 bs)),
               two_digits (take 2 (drop 6 bs)), two_digits secs, parse_zone zone) of
           (Some mo, Some d, Some h, Some mi, Some s, Some off) \<Rightarrow>
             if 1 \<le> mo \<and> mo \<le> 12 \<and> 1 \<le> d \<and> d \<le> daysIn year mo \<and> h < 24 \<and> mi < 60 \<and> s < 60
             then Some \<lparr>tm_Year = year, tm_Month = mo, tm_Day = d, tm_Hour = h, tm_Min = mi, tm_Sec = s, tm_Offset = off\<rparr>
             else None
         | _ \<Rightarrow> None)"

definition time_Parse_yy :: "bool \<Rightarrow> bytes \<Rightarrow> Time option" where
  "time_Parse_yy with_seconds s =
     (case two_digits (take 2 s) of
        None \<Rightarrow> None
      | Some yy \<Rightarrow> parse_clock (if yy \<ge> 69 then yy + 1900 else yy + 2000) (drop 2 s) with_seconds)"

definition time_Parse_yyyy :: "bytes \<Rightarrow> Time option" where
  "time_Parse_yyyy s =
     (case (two_digits (take 2 s), two_digits (take 2 (drop 2 s))) of
        (Some hi, Some lo) \<Rightarrow> parse_clock (hi * 100 + lo) (drop 4 s) True
      | _ \<Rightarrow> None)"

definition appendTwoDigits :: "bytes \<Rightarrow> int \<Rightarrow> bytes" where
  "appendTwoDigits dst v = dst @ [low_byte (48 + v div 10 mod 10), low_byte (48 + v mod 10)]"

definition appendFourDigits :: "bytes \<Rightarrow> int \<Rightarrow> bytes" where
  "appendFourDigits dst v =
     dst @ [low_byte (48 + v div 1000 mod 10), low_byte (48 + v div 100 mod 10), low_byte (48 + v div 10 mod 10),
            low_byte (48 + v mod 10)]"

text \<open>The zone as \<^verbatim>\<open>Format\<close> prints it for the layout element \<^verbatim>\<open>Z0700\<close>.\<close>

definition format_zone :: "int \<Rightarrow> bytes" where
  "format_zone off =
     (if off = 0 then [90]
      else
        let zone = \<bar>off\<bar> div 60
        in appendTwoDigits (appendTwoDigits [if off < 0 then 45 else 43] (zone div 60)) (zone mod 60))"

definition time_Format :: "bytes \<Rightarrow> bool \<Rightarrow> Time \<Rightarrow> bytes" where
  "time_Format year with_seconds t =
     (let s = appendTwoDigits (appendTwoDigits (appendTwoDigits (appendTwoDigits year (tm_Month t)) (tm_Day t))
                (tm_Hour t)) (tm_Min t)
      in (if with_seconds then appendTwoDigits s (tm_Sec t) else s) @ format_zone (tm_Offset t))"

definition does_not_print_back :: asn1_err where
  "does_not_print_back = OtherError ''asn1: time did not serialize back to the original value and may be invalid''"

text \<open>
  Dates from 2050 on are moved back by a century. \<^verbatim>\<open>AddDate\<close> keeps the day there, as the years 1950
  to 1968 have the leap days of 2050 to 2068.
\<close>

definition parseUTCTime :: "bytes \<Rightarrow> asn1_err + Time" where
  "parseUTCTime s =
     (let (parsed, with_seconds) =
            (case time_Parse_yy False s of Some t \<Rightarrow> (Some t, False) | None \<Rightarrow> (time_Parse_yy True s, True))
      in case parsed of
           None \<Rightarrow> Inl (OtherError ''parsing time'')
         | Some ret \<Rightarrow>
             if time_Format (appendTwoDigits [] (tm_Year ret mod 100)) with_seconds ret \<noteq> s
             then Inl does_not_print_back
             else Inr (if tm_Year ret \<ge> 2050 then ret\<lparr>tm_Year := tm_Year ret - 100\<rparr> else ret))"

definition parseGeneralizedTime :: "bytes \<Rightarrow> asn1_err + Time" where
  "parseGeneralizedTime s =
     (case time_Parse_yyyy s of
        None \<Rightarrow> Inl (OtherError ''parsing time'')
      | Some ret \<Rightarrow>
          if time_Format (appendFourDigits [] (tm_Year ret)) True ret \<noteq> s then Inl does_not_print_back
          else Inr ret)"

definition outsideUTCRange :: "Time \<Rightarrow> bool" where
  "outsideUTCRange t \<longleftrightarrow> tm_Year t < 1950 \<or> tm_Year t \<ge> 2050"

text \<open>Go's division truncates towards zero.\<close>

definition quot_go :: "int \<Rightarrow> int \<Rightarrow> int" where
  "quot_go a b = sgn a * sgn b * (\<bar>a\<bar> div \<bar>b\<bar>)"

definition appendTimeCommon :: "bytes \<Rightarrow> Time \<Rightarrow> bytes" where
  "appendTimeCommon dst t =
     (let dst = appendTwoDigits dst (tm_Month t);
          dst = appendTwoDigits dst (tm_Day t);
          dst = appendTwoDigits dst (tm_Hour t);
          dst = appendTwoDigits dst (tm_Min t);
          dst = appendTwoDigits dst (tm_Sec t);
          offset = tm_Offset t
      in if quot_go offset 60 = 0 then dst @ [90]
         else
           let dst = (if offset > 0 then dst @ [43] else if offset < 0 then dst @ [45] else dst);
               offsetMinutes = \<bar>quot_go offset 60\<bar>
           in appendTwoDigits (appendTwoDigits dst (offsetMinutes div 60)) (offsetMinutes mod 60))"

definition appendUTCTime :: "bytes \<Rightarrow> Time \<Rightarrow> string \<Rightarrow> asn1_err + bytes" where
  "appendUTCTime dst t fieldName =
     (let year = tm_Year t
      in if 1950 \<le> year \<and> year < 2000 then Inr (appendTimeCommon (appendTwoDigits dst (year - 1900)) t)
         else if 2000 \<le> year \<and> year < 2050 then Inr (appendTimeCommon (appendTwoDigits dst (year - 2000)) t)
         else Inl (StructuralError ''cannot represent time as UTCTime'' fieldName))"

definition appendGeneralizedTime :: "bytes \<Rightarrow> Time \<Rightarrow> string \<Rightarrow> asn1_err + bytes" where
  "appendGeneralizedTime dst t fieldName =
     (let year = tm_Year t
      in if year < 0 \<or> year > 9999 then Inl (StructuralError ''cannot represent time as GeneralizedTime'' fieldName)
         else Inr (appendTimeCommon (appendFourDigits dst year) t))"

definition makeUTCTime :: "Time \<Rightarrow> string \<Rightarrow> asn1_err + bytes" where
  "makeUTCTime t fieldName = appendUTCTime [] t fieldName"

definition makeGeneralizedTime :: "Time \<Rightarrow> string \<Rightarrow> asn1_err + bytes" where
  "makeGeneralizedTime t fieldName = appendGeneralizedTime [] t fieldName"

end
