(* ===== verification/ASN1_Codec.thy ===== *)
theory ASN1_Codec
  imports ASN1_Strings
begin

text \<open>
  The reflection-driven codec of package \<^verbatim>\<open>asn1\<close>: \<^verbatim>\<open>parseField\<close> and \<^verbatim>\<open>parseSequenceOf\<close> of
  \<^verbatim>\<open>src/asn1/asn1.go\<close>, \<^verbatim>\<open>makeField\<close> and \<^verbatim>\<open>makeBody\<close> of \<^verbatim>\<open>src/asn1/marshal.go\<close>, and the field
  parameters of \<^verbatim>\<open>src/asn1/common.go\<close>. A \<^verbatim>\<open>reflect.Type\<close> is an \<open>asn1_type\<close>, which keeps the tags of
  struct fields as the strings that are written in the source; a \<^verbatim>\<open>reflect.Value\<close> is an \<open>asn1_val\<close>.
  A value that is parsed into starts with its zero value, as in every call of the repository.
\<close>

section \<open>Types and values\<close>

datatype int_kind = KInt | KInt8 | KInt16 | KInt32 | KInt64

text \<open>
  A struct field has a name, a flag that tells whether it is exported, a tag and a type. A slice type
  has its name, which is empty for an unnamed type, and the type of its elements, which is not
  \<^verbatim>\<open>uint8\<close>: those slices are \<open>ABytes\<close>, and \<open>ARawContent\<close> for the type \<^verbatim>\<open>RawContent\<close>.
\<close>

datatype asn1_type =
    AInterface | ARawValue | AObjectIdentifier | ABitString | ATime | AEnumerated | AFlag | ABigInt
  | ABool | AInt int_kind | AStruct "(string \<times> bool \<times> string \<times> asn1_type) list"
  | ARawContent | ABytes | ASlice string asn1_type | AString | AOther

text \<open>Nil and empty byte slices are not told apart in the fields of a \<^verbatim>\<open>RawValue\<close>.\<close>

record RawValue =
  rv_Class :: int
  rv_Tag :: int
  rv_IsCompound :: bool
  rv_Bytes :: bytes
  rv_FullBytes :: bytes

text \<open>
  \<open>None\<close> is a nil slice, pointer or interface, and the zero value of a \<^verbatim>\<open>BitString\<close>. An interface
  holds a value together with its dynamic type.
\<close>

datatype asn1_val =
    VInterface "(asn1_type \<times> asn1_val) option" | VRawValue RawValue | VObjectIdentifier "int list option"
  | VBitString "BitString option" | VTime Time | VBool bool | VInt int | VBigInt "int option"
  | VStruct "asn1_val list" | VBytes "bytes option" | VSlice "asn1_val list option" | VString bytes | VOther

definition zero_Time :: Time where
  "zero_Time = \<lparr>tm_Year = 1, tm_Month = 1, tm_Day = 1, tm_Hour = 0, tm_Min = 0, tm_Sec = 0, tm_Offset = 0\<rparr>"

definition zero_RawValue :: RawValue where
  "zero_RawValue = \<lparr>rv_Class = 0, rv_Tag = 0, rv_IsCompound = False, rv_Bytes = [], rv_FullBytes = []\<rparr>"

text \<open>\<^verbatim>\<open>reflect.Zero\<close>\<close>

fun zero_val :: "asn1_type \<Rightarrow> asn1_val" where
  "zero_val AInterface = VInterface None"
| "zero_val ARawValue = VRawValue zero_RawValue"
| "zero_val AObjectIdentifier = VObjectIdentifier None"
| "zero_val ABitString = VBitString None"
| "zero_val ATime = VTime zero_Time"
| "zero_val AEnumerated = VInt 0"
| "zero_val AFlag = VBool False"
| "zero_val ABigInt = VBigInt None"
| "zero_val ABool = VBool False"
| "zero_val (AInt k) = VInt 0"
| "zero_val (AStruct fs) = VStruct (map (\<lambda>(name, exported, tag, t). zero_val t) fs)"
| "zero_val ARawContent = VBytes None"
| "zero_val ABytes = VBytes None"
| "zero_val (ASlice name t) = VSlice None"
| "zero_val AString = VString []"
| "zero_val AOther = VOther"

section \<open>Field parameters\<close>

record fieldParameters =
  fp_optional :: bool
  fp_explicit :: bool
  fp_application :: bool
  fp_private :: bool
  fp_defaultValue :: "int option"
  fp_tag :: "int option"
  fp_stringType :: int
  fp_timeType :: int
  fp_set :: bool
  fp_omitEmpty :: bool
  fp_lax :: bool
  fp_name :: string

definition zero_fieldParameters :: fieldParameters where
  "zero_fieldParameters = \<lparr>fp_optional = False, fp_explicit = False, fp_application = False, fp_private = False,
     fp_defaultValue = None, fp_tag = None, fp_stringType = 0, fp_timeType = 0, fp_set = False,
     fp_omitEmpty = False, fp_lax = False, fp_name = []\<rparr>"

text \<open>\<^verbatim>\<open>strconv.ParseInt(s, 10, 64)\<close>, and \<^verbatim>\<open>strconv.Atoi\<close> on a 64-bit platform.\<close>

definition ParseInt :: "string \<Rightarrow> int option" where
  "ParseInt s =
     (let neg = has_prefix s ''-'';
          digits = (if neg \<or> has_prefix s ''+'' then drop 1 s else s)
      in case ParseUint digits 64 of
           None \<Rightarrow> None
         | Some k \<Rightarrow>
             if neg then (if k \<le> 2 ^ 63 then Some (- int k) else None)
             else (if k < 2 ^ 63 then Some (int k) else None))"

definition new_if_nil :: "int option \<Rightarrow> int option" where
  "new_if_nil p = (case p of None \<Rightarrow> Some 0 | Some i \<Rightarrow> Some i)"

definition fieldParameter :: "fieldParameters \<Rightarrow> string \<Rightarrow> fieldParameters" where
  "fieldParameter ret part =
     (if part = ''optional'' then ret\<lparr>fp_optional := True\<rparr>
      else if part = ''explicit'' then ret\<lparr>fp_explicit := True, fp_tag := new_if_nil (fp_tag ret)\<rparr>
      else if part = ''generalized'' then ret\<lparr>fp_timeType := TagGeneralizedTime\<rparr>
      else if part = ''utc'' then ret\<lparr>fp_timeType := TagUTCTime\<rparr>
      else if part = ''ia5'' then ret\<lparr>fp_stringType := TagIA5String\<rparr>
      else if part = ''printable'' then ret\<lparr>fp_stringType := TagPrintableString\<rparr>
      else if part = ''numeric'' then ret\<lparr>fp_stringType := TagNumericString\<rparr>
      else if part = ''utf8'' then ret\<lparr>fp_stringType := TagUTF8String\<rparr>
      else if has_prefix part ''default:'' then
        (case ParseInt (drop 8 part) of Some i \<Rightarrow> ret\<lparr>fp_defaultValue := Some i\<rparr> | None \<Rightarrow> ret)
      else if has_prefix part ''tag:'' then
        (case ParseInt (drop 4 part) of Some i \<Rightarrow> ret\<lparr>fp_tag := Some i\<rparr> | None \<Rightarrow> ret)
      else if part = ''set'' then ret\<lparr>fp_set := True\<rparr>
      else if part = ''application'' then ret\<lparr>fp_application := True, fp_tag := new_if_nil (fp_tag ret)\<rparr>
      else if part = ''private'' then ret\<lparr>fp_private := True, fp_tag := new_if_nil (fp_tag ret)\<rparr>
      else if part = ''omitempty'' then ret\<lparr>fp_omitEmpty := True\<rparr>
      else if part = ''lax'' then ret\<lparr>fp_lax := True\<rparr>
      else ret)"

definition parseFieldParameters :: "string \<Rightarrow> fieldParameters" where
  "parseFieldParameters str = foldl fieldParameter zero_fieldParameters (split_on (CHR '','') str)"

definition has_suffix :: "string \<Rightarrow> string \<Rightarrow> bool" where
  "has_suffix s p \<longleftrightarrow> length p \<le> length s \<and> drop (length s - length p) s = p"

text \<open>\<^verbatim>\<open>matchAny\<close>, the tag number and the compound flag; \<open>None\<close> when \<^verbatim>\<open>ok\<close> is false.\<close>

definition getUniversalType :: "asn1_type \<Rightarrow> (bool \<times> int \<times> bool) option" where
  "getUniversalType t =
     (case t of
        ARawValue \<Rightarrow> Some (True, -1, False)
      | AObjectIdentifier \<Rightarrow> Some (False, TagOID, False)
      | ABitString \<Rightarrow> Some (False, TagBitString, False)
      | ATime \<Rightarrow> Some (False, TagUTCTime, False)
      | AEnumerated \<Rightarrow> Some (False, TagEnum, False)
      | ABigInt \<Rightarrow> Some (False, TagInteger, False)
      | AFlag \<Rightarrow> Some (False, TagBoolean, False)
      | ABool \<Rightarrow> Some (False, TagBoolean, False)
      | AInt k \<Rightarrow> Some (False, TagInteger, False)
      | AStruct fs \<Rightarrow> Some (False, TagSequence, True)
      | ARawContent \<Rightarrow> Some (False, TagOctetString, False)
      | ABytes \<Rightarrow> Some (False, TagOctetString, False)
      | ASlice name e \<Rightarrow>
          if has_suffix name ''SET'' then Some (False, TagSet, True) else Some (False, TagSequence, True)
      | AString \<Rightarrow> Some (False, TagPrintableString, False)
      | AInterface \<Rightarrow> None
      | AOther \<Rightarrow> None)"

definition canHaveDefaultValue :: "asn1_type \<Rightarrow> bool" where
  "canHaveDefaultValue t = (case t of AInt k \<Rightarrow> True | AEnumerated \<Rightarrow> True | _ \<Rightarrow> False)"

text \<open>The value that \<^verbatim>\<open>SetInt\<close> stores in an integer of the given type.\<close>

definition SetInt :: "asn1_type \<Rightarrow> int \<Rightarrow> int" where
  "SetInt t i =
     (case t of
        AInt KInt8 \<Rightarrow> signed_take_bit 7 i
      | AInt KInt16 \<Rightarrow> signed_take_bit 15 i
      | AInt KInt32 \<Rightarrow> signed_take_bit 31 i
      | _ \<Rightarrow> signed_take_bit 63 i)"

text \<open>\<open>None\<close> when the field is not optional; otherwise the value of the field afterwards.\<close>

definition setDefaultValue :: "asn1_type \<Rightarrow> fieldParameters \<Rightarrow> asn1_val option" where
  "setDefaultValue t params =
     (if \<not> fp_optional params then None
      else
        (case fp_defaultValue params of
           None \<Rightarrow> Some (zero_val t)
         | Some d \<Rightarrow> if canHaveDefaultValue t then Some (VInt (SetInt t d)) else Some (zero_val t)))"

section \<open>Parsing\<close>

definition slice :: "bytes \<Rightarrow> nat \<Rightarrow> nat \<Rightarrow> bytes" where
  "slice bs from to = take (to - from) (drop from bs)"

text \<open>A value of an interface: the contents octets of a primitive universal type.\<close>

definition parse_any :: "int \<Rightarrow> bytes \<Rightarrow> fieldParameters \<Rightarrow> asn1_err + (asn1_type \<times> asn1_val) option" where
  "parse_any tag innerBytes params =
     (let str = (\<lambda>r. bind_res r (\<lambda>s. Inr (Some (AString, VString s))))
      in if tag = TagPrintableString then str (parsePrintableString innerBytes (fp_lax params) (fp_name params))
         else if tag = TagNumericString then str (parseNumericString innerBytes (fp_name params))
         else if tag = TagIA5String then str (parseIA5String innerBytes (fp_name params))
         else if tag = TagT61String then str (parseT61String innerBytes)
         else if tag = TagUTF8String then str (parseUTF8String innerBytes)
         else if tag = TagInteger then
           bind_res (parseInt64 innerBytes (fp_lax params) (fp_name params)) (\<lambda>i. Inr (Some (AInt KInt64, VInt (sint i))))
         else if tag = TagBitString then
           bind_res (parseBitString innerBytes (fp_name params)) (\<lambda>b. Inr (Some (ABitString, VBitString (Some b))))
         else if tag = TagOID then
           bind_res (parseObjectIdentifier innerBytes (fp_lax params) (fp_name params))
             (\<lambda>oid. Inr (Some (AObjectIdentifier, VObjectIdentifier (Some oid))))
         else if tag = TagUTCTime then bind_res (parseUTCTime innerBytes) (\<lambda>t. Inr (Some (ATime, VTime t)))
         else if tag = TagGeneralizedTime then
           bind_res (parseGeneralizedTime innerBytes) (\<lambda>t. Inr (Some (ATime, VTime t)))
         else if tag = TagOctetString then Inr (Some (ABytes, VBytes (Some innerBytes)))
         else if tag = TagBMPString then str (parseBMPString innerBytes)
         else Inr None)"

text \<open>The tag of a string or time type that is expected instead of the default one.\<close>

definition string_tags :: "int set" where
  "string_tags = {TagIA5String, TagGeneralString, TagT61String, TagUTF8String, TagNumericString, TagBMPString}"

definition wire_tag :: "int \<Rightarrow> tagAndLength \<Rightarrow> fieldParameters \<Rightarrow> int" where
  "wire_tag universalTag t params =
     (let u = (if universalTag = TagPrintableString then
                 if tl_class t = ClassUniversal then
                   (if tl_tag t \<in> string_tags then tl_tag t else universalTag)
                 else if fp_stringType params \<noteq> 0 then fp_stringType params else universalTag
               else universalTag);
          u = (if u = TagUTCTime \<and> tl_tag t = TagGeneralizedTime \<and> tl_class t = ClassUniversal
               then TagGeneralizedTime else u)
      in if fp_set params then TagSet else u)"

text \<open>The class and tag that are expected, and whether any are accepted.\<close>

definition expected_tag :: "bool \<Rightarrow> int \<Rightarrow> fieldParameters \<Rightarrow> int \<times> int \<times> bool" where
  "expected_tag matchAny universalTag params =
     (case (fp_explicit params, fp_tag params) of
        (False, Some tag) \<Rightarrow>
          (if fp_private params then ClassPrivate
           else if fp_application params then ClassApplication else ClassContextSpecific, tag, False)
      | _ \<Rightarrow> (ClassUniversal, universalTag, matchAny))"

text \<open>The header of a field after an explicit tag has been removed.\<close>

datatype header_result =
    Element tagAndLength nat
  | FlagSet nat
  | NoMatch asn1_err
  | Bad asn1_err

definition explicit_header :: "asn1_type \<Rightarrow> bytes \<Rightarrow> tagAndLength \<Rightarrow> nat \<Rightarrow> fieldParameters \<Rightarrow> header_result" where
  "explicit_header ty bs t offset params =
     (if \<not> fp_explicit params then Element t offset
      else
        let expectedClass = (if fp_application params then ClassApplication else ClassContextSpecific)
        in if offset = length bs then Bad (StructuralError ''explicit tag has no child'' (fp_name params))
           else if tl_class t = expectedClass \<and> fp_tag params = Some (tl_tag t) \<and> (tl_length t = 0 \<or> tl_isCompound t) then
             if ty = ARawValue then Element t offset
             else if tl_length t > 0 then
               (case parseTagAndLength bs offset (fp_name params) of
                  Inl e \<Rightarrow> Bad e
                | Inr (t', offset') \<Rightarrow> Element t' offset')
             else if ty \<noteq> AFlag
             then Bad (StructuralError ''zero length explicit tag was not an asn1.Flag'' (fp_name params))
             else FlagSet offset
           else NoMatch (StructuralError ''explicitly tagged member didn't match'' (fp_name params)))"

definition parse_string :: "int \<Rightarrow> bytes \<Rightarrow> fieldParameters \<Rightarrow> asn1_err + bytes" where
  "parse_string universalTag innerBytes params =
     (if universalTag = TagPrintableString then parsePrintableString innerBytes (fp_lax params) (fp_name params)
      else if universalTag = TagNumericString then parseNumericString innerBytes (fp_name params)
      else if universalTag = TagIA5String then parseIA5String innerBytes (fp_name params)
      else if universalTag = TagT61String then parseT61String innerBytes
      else if universalTag = TagUTF8String then parseUTF8String innerBytes
      else if universalTag = TagGeneralString then parseT61String innerBytes
      else if universalTag = TagBMPString then parseBMPString innerBytes
      else Inl (SyntaxError ''internal error: unknown string type'' (fp_name params)))"

text \<open>The counting loop of \<^verbatim>\<open>parseSequenceOf\<close>.\<close>

definition seq_tag :: "int \<Rightarrow> int" where
  "seq_tag tag =
     (if tag \<in> string_tags then TagPrintableString
      else if tag = TagGeneralizedTime \<or> tag = TagUTCTime then TagUTCTime else tag)"

lemma parse_length_bounds:
  "parse_length bs offset fieldName = Inr (n, offset') \<Longrightarrow>
     0 \<le> n \<and> n < 2 ^ 31 \<and> offset < offset' \<and> offset' \<le> length bs"
  using parse_length_Inr by blast

lemma parseTagAndLength_offset:
  "parseTagAndLength bs offset fieldName = Inr (t, offset') \<Longrightarrow> offset < offset' \<and> offset' \<le> length bs"
  by (auto simp: parseTagAndLength_def Let_def result_simps dest!: parse_length_bounds parseBase128Int_offset
      split: if_splits)

lemma parseTagAndLength_length:
  "parseTagAndLength bs offset fieldName = Inr (t, offset') \<Longrightarrow> 0 \<le> tl_length t \<and> tl_length t < 2 ^ 31"
  by (auto simp: parseTagAndLength_def Let_def result_simps dest!: parse_length_bounds split: if_splits)

function count_elements :: "bytes \<Rightarrow> bool \<Rightarrow> int \<Rightarrow> bool \<Rightarrow> string \<Rightarrow> nat \<Rightarrow> nat \<Rightarrow> asn1_err + nat" where
  "count_elements bs matchAny expectedTag compoundType fieldName offset n =
     (if offset < length bs then
        (case parseTagAndLength bs offset fieldName of
           Inl e \<Rightarrow> Inl e
         | Inr (t, offset') \<Rightarrow>
             if \<not> matchAny \<and> (tl_class t \<noteq> ClassUniversal \<or> tl_isCompound t \<noteq> compoundType \<or> seq_tag (tl_tag t) \<noteq> expectedTag)
             then Inl (StructuralError ''sequence tag mismatch'' fieldName)
             else if invalidLength (int offset') (tl_length t) (int (length bs))
             then Inl (SyntaxError ''truncated sequence'' fieldName)
             else count_elements bs matchAny expectedTag compoundType fieldName (offset' + nat (tl_length t)) (Suc n))
      else Inr n)"
  by pat_completeness auto
termination
  by (relation "measure (\<lambda>(bs, _, _, _, _, offset, _). length bs - offset)") (auto dest!: parseTagAndLength_offset)

text \<open>
  The part of \<^verbatim>\<open>parseField\<close> before the contents octets are read: either the field is finished, or it
  has a header, the universal tag to read it with, contents octets, and the offset after them.
\<close>

datatype stage =
    Done "asn1_err + asn1_val \<times> nat"
  | Contents tagAndLength int bytes nat

definition default_or :: "asn1_type \<Rightarrow> fieldParameters \<Rightarrow> nat \<Rightarrow> asn1_err \<Rightarrow> asn1_err + asn1_val \<times> nat" where
  "default_or ty params initOffset e =
     (case setDefaultValue ty params of Some v \<Rightarrow> Inr (v, initOffset) | None \<Rightarrow> Inl e)"

definition parse_interface :: "fieldParameters \<Rightarrow> bytes \<Rightarrow> nat \<Rightarrow> asn1_err + asn1_val \<times> nat" where
  "parse_interface params bs initOffset =
     bind_res (parseTagAndLength bs initOffset (fp_name params)) (\<lambda>(t, offset).
       if invalidLength (int offset) (tl_length t) (int (length bs))
       then Inl (SyntaxError ''data truncated'' (fp_name params))
       else
         let stop = offset + nat (tl_length t)
         in bind_res
              (if \<not> tl_isCompound t \<and> tl_class t = ClassUniversal
               then parse_any (tl_tag t) (slice bs offset stop) params else Inr None)
              (\<lambda>r. Inr (VInterface r, stop)))"

definition match_element ::
    "asn1_type \<Rightarrow> fieldParameters \<Rightarrow> bytes \<Rightarrow> nat \<Rightarrow> tagAndLength \<Rightarrow> nat \<Rightarrow> stage" where
  "match_element ty params bs initOffset t offset =
     (case getUniversalType ty of
        None \<Rightarrow> Done (Inl (StructuralError ''unknown Go type'' (fp_name params)))
      | Some (matchAny, universalTag0, compoundType) \<Rightarrow>
          let universalTag = wire_tag universalTag0 t params;
              (expectedClass, expectedTag, matchAnyClassAndTag) = expected_tag matchAny universalTag params
          in if \<not> matchAnyClassAndTag \<and> (tl_class t \<noteq> expectedClass \<or> tl_tag t \<noteq> expectedTag) \<or>
                \<not> matchAny \<and> tl_isCompound t \<noteq> compoundType
             then Done (default_or ty params initOffset (StructuralError ''tags don't match'' (fp_name params)))
             else if invalidLength (int offset) (tl_length t) (int (length bs))
             then Done (Inl (SyntaxError ''data truncated'' (fp_name params)))
             else
               let stop = offset + nat (tl_length t)
               in Contents t universalTag (slice bs offset stop) stop)"

definition parse_stage :: "asn1_type \<Rightarrow> fieldParameters \<Rightarrow> bytes \<Rightarrow> nat \<Rightarrow> stage" where
  "parse_stage ty params bs initOffset =
     (if initOffset = length bs then
        Done (default_or ty params initOffset (SyntaxError ''sequence truncated'' (fp_name params)))
      else if ty = AInterface then Done (parse_interface params bs initOffset)
      else
        (case parseTagAndLength bs initOffset (fp_name params) of
           Inl e \<Rightarrow> Done (Inl e)
         | Inr (t0, offset0) \<Rightarrow>
             (case explicit_header ty bs t0 offset0 params of
                Bad e \<Rightarrow> Done (Inl e)
              | FlagSet offset \<Rightarrow> Done (Inr (VBool True, offset))
              | NoMatch e \<Rightarrow> Done (default_or ty params initOffset e)
              | Element t offset \<Rightarrow> match_element ty params bs initOffset t offset)))"

text \<open>The contents octets of every type but raw values, structs and slices.\<close>

definition parse_leaf :: "asn1_type \<Rightarrow> int \<Rightarrow> bytes \<Rightarrow> fieldParameters \<Rightarrow> asn1_err + asn1_val" where
  "parse_leaf ty universalTag innerBytes params =
     (let lax = fp_lax params; name = fp_name params
      in case ty of
           AObjectIdentifier \<Rightarrow>
             bind_res (parseObjectIdentifier innerBytes lax name) (\<lambda>oid. Inr (VObjectIdentifier (Some oid)))
         | ABitString \<Rightarrow> bind_res (parseBitString innerBytes name) (\<lambda>b. Inr (VBitString (Some b)))
         | ATime \<Rightarrow>
             bind_res (if universalTag = TagUTCTime then parseUTCTime innerBytes else parseGeneralizedTime innerBytes)
               (\<lambda>t. Inr (VTime t))
         | AEnumerated \<Rightarrow> bind_res (parseInt32 innerBytes lax name) (\<lambda>i. Inr (VInt (sint i)))
         | AFlag \<Rightarrow> Inr (VBool True)
         | ABigInt \<Rightarrow> bind_res (parseBigInt innerBytes lax name) (\<lambda>i. Inr (VBigInt (Some i)))
         | ABool \<Rightarrow> bind_res (parseBool innerBytes name) (\<lambda>b. Inr (VBool b))
         | AInt KInt32 \<Rightarrow> bind_res (parseInt32 innerBytes lax name) (\<lambda>i. Inr (VInt (sint i)))
         | AInt KInt \<Rightarrow> bind_res (parseInt64 innerBytes lax name) (\<lambda>i. Inr (VInt (sint i)))
         | AInt KInt64 \<Rightarrow> bind_res (parseInt64 innerBytes lax name) (\<lambda>i. Inr (VInt (sint i)))
         | ARawContent \<Rightarrow> Inr (VBytes (Some innerBytes))
         | ABytes \<Rightarrow> Inr (VBytes (Some innerBytes))
         | AString \<Rightarrow> bind_res (parse_string universalTag innerBytes params) (\<lambda>s. Inr (VString s))
         | _ \<Rightarrow> Inl (StructuralError ''unsupported'' name))"

text \<open>The field parameters of a struct field, and those of the elements of a slice.\<close>

definition inner_params :: "string \<Rightarrow> string \<Rightarrow> bool \<Rightarrow> fieldParameters" where
  "inner_params tag name lax = (parseFieldParameters tag)\<lparr>fp_name := name, fp_lax := lax\<rparr>"

definition unexported :: "(string \<times> bool \<times> string \<times> asn1_type) list \<Rightarrow> string option" where
  "unexported fs = map_option fst (find (\<lambda>(name, exported, _). \<not> exported) fs)"

function (sequential) parseField_asn1 ::
      "asn1_type \<Rightarrow> fieldParameters \<Rightarrow> bytes \<Rightarrow> nat \<Rightarrow> asn1_err + asn1_val \<times> nat"
  and parseFields_asn1 ::
      "(string \<times> bool \<times> string \<times> asn1_type) list \<Rightarrow> bool \<Rightarrow> bytes \<Rightarrow> nat \<Rightarrow> asn1_err + asn1_val list \<times> nat"
  and parseElems_asn1 :: "asn1_type \<Rightarrow> bool \<Rightarrow> bytes \<Rightarrow> nat \<Rightarrow> nat \<Rightarrow> asn1_err + asn1_val list" where
  "parseField_asn1 ty params bs initOffset =
     (case parse_stage ty params bs initOffset of
        Done r \<Rightarrow> r
      | Contents t universalTag innerBytes stop \<Rightarrow>
          (case ty of
             ARawValue \<Rightarrow>
               Inr (VRawValue \<lparr>rv_Class = tl_class t, rv_Tag = tl_tag t, rv_IsCompound = tl_isCompound t,
                      rv_Bytes = innerBytes, rv_FullBytes = slice bs initOffset stop\<rparr>, stop)
           | AStruct fs \<Rightarrow>
               (case unexported fs of
                  Some name \<Rightarrow> Inl (StructuralError ''struct contains unexported fields'' name)
                | None \<Rightarrow>
                    (case fs of
                       (name, exported, tag, ARawContent) # fs' \<Rightarrow>
                         bind_res (parseFields_asn1 fs' (fp_lax params) innerBytes 0) (\<lambda>(vs, _).
                           Inr (VStruct (VBytes (Some (slice bs initOffset stop)) # vs), stop))
                     | _ \<Rightarrow>
                         bind_res (parseFields_asn1 fs (fp_lax params) innerBytes 0) (\<lambda>(vs, _).
                           Inr (VStruct vs, stop))))
           | ASlice sname e \<Rightarrow>
               bind_res
                 (case getUniversalType e of
                    None \<Rightarrow> Inl (StructuralError ''unknown Go type for slice'' (fp_name params))
                  | Some (matchAny, expectedTag, compoundType) \<Rightarrow>
                      count_elements innerBytes matchAny expectedTag compoundType (fp_name params) 0 0)
                 (\<lambda>n. bind_res (parseElems_asn1 e (fp_lax params) innerBytes n 0) (\<lambda>vs. Inr (VSlice (Some vs), stop)))
           | _ \<Rightarrow> bind_res (parse_leaf ty universalTag innerBytes params) (\<lambda>v. Inr (v, stop))))"
| "parseFields_asn1 [] lax bs offset = Inr ([], offset)"
| "parseFields_asn1 ((name, exported, tag, ty) # fs) lax bs offset =
     bind_res (parseField_asn1 ty (inner_params tag name lax) bs offset) (\<lambda>(v, offset').
     bind_res (parseFields_asn1 fs lax bs offset') (\<lambda>(vs, offset''). Inr (v # vs, offset'')))"
| "parseElems_asn1 e lax bs 0 offset = Inr []"
| "parseElems_asn1 e lax bs (Suc n) offset =
     bind_res (parseField_asn1 e (zero_fieldParameters\<lparr>fp_lax := lax\<rparr>) bs offset) (\<lambda>(v, offset').
     bind_res (parseElems_asn1 e lax bs n offset') (\<lambda>vs. Inr (v # vs)))"
  by pat_completeness auto
termination
  by (relation "measures [\<lambda>x. case x of
        Inl (ty, _) \<Rightarrow> 2 * size ty
      | Inr (Inl (fs, _)) \<Rightarrow> 2 * size_list (size_prod (\<lambda>_. 0) (size_prod (\<lambda>_. 0) (size_prod (\<lambda>_. 0) size))) fs
      | Inr (Inr (e, _)) \<Rightarrow> 2 * size e + 1,
      \<lambda>x. case x of Inr (Inr (_, _, _, n, _)) \<Rightarrow> n | _ \<Rightarrow> 0]") auto

declare parseField_asn1.simps [simp del] count_elements.simps [simp del]

definition UnmarshalWithParams_asn1 :: "bytes \<Rightarrow> asn1_type \<Rightarrow> string \<Rightarrow> asn1_err + asn1_val \<times> bytes" where
  "UnmarshalWithParams_asn1 b ty params =
     bind_res (parseField_asn1 ty (parseFieldParameters params) b 0) (\<lambda>(v, offset). Inr (v, drop offset b))"

definition Unmarshal_asn1 :: "bytes \<Rightarrow> asn1_type \<Rightarrow> asn1_err + asn1_val \<times> bytes" where
  "Unmarshal_asn1 b ty = UnmarshalWithParams_asn1 b ty []"

section \<open>Marshalling\<close>

definition stripTagAndLength :: "bytes \<Rightarrow> bytes" where
  "stripTagAndLength bs =
     (case parseTagAndLength bs 0 [] of Inl e \<Rightarrow> bs | Inr (t, offset) \<Rightarrow> drop offset bs)"

text \<open>Slices of length 0, for \<^verbatim>\<open>omitempty\<close>.\<close>

definition is_empty_slice :: "asn1_val \<Rightarrow> bool" where
  "is_empty_slice v \<longleftrightarrow>
     v \<in> {VBytes None, VBytes (Some []), VSlice None, VSlice (Some []), VObjectIdentifier None,
          VObjectIdentifier (Some [])}"

text \<open>The guards of \<^verbatim>\<open>makeField\<close> under which a field is written as no bytes at all.\<close>

definition omitted :: "asn1_type \<Rightarrow> asn1_val \<Rightarrow> fieldParameters \<Rightarrow> bool" where
  "omitted ty v params \<longleftrightarrow>
     is_empty_slice v \<and> fp_omitEmpty params \<or>
     fp_optional params \<and>
       (case fp_defaultValue params of
          Some d \<Rightarrow> canHaveDefaultValue ty \<and> v = VInt (SetInt ty d)
        | None \<Rightarrow> v = zero_val ty)"

text \<open>The tag that is written for a value, before the field parameters replace it.\<close>

definition marshal_tag :: "asn1_type \<Rightarrow> int \<Rightarrow> asn1_val \<Rightarrow> fieldParameters \<Rightarrow> asn1_err + int" where
  "marshal_tag ty tag v params =
     (if fp_timeType params \<noteq> 0 \<and> tag \<noteq> TagUTCTime
      then Inl (StructuralError ''explicit time type given to non-time member'' (fp_name params))
      else if fp_stringType params \<noteq> 0 \<and> tag \<noteq> TagPrintableString
      then Inl (StructuralError ''explicit string type given to non-string member'' (fp_name params))
      else
        bind_res
          (case v of
             VString s \<Rightarrow>
               if fp_stringType params \<noteq> 0 then Inr (fp_stringType params)
               else if list_all (\<lambda>b. isPrintable b False False) s then Inr tag
               else if utf8_Valid s then Inr TagUTF8String
               else Inl (OtherError ''asn1: string not valid UTF-8'')
           | VTime t \<Rightarrow>
               if fp_timeType params = TagGeneralizedTime \<or> outsideUTCRange t then Inr TagGeneralizedTime else Inr tag
           | _ \<Rightarrow> Inr tag)
          (\<lambda>tag.
             if fp_set params then
               (if tag \<noteq> TagSequence then Inl (StructuralError ''non sequence tagged as set'' (fp_name params))
                else Inr TagSet)
             else Inr tag))"

text \<open>The tags and lengths written around a body.\<close>

definition wrap_body :: "int \<Rightarrow> bool \<Rightarrow> fieldParameters \<Rightarrow> bytes \<Rightarrow> bytes" where
  "wrap_body tag isCompound params body =
     (case fp_tag params of
        None \<Rightarrow>
          appendTagAndLength []
            \<lparr>tl_class = ClassUniversal, tl_tag = tag, tl_length = int (length body), tl_isCompound = isCompound\<rparr> @ body
      | Some ptag \<Rightarrow>
          let cls = (if fp_application params then ClassApplication
                     else if fp_private params then ClassPrivate else ClassContextSpecific)
          in if fp_explicit params then
               let inner = appendTagAndLength []
                     \<lparr>tl_class = ClassUniversal, tl_tag = tag, tl_length = int (length body), tl_isCompound = isCompound\<rparr> @ body
               in appendTagAndLength []
                    \<lparr>tl_class = cls, tl_tag = ptag, tl_length = int (length inner), tl_isCompound = True\<rparr> @ inner
             else
               appendTagAndLength []
                 \<lparr>tl_class = cls, tl_tag = ptag, tl_length = int (length body), tl_isCompound = isCompound\<rparr> @ body)"

text \<open>\<^verbatim>\<open>makeBody\<close> for every type but structs and slices.\<close>

definition make_leaf :: "asn1_type \<Rightarrow> asn1_val \<Rightarrow> fieldParameters \<Rightarrow> asn1_err + bytes" where
  "make_leaf ty v params =
     (let name = fp_name params; unknown = Inl (StructuralError ''unknown Go type'' name)
      in case v of
           VBool b \<Rightarrow> if ty = AFlag then Inr [] else if ty = ABool then Inr [if b then 0xff else 0] else unknown
         | VTime t \<Rightarrow>
             if ty \<noteq> ATime then unknown
             else if fp_timeType params = TagGeneralizedTime \<or> outsideUTCRange t then makeGeneralizedTime t name
             else makeUTCTime t name
         | VBitString ob \<Rightarrow>
             if ty \<noteq> ABitString then unknown
             else Inr (bitString_Encode (case ob of None \<Rightarrow> \<lparr>bits_Bytes = [], bits_BitLength = 0\<rparr> | Some b \<Rightarrow> b))
         | VObjectIdentifier oid \<Rightarrow>
             if ty \<noteq> AObjectIdentifier then unknown
             else makeObjectIdentifier (case oid of None \<Rightarrow> [] | Some arcs \<Rightarrow> arcs) name
         | VBigInt n \<Rightarrow> if ty = ABigInt then makeBigInt n name else unknown
         | VInt i \<Rightarrow> if canHaveDefaultValue ty then Inr (int64_Encode i) else unknown
         | VBytes ob \<Rightarrow>
             if ty = ABytes \<or> ty = ARawContent then Inr (case ob of None \<Rightarrow> [] | Some b \<Rightarrow> b) else unknown
         | VString s \<Rightarrow>
             if ty \<noteq> AString then unknown
             else if fp_stringType params = TagIA5String then makeIA5String s name
             else if fp_stringType params = TagPrintableString then makePrintableString s name
             else if fp_stringType params = TagNumericString then makeNumericString s name
             else Inr (makeUTF8String s)
         | _ \<Rightarrow> unknown)"

text \<open>\<^verbatim>\<open>startingField\<close>, and the raw contents in front of it.\<close>

definition starting_field :: "(string \<times> bool \<times> string \<times> asn1_type) list \<Rightarrow> nat" where
  "starting_field fs =
     (case fs of [] \<Rightarrow> 0 | (name, exported, tag, ty) # _ \<Rightarrow> if ty = ARawContent then 1 else 0)"

definition raw_contents :: "(string \<times> bool \<times> string \<times> asn1_type) list \<Rightarrow> asn1_val list \<Rightarrow> bytes" where
  "raw_contents fs vs =
     (if starting_field fs = 1 then (case vs of VBytes (Some b) # _ \<Rightarrow> b | _ \<Rightarrow> []) else [])"

definition make_raw :: "RawValue \<Rightarrow> bytes" where
  "make_raw rv =
     (if rv_FullBytes rv \<noteq> [] then rv_FullBytes rv
      else appendTagAndLength []
             \<lparr>tl_class = rv_Class rv, tl_tag = rv_Tag rv, tl_length = int (length (rv_Bytes rv)),
              tl_isCompound = rv_IsCompound rv\<rparr> @ rv_Bytes rv)"

lemma size_drop_le: "size_list size (drop k vs) \<le> size_list size (vs :: asn1_val list)"
proof (induction vs arbitrary: k)
  case (Cons v vs)
  then show ?case by (cases k) (auto intro: le_SucI trans_le_add2)
qed simp

text \<open>
  \<^verbatim>\<open>makeField\<close>. The recursion follows the value; \<open>makeFields_asn1\<close> and \<open>makeElems_asn1\<close> are the loops
  of \<^verbatim>\<open>makeBody\<close> over the fields of a struct and the elements of a slice. A value that does not
  have the given type, which reflection excludes, is refused.
\<close>

function (sequential) makeField_asn1 :: "asn1_type \<Rightarrow> asn1_val \<Rightarrow> fieldParameters \<Rightarrow> asn1_err + bytes"
  and makeBody_asn1 :: "asn1_type \<Rightarrow> asn1_val \<Rightarrow> fieldParameters \<Rightarrow> asn1_err + bytes"
  and makeFields_asn1 :: "(string \<times> bool \<times> string \<times> asn1_type) list \<Rightarrow> asn1_val list \<Rightarrow> asn1_err + bytes"
  and makeElems_asn1 :: "asn1_type \<Rightarrow> asn1_val list \<Rightarrow> asn1_err + bytes" where
  "makeField_asn1 ty v params =
     (if ty = AInterface then
        (case v of
           VInterface (Some (ty', v')) \<Rightarrow> makeField_asn1 ty' v' params
         | _ \<Rightarrow> Inl (OtherError ''asn1: cannot marshal nil value''))
      else if omitted ty v params then Inr []
      else if ty = ARawValue then
        (case v of VRawValue rv \<Rightarrow> Inr (make_raw rv) | _ \<Rightarrow> Inl (StructuralError ''unknown Go type'' (fp_name params)))
      else
        (case getUniversalType ty of
           None \<Rightarrow> Inl (StructuralError ''unknown Go type'' (fp_name params))
         | Some (matchAny, tag0, isCompound) \<Rightarrow>
             if matchAny then Inl (StructuralError ''unknown Go type'' (fp_name params))
             else
               bind_res (marshal_tag ty tag0 v params) (\<lambda>tag.
               bind_res (makeBody_asn1 ty v params) (\<lambda>body.
                 Inr (wrap_body tag isCompound params body)))))"
| "makeBody_asn1 ty v params =
     (case v of
        VStruct vs \<Rightarrow>
          (case ty of
             AStruct fs \<Rightarrow>
               (case unexported fs of
                  Some name \<Rightarrow> Inl (StructuralError ''struct contains unexported fields'' name)
                | None \<Rightarrow>
                    if raw_contents fs vs \<noteq> [] then Inr (stripTagAndLength (raw_contents fs vs))
                    else makeFields_asn1 (drop (starting_field fs) fs) (drop (starting_field fs) vs))
           | _ \<Rightarrow> Inl (StructuralError ''unknown Go type'' (fp_name params)))
      | VSlice ovs \<Rightarrow>
          (case ty of
             ASlice sname e \<Rightarrow> (case ovs of None \<Rightarrow> Inr [] | Some vs \<Rightarrow> makeElems_asn1 e vs)
           | _ \<Rightarrow> Inl (StructuralError ''unknown Go type'' (fp_name params)))
      | _ \<Rightarrow> make_leaf ty v params)"
| "makeFields_asn1 [] vs = Inr []"
| "makeFields_asn1 (f # fs) [] = Inr []"
| "makeFields_asn1 ((name, exported, tag, ty) # fs) (v # vs) =
     bind_res (makeField_asn1 ty v (parseFieldParameters tag)) (\<lambda>b.
     bind_res (makeFields_asn1 fs vs) (\<lambda>bs. Inr (b @ bs)))"
| "makeElems_asn1 e [] = Inr []"
| "makeElems_asn1 e (v # vs) =
     bind_res (makeField_asn1 e v zero_fieldParameters) (\<lambda>b.
     bind_res (makeElems_asn1 e vs) (\<lambda>bs. Inr (b @ bs)))"
  by pat_completeness auto
termination
  by (relation "measure (\<lambda>x. case x of
        Inl (Inl (_, v, _)) \<Rightarrow> 2 * size v + 1
      | Inl (Inr (_, v, _)) \<Rightarrow> 2 * size v
      | Inr (Inl (_, vs)) \<Rightarrow> 2 * size_list size vs + 1
      | Inr (Inr (_, vs)) \<Rightarrow> 2 * size_list size vs + 1)")
     (auto simp: less_Suc_eq_le intro: order.trans [OF size_drop_le] order.strict_trans1 [OF size_drop_le])

declare makeField_asn1.simps [simp del] makeBody_asn1.simps [simp del]

definition MarshalWithParams_asn1 :: "asn1_type \<Rightarrow> asn1_val \<Rightarrow> string \<Rightarrow> asn1_err + bytes" where
  "MarshalWithParams_asn1 ty v params = makeField_asn1 ty v (parseFieldParameters params)"

definition Marshal_asn1 :: "asn1_type \<Rightarrow> asn1_val \<Rightarrow> asn1_err + bytes" where
  "Marshal_asn1 ty v = MarshalWithParams_asn1 ty v []"

end
