(* ===== verification/X509_Pool.thy ===== *)
theory X509_Pool
  imports X509_Types
begin

text \<open>
  Certificate pools (\<^verbatim>\<open>src/x509/cert_pool.go\<close>): a list of certificates with an index by subject key
  identifier and one by subject name. The locale \<open>cert_store\<close> is what chain building relies on; the pool
  is shown to provide it.
\<close>

section \<open>Operations\<close>

record CertPool =
  bySubjectKeyId :: "bytes \<rightharpoonup> nat list"
  byName :: "bytes \<rightharpoonup> nat list"
  certs :: "Certificate list"

definition NewCertPool :: CertPool where
  "NewCertPool = \<lparr>bySubjectKeyId = Map.empty, byName = Map.empty, certs = []\<rparr>"

text \<open>Reading a missing key of a Go map gives the zero value, here a nil slice.\<close>

definition at :: "(bytes \<rightharpoonup> nat list) \<Rightarrow> bytes \<Rightarrow> nat list" where
  "at m k = (case m k of None \<Rightarrow> [] | Some is \<Rightarrow> is)"

text \<open>The receiver may be nil.\<close>

definition findPotentialParents :: "CertPool option \<Rightarrow> Certificate \<Rightarrow> nat list" where
  "findPotentialParents s cert =
     (case s of
        None \<Rightarrow> []
      | Some p \<Rightarrow>
          let candidates = (if length (AuthorityKeyId cert) > 0 then at (bySubjectKeyId p) (AuthorityKeyId cert) else [])
          in if length candidates = 0 then at (byName p) (RawIssuer cert) else candidates)"

text \<open>An index outside the list of certificates would be a panic; \<open>pool_inv\<close> excludes it.\<close>

definition contains_cert :: "CertPool option \<Rightarrow> Certificate \<Rightarrow> bool" where
  "contains_cert s cert =
     (case s of
        None \<Rightarrow> False
      | Some p \<Rightarrow> list_ex (\<lambda>c. Certificate_Equal (certs p ! c) cert) (at (byName p) (RawSubject cert)))"

definition AddCert :: "CertPool \<Rightarrow> Certificate \<Rightarrow> CertPool" where
  "AddCert s cert =
     (if contains_cert (Some s) cert then s
      else
        let n = length (certs s);
            s = s\<lparr>certs := certs s @ [cert]\<rparr>;
            s = (if length (SubjectKeyId cert) > 0
                 then s\<lparr>bySubjectKeyId := (bySubjectKeyId s)
                          (SubjectKeyId cert \<mapsto> at (bySubjectKeyId s) (SubjectKeyId cert) @ [n])\<rparr>
                 else s)
        in s\<lparr>byName := (byName s)(RawSubject cert \<mapsto> at (byName s) (RawSubject cert) @ [n])\<rparr>)"

text \<open>\<^verbatim>\<open>AddCert\<close> of a nil certificate is a panic.\<close>

datatype 'a go_panic = Returned 'a | Panicked

record pem_block =
  pem_Type :: string
  pem_Headers :: "(string \<times> string) list"
  pem_Bytes :: bytes

text \<open>
  \<^verbatim>\<open>AppendCertsFromPEM\<close>: \<^verbatim>\<open>pem.Decode\<close> and the certificate parser are parameters. The result is
  \<open>None\<close> when the loop does not end.
\<close>

partial_function (option) append_pem ::
    "(bytes \<Rightarrow> pem_block option \<times> bytes) \<Rightarrow> (bytes \<Rightarrow> Certificate option \<times> x509_err option) \<Rightarrow>
       CertPool \<Rightarrow> bool \<Rightarrow> bytes \<Rightarrow> (CertPool \<times> bool) go_panic option" where
  "append_pem decode ParseCertificate s ok pemCerts =
     (if pemCerts = [] then Some (Returned (s, ok))
      else
        (case decode pemCerts of
           (None, rest) \<Rightarrow> Some (Returned (s, ok))
         | (Some block, rest) \<Rightarrow>
             if pem_Type block \<noteq> ''CERTIFICATE'' \<or> pem_Headers block \<noteq> [] then append_pem decode ParseCertificate s ok rest
             else
               (case ParseCertificate (pem_Bytes block) of
                  (oc, err) \<Rightarrow>
                    if IsFatal err then append_pem decode ParseCertificate s ok rest
                    else
                      (case oc of
                         None \<Rightarrow> Some Panicked
                       | Some cert \<Rightarrow> append_pem decode ParseCertificate (AddCert s cert) True rest))))"

definition AppendCertsFromPEM ::
    "(bytes \<Rightarrow> pem_block option \<times> bytes) \<Rightarrow> (bytes \<Rightarrow> Certificate option \<times> x509_err option) \<Rightarrow>
       CertPool \<Rightarrow> bytes \<Rightarrow> (CertPool \<times> bool) go_panic option" where
  "AppendCertsFromPEM decode ParseCertificate s pemCerts = append_pem decode ParseCertificate s False pemCerts"

definition Subjects :: "CertPool \<Rightarrow> bytes list" where
  "Subjects s = map RawSubject (certs s)"

section \<open>The interface of a store of certificates\<close>

text \<open>
  What a client may rely on: the members in the order of their addition, no two of them with the same
  subject and contents, a membership test, and candidate parents that are members and are all the
  members with the right key identifier, or else the right name.
\<close>

locale cert_store =
  fixes inv :: "'s \<Rightarrow> bool"
    and members :: "'s \<Rightarrow> Certificate list"
    and new :: 's
    and add :: "'s \<Rightarrow> Certificate \<Rightarrow> 's"
    and contains :: "'s \<Rightarrow> Certificate \<Rightarrow> bool"
    and parents :: "'s \<Rightarrow> Certificate \<Rightarrow> nat list"
  assumes inv_new: "inv new"
    and members_new: "members new = []"
    and inv_add: "inv s \<Longrightarrow> inv (add s c)"
    and members_add: "inv s \<Longrightarrow> members (add s c) = (if contains s c then members s else members s @ [c])"
    and contains_iff: "inv s \<Longrightarrow> contains s c \<longleftrightarrow> (\<exists>m \<in> set (members s). RawSubject m = RawSubject c \<and> Raw m = Raw c)"
    and parents_eq: "inv s \<Longrightarrow> parents s c =
      (let ki = filter (\<lambda>i. SubjectKeyId (members s ! i) = AuthorityKeyId c) [0..<length (members s)]
       in if AuthorityKeyId c \<noteq> [] \<and> ki \<noteq> [] then ki
          else filter (\<lambda>i. RawSubject (members s ! i) = RawIssuer c) [0..<length (members s)])"
begin

lemma inv_foldl: "inv s \<Longrightarrow> inv (foldl add s cs)"
  by (induction cs arbitrary: s) (simp_all add: inv_add)

lemma parents_members: "inv s \<Longrightarrow> i \<in> set (parents s c) \<Longrightarrow> i < length (members s)"
  by (auto simp: parents_eq Let_def split: if_splits)

lemma members_foldl_subset:
  "inv s \<Longrightarrow> set (members (foldl add s cs)) \<subseteq> set (members s) \<union> set cs"
proof (induction cs arbitrary: s)
  case (Cons c cs)
  then have "set (members (foldl add (add s c) cs)) \<subseteq> set (members (add s c)) \<union> set cs"
    by (simp add: inv_add)
  then show ?case using members_add [OF Cons.prems, of c] by (auto split: if_splits)
qed simp

lemma members_foldl_covers:
  "inv s \<Longrightarrow> c \<in> set (members s) \<union> set cs \<Longrightarrow> contains (foldl add s cs) c"
proof (induction cs arbitrary: s c)
  case Nil
  then show ?case by (auto simp: contains_iff)
next
  case (Cons d cs)
  show ?case
  proof (cases "c = d")
    case True
    have "contains (foldl add (add s c) cs) c"
    proof (cases "c \<in> set (members (add s c))")
      case True
      then show ?thesis using Cons.IH [OF inv_add [OF Cons.prems(1)]] by simp
    next
      case False
      then have "contains s c" using members_add [OF Cons.prems(1), of c] by (auto split: if_splits)
      then obtain m where m: "m \<in> set (members s)" "RawSubject m = RawSubject c" "Raw m = Raw c"
        using contains_iff [OF Cons.prems(1)] by blast
      then have "m \<in> set (members (add s c))" using members_add [OF Cons.prems(1), of c] by (auto split: if_splits)
      then have "contains (foldl add (add s c) cs) m" using Cons.IH [OF inv_add [OF Cons.prems(1)]] by simp
      then show ?thesis
        using m(2,3) contains_iff [OF inv_foldl [OF inv_add [OF Cons.prems(1)]]] by metis
    qed
    then show ?thesis using True by simp
  next
    case False
    then have "c \<in> set (members (add s d)) \<union> set cs"
      using Cons.prems members_add [OF Cons.prems(1), of d] by (auto split: if_splits)
    then show ?thesis using Cons.IH [OF inv_add [OF Cons.prems(1)]] by simp
  qed
qed

end

section \<open>The pool is such a store\<close>

definition key_index :: "Certificate list \<Rightarrow> bytes \<Rightarrow> nat list" where
  "key_index cs k = (if k = [] then [] else filter (\<lambda>i. SubjectKeyId (cs ! i) = k) [0..<length cs])"

definition name_index :: "Certificate list \<Rightarrow> bytes \<Rightarrow> nat list" where
  "name_index cs k = filter (\<lambda>i. RawSubject (cs ! i) = k) [0..<length cs]"

definition pool_inv :: "CertPool \<Rightarrow> bool" where
  "pool_inv p \<longleftrightarrow> at (bySubjectKeyId p) = key_index (certs p) \<and> at (byName p) = name_index (certs p) \<and>
     distinct (map (\<lambda>c. (RawSubject c, Raw c)) (certs p))"

lemma at_update [simp]: "at (m(k \<mapsto> v)) = (at m)(k := v)"
  by (auto simp: at_def)

lemma filter_nth_snoc:
  "filter (\<lambda>i. P ((cs @ [c]) ! i)) [0..<length cs] = filter (\<lambda>i. P (cs ! i)) [0..<length cs]"
  by (rule filter_cong) (auto simp: nth_append)

lemma key_index_snoc:
  "key_index (cs @ [c]) =
     (if SubjectKeyId c = [] then key_index cs
      else (key_index cs)(SubjectKeyId c := key_index cs (SubjectKeyId c) @ [length cs]))"
  using filter_nth_snoc [of "\<lambda>m. SubjectKeyId m = k" for k] by (auto simp: key_index_def fun_eq_iff)

lemma name_index_snoc:
  "name_index (cs @ [c]) = (name_index cs)(RawSubject c := name_index cs (RawSubject c) @ [length cs])"
  using filter_nth_snoc [of "\<lambda>m. RawSubject m = k" for k] by (auto simp: name_index_def fun_eq_iff)

lemma contains_cert_iff:
  assumes "pool_inv p"
  shows "contains_cert (Some p) c \<longleftrightarrow> (\<exists>m \<in> set (certs p). RawSubject m = RawSubject c \<and> Raw m = Raw c)"
  using assms
  by (auto simp: contains_cert_def pool_inv_def name_index_def list_ex_iff Certificate_Equal_def in_set_conv_nth Bex_def)

lemma pool_inv_add: "pool_inv p \<Longrightarrow> pool_inv (AddCert p c)"
  using contains_cert_iff [of p c]
  by (auto simp: AddCert_def pool_inv_def Let_def key_index_snoc name_index_snoc)

lemma certs_add: "certs (AddCert p c) = (if contains_cert (Some p) c then certs p else certs p @ [c])"
  by (simp add: AddCert_def Let_def)

lemma findPotentialParents_eq:
  assumes "pool_inv p"
  shows "findPotentialParents (Some p) c =
    (let ki = filter (\<lambda>i. SubjectKeyId (certs p ! i) = AuthorityKeyId c) [0..<length (certs p)]
     in if AuthorityKeyId c \<noteq> [] \<and> ki \<noteq> [] then ki
        else filter (\<lambda>i. RawSubject (certs p ! i) = RawIssuer c) [0..<length (certs p)])"
  using assms by (auto simp: findPotentialParents_def pool_inv_def key_index_def name_index_def Let_def)

interpretation pool: cert_store pool_inv certs NewCertPool AddCert "\<lambda>p. contains_cert (Some p)"
    "\<lambda>p. findPotentialParents (Some p)"
proof
  show "pool_inv NewCertPool"
    by (auto simp: pool_inv_def NewCertPool_def at_def key_index_def name_index_def fun_eq_iff)
qed (simp_all add: NewCertPool_def pool_inv_add certs_add contains_cert_iff findPotentialParents_eq)

lemma append_pem_inv:
  assumes "append_pem decode ParseCertificate s ok pemCerts = Some (Returned (s', ok'))" "pool_inv s"
  shows "pool_inv s'"
proof -
  have "pool_inv s \<longrightarrow> (\<forall>s' ok'. r = Returned (s', ok') \<longrightarrow> pool_inv s')"
    if "append_pem decode ParseCertificate s ok pemCerts = Some r" for decode ParseCertificate s ok pemCerts r
  proof (rule append_pem.raw_induct [OF _ that,
        where P = "\<lambda>decode ParseCertificate s ok pemCerts r.
          pool_inv s \<longrightarrow> (\<forall>s' ok'. r = Returned (s', ok') \<longrightarrow> pool_inv s')"])
    fix rec decode ParseCertificate s ok pemCerts r
    assume IH: "\<And>decode ParseCertificate s ok pemCerts r. rec decode ParseCertificate s ok pemCerts = Some r \<Longrightarrow>
        pool_inv s \<longrightarrow> (\<forall>s' ok'. r = Returned (s', ok') \<longrightarrow> pool_inv s')"
      and step: "(if pemCerts = [] then Some (Returned (s, ok))
        else
          (case decode pemCerts of
             (None, rest) \<Rightarrow> Some (Returned (s, ok))
           | (Some block, rest) \<Rightarrow>
               if pem_Type block \<noteq> ''CERTIFICATE'' \<or> pem_Headers block \<noteq> [] then rec decode ParseCertificate s ok rest
               else
                 (case ParseCertificate (pem_Bytes block) of
                    (oc, err) \<Rightarrow>
                      if IsFatal err then rec decode ParseCertificate s ok rest
                      else
                        (case oc of
                           None \<Rightarrow> Some Panicked
                         | Some cert \<Rightarrow> rec decode ParseCertificate (AddCert s cert) True rest)))) = Some r"
    show "pool_inv s \<longrightarrow> (\<forall>s' ok'. r = Returned (s', ok') \<longrightarrow> pool_inv s')"
      using step by (auto dest!: IH simp: pool_inv_add split: if_splits prod.splits option.splits)
  qed
  then show ?thesis using assms by blast
qed

lemma append_pem_returns:
  assumes "\<And>bs b rest. decode bs = (Some b, rest) \<Longrightarrow> length rest < length bs"
  shows "\<exists>r. append_pem decode ParseCertificate s ok pemCerts = Some r"
proof (induction pemCerts arbitrary: s ok rule: length_induct)
  case (1 pemCerts)
  show ?case
    using 1 assms by (subst append_pem.simps) (fastforce split: prod.splits option.splits)
qed

section \<open>Properties\<close>

text \<open>
  (C27) In every pool that is filled by \<^verbatim>\<open>AddCert\<close>, the two indexes hold exactly the positions of the
  certificates with the given key identifier and name: the candidate parents of a certificate are the
  members whose subject key identifier is its authority key identifier, and when there is none, those
  whose subject is its issuer. The pool holds every certificate that was added, and no other.
\<close>

theorem CertPool_correct:
  "let p = foldl AddCert NewCertPool cs; ms = certs p;
       ki = filter (\<lambda>i. SubjectKeyId (ms ! i) = AuthorityKeyId c) [0..<length ms]
   in set ms \<subseteq> set cs \<and> list_all (\<lambda>d. contains_cert (Some p) d) cs \<and>
      contains_cert (Some p) c = list_ex (\<lambda>m. RawSubject m = RawSubject c \<and> Raw m = Raw c) ms \<and>
      findPotentialParents (Some p) c =
        (if AuthorityKeyId c \<noteq> [] \<and> ki \<noteq> [] then ki
         else filter (\<lambda>i. RawSubject (ms ! i) = RawIssuer c) [0..<length ms])"
proof -
  let ?p = "foldl AddCert NewCertPool cs"
  have inv: "pool_inv ?p" by (rule pool.inv_foldl [OF pool.inv_new])
  have "set (certs ?p) \<subseteq> set cs" using pool.members_foldl_subset [OF pool.inv_new, of cs] pool.members_new by simp
  moreover have "list_all (\<lambda>d. contains_cert (Some ?p) d) cs"
    using pool.members_foldl_covers [OF pool.inv_new] by (simp add: list_all_iff)
  ultimately show ?thesis
    using pool.parents_eq [OF inv, of c] pool.contains_iff [OF inv, of c] by (simp add: Let_def list_ex_iff)
qed

end
