(* ===== verification/X509_Names.thy ===== *)
theory X509_Names
  imports X509_Types
begin

text \<open>
  Names in certificate verification (\<^verbatim>\<open>src/x509/verify.go\<close>): mailboxes, domain labels, the four kinds
  of name constraints, host names with wildcards, and \<^verbatim>\<open>VerifyHostname\<close>.
  A Go string is a list of bytes, here characters with codes 0 to 255. Where the source ranges over
  runes it only compares them with ASCII bounds, and a byte above 127 gives a rune above 127, so the
  bytes are compared. \<^verbatim>\<open>net.ParseIP\<close> and \<^verbatim>\<open>net.SplitHostPort\<close> are parameters.
\<close>

section \<open>Mailboxes and labels\<close>

abbreviation code :: "char \<Rightarrow> nat" where
  "code c \<equiv> of_char c"

record rfc2821Mailbox =
  mb_local :: string
  mb_domain :: string

text \<open>The loop of \<^verbatim>\<open>domainToReverseLabels\<close>: a string is cut at its last dot.\<close>

definition last_label :: "string \<Rightarrow> string" where
  "last_label d = rev (takeWhile (\<lambda>c. c \<noteq> CHR ''.'') (rev d))"

definition before_last_dot :: "string \<Rightarrow> string" where
  "before_last_dot d = rev (drop 1 (dropWhile (\<lambda>c. c \<noteq> CHR ''.'') (rev d)))"

function reverse_labels :: "string \<Rightarrow> string list" where
  "reverse_labels d =
     (if d = [] then []
      else if CHR ''.'' \<in> set d then last_label d # reverse_labels (before_last_dot d)
      else [d])"
  by pat_completeness auto
termination
proof (relation "measure length")
  fix d :: string
  assume "d \<noteq> []" "CHR ''.'' \<in> set d"
  have "length (dropWhile (\<lambda>c. c \<noteq> CHR ''.'') (rev d)) \<le> length d"
    using length_dropWhile_le [of _ "rev d"] by simp
  then show "(before_last_dot d, d) \<in> measure length"
    using \<open>d \<noteq> []\<close> by (auto simp: before_last_dot_def diff_less Suc_le_eq) (metis diff_less_mono2 length_greater_0_conv diff_Suc_less le_eq_less_or_eq less_imp_diff_less not_gr_zero diff_0_eq_0)
qed simp

definition domainToReverseLabels :: "string \<Rightarrow> string list option" where
  "domainToReverseLabels domain =
     (let reverseLabels = reverse_labels domain
      in if reverseLabels \<noteq> [] \<and> hd reverseLabels = [] then None
         else if list_all (\<lambda>label. label \<noteq> [] \<and> list_all (\<lambda>c. \<not> (code c < 33 \<or> code c > 126)) label) reverseLabels
         then Some reverseLabels
         else None)"

text \<open>A character that may follow a backslash, and one that may stand alone, in a quoted string.\<close>

definition quoted_pair :: "char \<Rightarrow> bool" where
  "quoted_pair c \<longleftrightarrow> code c = 11 \<or> code c = 12 \<or> 1 \<le> code c \<and> code c \<le> 9 \<or> 14 \<le> code c \<and> code c \<le> 127"

definition qtext :: "char \<Rightarrow> bool" where
  "qtext c \<longleftrightarrow> code c = 11 \<or> code c = 12 \<or> code c = 32 \<or> code c = 33 \<or> code c = 127 \<or>
     1 \<le> code c \<and> code c \<le> 8 \<or> 14 \<le> code c \<and> code c \<le> 31 \<or> 35 \<le> code c \<and> code c \<le> 91 \<or>
     93 \<le> code c \<and> code c \<le> 126"

definition atext :: "char \<Rightarrow> bool" where
  "atext c \<longleftrightarrow> 48 \<le> code c \<and> code c \<le> 57 \<or> 97 \<le> code c \<and> code c \<le> 122 \<or> 65 \<le> code c \<and> code c \<le> 90 \<or>
     c \<in> set [CHR ''!'', CHR ''#'', CHR ''$'', CHR ''%'', CHR ''&'', CHR 0x27, CHR ''*'', CHR ''+'',
              CHR ''-'', CHR ''/'', CHR ''='', CHR ''?'', CHR ''^'', CHR ''_'', CHR 0x60, CHR ''{'', CHR ''|'',
              CHR ''}'', CHR ''~'', CHR ''.'']"

text \<open>The loop over a quoted string: the local part, and the input after the closing quote.\<close>

fun quoted_string :: "string \<Rightarrow> string \<Rightarrow> (string \<times> string) option" where
  "quoted_string acc [] = None"
| "quoted_string acc (c # s) =
     (if c = CHR 0x22 then Some (acc, s)
      else if c = CHR 0x5C then
        (case s of
           [] \<Rightarrow> None
         | d # s' \<Rightarrow> if quoted_pair d then quoted_string (acc @ [d]) s' else None)
      else if qtext c then quoted_string (acc @ [c]) s
      else None)"

text \<open>The loop over atoms; a backslash takes the next character whatever it is.\<close>

fun atoms :: "string \<Rightarrow> string \<Rightarrow> (string \<times> string) option" where
  "atoms acc [] = Some (acc, [])"
| "atoms acc (c # s) =
     (if c = CHR 0x5C then (case s of [] \<Rightarrow> None | d # s' \<Rightarrow> atoms (acc @ [d]) s')
      else if atext c then atoms (acc @ [c]) s
      else Some (acc, c # s))"

fun two_dots :: "string \<Rightarrow> bool" where
  "two_dots (a # b # s) = (a = CHR ''.'' \<and> b = CHR ''.'' \<or> two_dots (b # s))"
| "two_dots _ = False"

definition local_part :: "string \<Rightarrow> (string \<times> string) option" where
  "local_part inp =
     (if hd inp = CHR 0x22 then quoted_string [] (tl inp)
      else
        (case atoms [] inp of
           None \<Rightarrow> None
         | Some (l, rest) \<Rightarrow>
             if l = [] \<or> hd l = CHR ''.'' \<or> last l = CHR ''.'' \<or> two_dots l then None else Some (l, rest)))"

definition parseRFC2821Mailbox :: "string \<Rightarrow> rfc2821Mailbox option" where
  "parseRFC2821Mailbox inp =
     (if inp = [] then None
      else
        (case local_part inp of
           None \<Rightarrow> None
         | Some (l, rest) \<Rightarrow>
             (case rest of
                [] \<Rightarrow> None
              | c # domain \<Rightarrow>
                  if c \<noteq> CHR ''@'' then None
                  else if domainToReverseLabels domain = None then None
                  else Some \<lparr>mb_local = l, mb_domain = domain\<rparr>)))"

section \<open>Constraints\<close>

datatype name_err =
    CannotParseConstraint string
  | CannotParseDomain string
  | EmptyURIHost
  | BadHostPort
  | URIWithIP

text \<open>ASCII case folding; \<^verbatim>\<open>strings.EqualFold\<close> is only called on strings of printable ASCII characters.\<close>

definition lower_char :: "char \<Rightarrow> char" where
  "lower_char c = (if 65 \<le> code c \<and> code c \<le> 90 then char_of (code c + 32) else c)"

text \<open>
  \<^verbatim>\<open>toLowerCaseASCII\<close>: the scan for an upper-case letter, which also stops at invalid UTF-8, only
  avoids a copy.
\<close>

definition toLowerCaseASCII :: "string \<Rightarrow> string" where
  "toLowerCaseASCII s = map lower_char s"

definition EqualFold :: "string \<Rightarrow> string \<Rightarrow> bool" where
  "EqualFold s t \<longleftrightarrow> map lower_char s = map lower_char t"

fun labels_match :: "string list \<Rightarrow> string list \<Rightarrow> bool" where
  "labels_match [] ds = True"
| "labels_match (c # cs) [] = False"
| "labels_match (c # cs) (d # ds) = (EqualFold c d \<and> labels_match cs ds)"

definition matchDomainConstraint :: "string \<Rightarrow> string \<Rightarrow> name_err + bool" where
  "matchDomainConstraint domain constraint =
     (if constraint = [] then Inr True
      else
        (case domainToReverseLabels domain of
           None \<Rightarrow> Inl (CannotParseDomain domain)
         | Some domainLabels \<Rightarrow>
             let mustHaveSubdomains = (hd constraint = CHR ''.'');
                 constraint = (if mustHaveSubdomains then tl constraint else constraint)
             in case domainToReverseLabels constraint of
                  None \<Rightarrow> Inl (CannotParseDomain constraint)
                | Some constraintLabels \<Rightarrow>
                    if length domainLabels < length constraintLabels \<or>
                       mustHaveSubdomains \<and> length domainLabels = length constraintLabels
                    then Inr False
                    else Inr (labels_match constraintLabels domainLabels)))"

definition matchEmailConstraint :: "rfc2821Mailbox \<Rightarrow> string \<Rightarrow> name_err + bool" where
  "matchEmailConstraint mailbox constraint =
     (if CHR ''@'' \<in> set constraint then
        (case parseRFC2821Mailbox constraint of
           None \<Rightarrow> Inl (CannotParseConstraint constraint)
         | Some cm \<Rightarrow> Inr (mb_local mailbox = mb_local cm \<and> EqualFold (mb_domain mailbox) (mb_domain cm)))
      else matchDomainConstraint (mb_domain mailbox) constraint)"

text \<open>The textual address functions of package \<^verbatim>\<open>net\<close>, and the host of \<^verbatim>\<open>url.Parse\<close>.\<close>

record net_ops =
  net_ParseIP :: "string \<Rightarrow> bytes option"
  net_SplitHostPort :: "string \<Rightarrow> (string \<times> string) option"
  url_ParseHost :: "string \<Rightarrow> string option"

definition str_suffix :: "string \<Rightarrow> string \<Rightarrow> bool" where
  "str_suffix s p \<longleftrightarrow> length p \<le> length s \<and> drop (length s - length p) s = p"

text \<open>The URI is given by its host.\<close>

definition matchURIConstraint :: "net_ops \<Rightarrow> string \<Rightarrow> string \<Rightarrow> name_err + bool" where
  "matchURIConstraint net uri_Host constraint =
     (if uri_Host = [] then Inl EmptyURIHost
      else
        bind_res
          (if CHR '':'' \<in> set uri_Host \<and> \<not> str_suffix uri_Host '']'' then
             (case net_SplitHostPort net uri_Host of None \<Rightarrow> Inl BadHostPort | Some (host, port) \<Rightarrow> Inr host)
           else Inr uri_Host)
          (\<lambda>host.
             if has_prefix host ''['' \<and> str_suffix host '']'' \<or> net_ParseIP net host \<noteq> None then Inl URIWithIP
             else matchDomainConstraint host constraint))"

text \<open>A mask that is shorter than the address would be a panic; parsed constraints have equal lengths.\<close>

definition matchIPConstraint :: "bytes \<Rightarrow> IPNet \<Rightarrow> name_err + bool" where
  "matchIPConstraint ip constraint =
     (if length ip \<noteq> length (ipnet_IP constraint) then Inr False
      else Inr (list_all (\<lambda>i. and (ip ! i) (ipnet_Mask constraint ! i) = and (ipnet_IP constraint ! i) (ipnet_Mask constraint ! i))
        [0..<length ip]))"

text \<open>The reason of a \<^verbatim>\<open>CertificateInvalidError\<close> that \<^verbatim>\<open>checkNameConstraints\<close> returns.\<close>

datatype constraint_err = TooManyConstraints | MatchError name_err | Excluded | NotPermitted

fun check_excluded :: "('c \<Rightarrow> name_err + bool) \<Rightarrow> 'c list \<Rightarrow> constraint_err + unit" where
  "check_excluded match [] = Inr ()"
| "check_excluded match (c # cs) =
     (case match c of
        Inl e \<Rightarrow> Inl (MatchError e)
      | Inr m \<Rightarrow> if m then Inl Excluded else check_excluded match cs)"

text \<open>The value of \<^verbatim>\<open>ok\<close> after the loop.\<close>

fun check_permitted :: "('c \<Rightarrow> name_err + bool) \<Rightarrow> bool \<Rightarrow> 'c list \<Rightarrow> constraint_err + bool" where
  "check_permitted match ok [] = Inr ok"
| "check_permitted match ok (c # cs) =
     (case match c of
        Inl e \<Rightarrow> Inl (MatchError e)
      | Inr m \<Rightarrow> if m then Inr True else check_permitted match False cs)"

text \<open>The counter of comparisons is updated; its final value does not matter once an error is returned.\<close>

definition checkNameConstraints ::
    "nat \<Rightarrow> int \<Rightarrow> ('c \<Rightarrow> name_err + bool) \<Rightarrow> 'c list \<Rightarrow> 'c list \<Rightarrow> constraint_err + nat" where
  "checkNameConstraints count1 maxConstraintComparisons match permitted excluded =
     (let count2 = count1 + length excluded
      in if int count2 > maxConstraintComparisons then Inl TooManyConstraints
         else
           bind_res (check_excluded match excluded) (\<lambda>_.
             let count3 = count2 + length permitted
             in if int count3 > maxConstraintComparisons then Inl TooManyConstraints
                else bind_res (check_permitted match True permitted) (\<lambda>ok.
                  if \<not> ok then Inl NotPermitted else Inr count3)))"

section \<open>Host names\<close>

text \<open>\<^verbatim>\<open>strings.TrimSuffix(s, ".")\<close>\<close>

definition trim_dot :: "string \<Rightarrow> string" where
  "trim_dot s = (if s \<noteq> [] \<and> last s = CHR ''.'' then butlast s else s)"

definition host_char :: "nat \<Rightarrow> char \<Rightarrow> bool" where
  "host_char j c \<longleftrightarrow> 97 \<le> code c \<and> code c \<le> 122 \<or> 48 \<le> code c \<and> code c \<le> 57 \<or> 65 \<le> code c \<and> code c \<le> 90 \<or>
     c = CHR ''-'' \<and> j \<noteq> 0 \<or> c = CHR ''_'' \<or> c = CHR '':''"

definition validHostname :: "string \<Rightarrow> bool" where
  "validHostname host0 =
     (let host = trim_dot host0; parts = split_on (CHR ''.'') host
      in host \<noteq> [] \<and>
         list_all (\<lambda>i. let part = parts ! i in
           part \<noteq> [] \<and> (i = 0 \<and> part = ''*'' \<or> list_all (\<lambda>j. host_char j (part ! j)) [0..<length part]))
           [0..<length parts])"

text \<open>\<^verbatim>\<open>ignoreCN\<close> is read from the environment when the program starts.\<close>

definition commonNameAsHostname :: "bool \<Rightarrow> Certificate \<Rightarrow> bool" where
  "commonNameAsHostname ignoreCN c \<longleftrightarrow>
     \<not> ignoreCN \<and> \<not> hasSANExtension c \<and> validHostname (name_CommonName (Subject c))"

definition matchHostnames :: "string \<Rightarrow> string \<Rightarrow> bool" where
  "matchHostnames pattern0 host0 =
     (let host = trim_dot host0; pat = trim_dot pattern0
      in if pat = [] \<or> host = [] then False
         else
           let patternParts = split_on (CHR ''.'') pat; hostParts = split_on (CHR ''.'') host
           in if length patternParts \<noteq> length hostParts then False
              else list_all (\<lambda>i. i = 0 \<and> patternParts ! i = ''*'' \<or> patternParts ! i = hostParts ! i)
                     [0..<length patternParts])"

text \<open>\<^verbatim>\<open>net.IP.Equal\<close>: an IPv4 address equals its form mapped into IPv6.\<close>

definition v4InV6Prefix :: bytes where
  "v4InV6Prefix = replicate 10 0 @ [0xff, 0xff]"

definition IP_Equal :: "bytes \<Rightarrow> bytes \<Rightarrow> bool" where
  "IP_Equal ip x =
     (if length ip = length x then ip = x
      else if length ip = 4 \<and> length x = 16 then take 12 x = v4InV6Prefix \<and> ip = drop 12 x
      else if length ip = 16 \<and> length x = 4 then take 12 ip = v4InV6Prefix \<and> drop 12 ip = x
      else False)"

definition unbracket :: "string \<Rightarrow> string" where
  "unbracket h =
     (if length h \<ge> 3 \<and> hd h = CHR ''['' \<and> last h = CHR '']'' then butlast (tl h) else h)"

text \<open>\<open>Inl\<close> is the host of a \<^verbatim>\<open>HostnameError\<close>.\<close>

definition VerifyHostname :: "net_ops \<Rightarrow> bool \<Rightarrow> Certificate \<Rightarrow> string \<Rightarrow> string + unit" where
  "VerifyHostname net ignoreCN c h =
     (case net_ParseIP net (unbracket h) of
        Some ip \<Rightarrow>
          if list_ex (\<lambda>candidate. IP_Equal ip candidate) (IPAddresses c) then Inr () else Inl (unbracket h)
      | None \<Rightarrow>
          let lowered = toLowerCaseASCII h
          in if commonNameAsHostname ignoreCN c then
               (if matchHostnames (toLowerCaseASCII (name_CommonName (Subject c))) lowered then Inr () else Inl h)
             else
               (if list_ex (\<lambda>m. matchHostnames (toLowerCaseASCII m) lowered) (DNSNames c) then Inr () else Inl h))"

section \<open>Lemmas\<close>

lemma split_on_step:
  "split_on sep s = takeWhile (\<lambda>c. c \<noteq> sep) s #
     (case dropWhile (\<lambda>c. c \<noteq> sep) s of [] \<Rightarrow> [] | _ # r \<Rightarrow> split_on sep r)"
  by (induction s) auto

lemma split_on_ne [simp]: "split_on sep s \<noteq> []" "[] \<noteq> split_on sep s"
  by (subst split_on_step, simp)+

lemma split_on_hd: "hd (split_on sep s) = takeWhile (\<lambda>c. c \<noteq> sep) s"
  by (subst split_on_step) simp

lemma split_on_inj: "split_on sep s = split_on sep t \<Longrightarrow> s = t"
proof (induction s arbitrary: t rule: length_induct)
  case (1 s)
  let ?P = "\<lambda>c. c \<noteq> sep"
  have eq: "takeWhile ?P s = takeWhile ?P t"
    "(case dropWhile ?P s of [] \<Rightarrow> [] | _ # r \<Rightarrow> split_on sep r) = (case dropWhile ?P t of [] \<Rightarrow> [] | _ # r \<Rightarrow> split_on sep r)"
    using 1(2) unfolding split_on_step [of sep s] split_on_step [of sep t] by simp_all
  have "dropWhile ?P s = dropWhile ?P t"
  proof (cases "dropWhile ?P s")
    case Nil
    then show ?thesis using eq(2) by (cases "dropWhile ?P t") (simp_all only: list.case split_on_ne)
  next
    case (Cons a r)
    then have "length r < length s" using length_dropWhile_le [of ?P s] by simp
    moreover have "a = sep" using hd_dropWhile [of ?P s] Cons by simp
    moreover obtain b r' where t: "dropWhile ?P t = b # r'"
      using eq(2) Cons by (cases "dropWhile ?P t") simp_all
    moreover have "b = sep" using hd_dropWhile [of ?P t] t by simp
    ultimately show ?thesis using 1(1) eq(2) Cons by simp
  qed
  then show ?case using eq(1) by (metis takeWhile_dropWhile_id)
qed

lemma split_on_tl:
  "tl (split_on sep s) = tl (split_on sep t) \<longleftrightarrow> dropWhile (\<lambda>c. c \<noteq> sep) s = dropWhile (\<lambda>c. c \<noteq> sep) t"
proof -
  let ?P = "\<lambda>c. c \<noteq> sep"
  have "a = sep" if "dropWhile ?P s = a # r" for a r s using hd_dropWhile [of ?P s] that by simp
  note sep = this
  show ?thesis
  proof (cases "dropWhile ?P s"; cases "dropWhile ?P t")
    fix a r b r'
    assume d: "dropWhile ?P s = a # r" "dropWhile ?P t = b # r'"
    then show ?thesis using sep [OF d(1)] sep [OF d(2)]
      unfolding split_on_step [of sep s] split_on_step [of sep t] by (auto dest: split_on_inj)
  qed (simp_all only: split_on_step [of sep s] split_on_step [of sep t] list.sel list.case split_on_ne list.distinct simp_thms)
qed

lemma parts_match:
  assumes "ps \<noteq> []" "hs \<noteq> []"
  shows "length ps = length hs \<and> list_all (\<lambda>i. i = 0 \<and> ps ! i = w \<or> ps ! i = hs ! i) [0..<length ps] \<longleftrightarrow>
    (hd ps = w \<or> hd ps = hd hs) \<and> tl ps = tl hs"
proof -
  obtain p ps' h hs' where "ps = p # ps'" "hs = h # hs'" using assms by (cases ps; cases hs) auto
  moreover have "list_all Q [0..<Suc n] \<longleftrightarrow> Q 0 \<and> list_all (\<lambda>i. Q (Suc i)) [0..<n]" for Q n
    by (simp add: upt_conv_Cons map_Suc_upt [symmetric] list.pred_map o_def del: upt_Suc)
  moreover have "length ps' = length hs' \<and> list_all (\<lambda>i. ps' ! i = hs' ! i) [0..<length ps'] \<longleftrightarrow> ps' = hs'"
    by (auto simp: list_all_iff intro: nth_equalityI)
  ultimately show ?thesis by (auto simp del: upt_Suc)
qed

text \<open>The string cut before its first dot.\<close>

lemma first_label_iff:
  assumes "CHR ''.'' \<notin> set l"
  shows "takeWhile (\<lambda>c. c \<noteq> CHR ''.'') s = l \<and> dropWhile (\<lambda>c. c \<noteq> CHR ''.'') s = r \<longleftrightarrow>
    s = l @ r \<and> (r = [] \<or> hd r = CHR ''.'')"
proof
  assume "takeWhile (\<lambda>c. c \<noteq> CHR ''.'') s = l \<and> dropWhile (\<lambda>c. c \<noteq> CHR ''.'') s = r"
  then show "s = l @ r \<and> (r = [] \<or> hd r = CHR ''.'')"
    using takeWhile_dropWhile_id [of "\<lambda>c. c \<noteq> CHR ''.''" s] hd_dropWhile [of "\<lambda>c. c \<noteq> CHR ''.''" s] by auto
next
  assume "s = l @ r \<and> (r = [] \<or> hd r = CHR ''.'')"
  moreover have "\<forall>c \<in> set l. c \<noteq> CHR ''.''" using assms by auto
  ultimately show "takeWhile (\<lambda>c. c \<noteq> CHR ''.'') s = l \<and> dropWhile (\<lambda>c. c \<noteq> CHR ''.'') s = r"
    by (cases r) (auto simp: takeWhile_append2 dropWhile_append2)
qed

lemma reverse_labels_dot:
  assumes "d \<noteq> []" "hd d \<noteq> CHR ''.''"
  shows "reverse_labels (CHR ''.'' # d) = reverse_labels d"
  using assms
proof (induction d rule: length_induct)
  case (1 d)
  let ?P = "\<lambda>c. c \<noteq> CHR ''.''"
  show ?case
  proof (cases "CHR ''.'' \<in> set d")
    case False
    then have P: "\<And>c. c \<in> set (rev d) \<Longrightarrow> ?P c" by auto
    have "last_label (CHR ''.'' # d) = d" "before_last_dot (CHR ''.'' # d) = []"
      using takeWhile_append2 [of "rev d" ?P "''.''", OF P] dropWhile_append2 [of "rev d" ?P "''.''", OF P]
      by (simp_all add: last_label_def before_last_dot_def)
    then show ?thesis using False 1(2) by (subst reverse_labels.simps, subst (2) reverse_labels.simps) simp
  next
    case True
    then have t: "\<exists>c \<in> set (rev d). \<not> ?P c" by auto
    have l: "last_label (CHR ''.'' # d) = last_label d"
      using t by (auto simp: last_label_def takeWhile_append1)
    obtain e where e: "dropWhile ?P (rev d) = CHR ''.'' # e"
      using t hd_dropWhile [of ?P "rev d"] by (cases "dropWhile ?P (rev d)") auto
    have b: "before_last_dot (CHR ''.'' # d) = CHR ''.'' # before_last_dot d"
      using t e by (auto simp: before_last_dot_def dropWhile_append1)
    have "rev d = takeWhile ?P (rev d) @ CHR ''.'' # e" using takeWhile_dropWhile_id [of ?P "rev d"] e by simp
    then have d: "d = rev e @ CHR ''.'' # rev (takeWhile ?P (rev d))"
      by (metis append.assoc append_Cons append_Nil rev.simps(2) rev_append rev_rev_ident)
    then have "e \<noteq> []" using 1(3) by (metis append_Nil list.sel(1) rev.simps(1))
    then have "before_last_dot d \<noteq> []" "hd (before_last_dot d) \<noteq> CHR ''.''"
      using e 1(3) arg_cong [OF d, of hd] by (simp_all add: before_last_dot_def hd_append)
    moreover have "length (before_last_dot d) < length d"
      using arg_cong [OF d, of length] e by (simp add: before_last_dot_def)
    ultimately have "reverse_labels (CHR ''.'' # before_last_dot d) = reverse_labels (before_last_dot d)" using 1(1) by blast
    then have "reverse_labels (CHR ''.'' # d) = last_label d # reverse_labels (before_last_dot d)"
      by (subst reverse_labels.simps) (simp add: l b)
    also have "\<dots> = reverse_labels d" using True 1(2) by (subst (2) reverse_labels.simps) simp
    finally show ?thesis .
  qed
qed

declare reverse_labels.simps [simp del]

section \<open>Properties\<close>

text \<open>
  (C36) A pattern matches a host name exactly when, one final dot of each removed, both are not empty
  and they are equal or the pattern starts with a label \<open>*\<close> and the host name has one label of its own
  in that place: a wildcard never stands for several labels nor for part of one, and a star in any other
  place stands for itself.
\<close>

theorem matchHostnames_iff:
  "matchHostnames pattern0 host0 \<longleftrightarrow>
     (let p = trim_dot pattern0; h = trim_dot host0
      in p \<noteq> [] \<and> h \<noteq> [] \<and>
         (p = h \<or> (\<exists>l rest. p = CHR ''*'' # rest \<and> h = l @ rest \<and> CHR ''.'' \<notin> set l \<and>
                     (rest = [] \<or> hd rest = CHR ''.''))))"
proof -
  let ?p = "trim_dot pattern0" and ?h = "trim_dot host0" and ?P = "\<lambda>c. c \<noteq> CHR ''.''"
  let ?ps = "split_on (CHR ''.'') ?p" and ?hs = "split_on (CHR ''.'') ?h"
  have "matchHostnames pattern0 host0 \<longleftrightarrow> ?p \<noteq> [] \<and> ?h \<noteq> [] \<and>
      length ?ps = length ?hs \<and> list_all (\<lambda>i. i = 0 \<and> ?ps ! i = ''*'' \<or> ?ps ! i = ?hs ! i) [0..<length ?ps]"
    by (simp add: matchHostnames_def Let_def)
  also have "\<dots> \<longleftrightarrow> ?p \<noteq> [] \<and> ?h \<noteq> [] \<and> (takeWhile ?P ?p = ''*'' \<or> takeWhile ?P ?p = takeWhile ?P ?h) \<and>
      dropWhile ?P ?p = dropWhile ?P ?h"
    unfolding parts_match [OF split_on_ne(1) split_on_ne(1)] split_on_hd split_on_tl ..
  also have "\<dots> \<longleftrightarrow> ?p \<noteq> [] \<and> ?h \<noteq> [] \<and> (takeWhile ?P ?p = ''*'' \<and> dropWhile ?P ?p = dropWhile ?P ?h \<or> ?p = ?h)"
    by (metis takeWhile_dropWhile_id)
  also have "takeWhile ?P ?p = ''*'' \<and> dropWhile ?P ?p = dropWhile ?P ?h \<longleftrightarrow>
      (\<exists>l rest. ?p = CHR ''*'' # rest \<and> ?h = l @ rest \<and> CHR ''.'' \<notin> set l \<and> (rest = [] \<or> hd rest = CHR ''.''))"
    (is "?A \<longleftrightarrow> ?B")
  proof
    assume ?A
    then have "?p = ''*'' @ dropWhile ?P ?h \<and> (dropWhile ?P ?h = [] \<or> hd (dropWhile ?P ?h) = CHR ''.'')"
      using first_label_iff [of "''*''" ?p "dropWhile ?P ?h"] by simp
    moreover have "CHR ''.'' \<notin> set (takeWhile ?P ?h)" by (auto dest: set_takeWhileD)
    ultimately show ?B
      by (intro exI [of _ "takeWhile ?P ?h"] exI [of _ "dropWhile ?P ?h"]) simp
  next
    assume ?B
    then obtain l rest where r: "?p = ''*'' @ rest" "?h = l @ rest" "CHR ''.'' \<notin> set l" "rest = [] \<or> hd rest = CHR ''.''"
      by auto
    then show ?A using first_label_iff [of "''*''" ?p rest] first_label_iff [OF r(3), of ?h rest] by simp
  qed
  finally show ?thesis by (auto simp: Let_def)
qed

text \<open>
  A leading dot is lost when a domain name is cut into labels: a name with an empty first label
  is accepted, and is treated like the name without the dot, although empty labels are meant to be
  rejected.
\<close>

theorem leading_dot_accepted:
  assumes "d \<noteq> []" "hd d \<noteq> CHR ''.''"
  shows "domainToReverseLabels (CHR ''.'' # d) = domainToReverseLabels d \<and>
    (matchDomainConstraint (CHR ''.'' # d) constraint = Inr m \<longleftrightarrow> matchDomainConstraint d constraint = Inr m)"
  using reverse_labels_dot [OF assms] assms
  by (auto simp: domainToReverseLabels_def matchDomainConstraint_def Let_def split: if_splits option.splits)

theorem leading_dot_accepted_witness:
  "domainToReverseLabels ''.a.b'' = Some [''b'', ''a''] \<and> matchDomainConstraint ''.a.b'' ''a.b'' = Inr True"
proof -
  have "domainToReverseLabels ''a.b'' = Some [''b'', ''a'']" "matchDomainConstraint ''a.b'' ''a.b'' = Inr True"
    by code_simp+
  then show ?thesis using leading_dot_accepted [of "''a.b''" "''a.b''" True] by simp
qed

end
