(* ===== verification/X509_Verify.thy ===== *)
theory X509_Verify
  imports X509_Pool X509_Names ASN1_Codec
begin

text \<open>
  Certificate verification (\<^verbatim>\<open>src/x509/verify.go\<close>): the validity checks on one certificate, the search
  for chains with its cache and its limit on signature checks, nesting of extended key usages, and
  \<^verbatim>\<open>Verify\<close>. The record \<open>env\<close> holds what the code takes from its environment: the functions of package
  \<^verbatim>\<open>net\<close>, the flag \<^verbatim>\<open>ignoreCN\<close>, the clock, the crypto primitives and the system roots. The cache of \<^verbatim>\<open>buildChains\<close> is keyed by a pointer into the pool
  of intermediates, here by the index in it.
\<close>

section \<open>Subject alternative names\<close>

datatype 'e san_err = SanASN1 asn1_err | SanTrailing | SanCallback 'e

text \<open>\<^verbatim>\<open>asn1.Unmarshal\<close> into a \<^verbatim>\<open>RawValue\<close>.\<close>

definition unmarshal_raw :: "bytes \<Rightarrow> asn1_err + RawValue \<times> bytes" where
  "unmarshal_raw b =
     bind_res (Unmarshal_asn1 b ARawValue) (\<lambda>(v, rest).
       case v of VRawValue rv \<Rightarrow> Inr (rv, rest) | _ \<Rightarrow> Inl (OtherError []))"

lemma unmarshal_raw_eq:
  "unmarshal_raw b =
     (if b = [] then Inl (SyntaxError ''sequence truncated'' [])
      else bind_res (parseTagAndLength b 0 []) (\<lambda>(t, offset).
        if invalidLength (int offset) (tl_length t) (int (length b)) then Inl (SyntaxError ''data truncated'' [])
        else
          let stop = offset + nat (tl_length t)
          in Inr (\<lparr>rv_Class = tl_class t, rv_Tag = tl_tag t, rv_IsCompound = tl_isCompound t,
                  rv_Bytes = slice b offset stop, rv_FullBytes = slice b 0 stop\<rparr>, drop stop b)))"
proof -
  have p: "parseFieldParameters [] = zero_fieldParameters"
    by (simp add: parseFieldParameters_def fieldParameter_def has_prefix_def)
  show ?thesis
    unfolding unmarshal_raw_def Unmarshal_asn1_def UnmarshalWithParams_asn1_def p parseField_asn1.simps
    by (auto simp: parse_stage_def default_or_def setDefaultValue_def zero_fieldParameters_def explicit_header_def
        match_element_def getUniversalType_def expected_tag_def Let_def bind_res_def split: sum.splits prod.splits)
qed

lemma valid_length:
  assumes "\<not> invalidLength (int offset) len (int n)" "0 \<le> len" "len < 2 ^ 31"
  shows "offset + nat len \<le> n"
proof -
  let ?z = "int offset + len"
  have w: "wrap64 ?z < 2 ^ 63" unfolding wrap64_def by (simp add: pos_mod_bound [THEN less_le_trans])
  have "int offset \<le> wrap64 ?z" "wrap64 ?z \<le> int n" using assms(1) by (simp_all add: invalidLength_def not_less)
  then have o: "int offset < 2 ^ 63" using w by linarith
  have "?z < 2 ^ 63"
  proof (rule ccontr)
    assume c: "\<not> ?z < 2 ^ 63"
    define y where "y = ?z + 2 ^ 63 - 2 ^ 64"
    have y: "0 \<le> y" "y < 2 ^ 64" "?z + 2 ^ 63 = y + 2 ^ 64" using c o assms(3) by (simp_all add: y_def)
    then have "(?z + 2 ^ 63) mod 2 ^ 64 = y" by (simp only: mod_add_self2) (rule mod_pos_pos_trivial)
    then have "wrap64 ?z < 0" using o assms(3) by (simp add: wrap64_def y_def)
    then show False using \<open>int offset \<le> wrap64 ?z\<close> by simp
  qed
  then have "wrap64 ?z = ?z" using assms(2) by (intro wrap64_id) auto
  then show ?thesis using \<open>wrap64 ?z \<le> int n\<close> assms(2) by simp
qed

lemma unmarshal_raw_shrinks: "unmarshal_raw b = Inr (v, rest) \<Longrightarrow> length rest < length b"
  by (auto simp: unmarshal_raw_eq Let_def result_simps split: if_splits
      dest!: parseTagAndLength_offset)

text \<open>The loop over the names, with the state of the callback's closure threaded through.\<close>

function san_loop :: "(int \<Rightarrow> bytes \<Rightarrow> 's \<Rightarrow> 'e + 's) \<Rightarrow> bytes \<Rightarrow> 's \<Rightarrow> 'e san_err + 's" where
  "san_loop callback rest st =
     (if rest = [] then Inr st
      else
        (case unmarshal_raw rest of
           Inl e \<Rightarrow> Inl (SanASN1 e)
         | Inr (v, rest') \<Rightarrow>
             (case callback (rv_Tag v) (rv_Bytes v) st of
                Inl e \<Rightarrow> Inl (SanCallback e)
              | Inr st' \<Rightarrow> san_loop callback rest' st')))"
  by pat_completeness auto
termination by (relation "measure (\<lambda>(_, rest, _). length rest)") (auto dest: unmarshal_raw_shrinks)

definition forEachSAN :: "bytes \<Rightarrow> (int \<Rightarrow> bytes \<Rightarrow> 's \<Rightarrow> 'e + 's) \<Rightarrow> 's \<Rightarrow> 'e san_err + 's" where
  "forEachSAN extension callback st =
     (case unmarshal_raw extension of
        Inl e \<Rightarrow> Inl (SanASN1 e)
      | Inr (seq, rest) \<Rightarrow>
          if rest \<noteq> [] then Inl SanTrailing
          else if \<not> rv_IsCompound seq \<or> rv_Tag seq \<noteq> TagSequence \<or> rv_Class seq \<noteq> ClassUniversal
          then Inl (SanASN1 (StructuralError ''bad SAN sequence'' []))
          else san_loop callback (rv_Bytes seq) st)"

declare san_loop.simps [simp del]

section \<open>Options and errors\<close>

record VerifyOptions =
  vo_DNSName :: string
  vo_Intermediates :: "CertPool option"
  vo_Roots :: "CertPool option"
  vo_CurrentTime :: gotime
  vo_DisableTimeChecks :: bool
  vo_DisableCriticalExtensionChecks :: bool
  vo_DisableNameChecks :: bool
  vo_DisableEKUChecks :: bool
  vo_DisablePathLenChecks :: bool
  vo_DisableNameConstraintChecks :: bool
  vo_KeyUsages :: "int list"
  vo_MaxConstraintComparisions :: int

datatype cert_type = leafCertificate | intermediateCertificate | rootCertificate

text \<open>An error of the callback over the names of the leaf.\<close>

datatype san_name_err =
    BadRFC822Name string
  | BadDNSName string
  | BadURI string
  | BadIP bytes
  | ConstraintViolation constraint_err

datatype InvalidReason =
    NotAuthorizedToSign | Expired | TooManyIntermediates | IncompatibleUsage | NameMismatch
  | NameConstraintsWithoutSANs

datatype verify_err =
    CertificateInvalid InvalidReason
  | UnhandledCriticalExtension oid
  | EmptyChain
  | SANError "san_name_err san_err"
  | NotParsed
  | NoSystemRoots
  | HostnameMismatch string
  | UnknownAuthority
  | SignatureLimit

text \<open>The functions of the environment that verification calls.\<close>

record ('rp, 'ep, 'rand) env =
  env_net :: net_ops
  env_ignoreCN :: bool
  env_now :: gotime
  env_ops :: "('rp, 'ep, 'rand) x509_ops"
  env_systemRoots :: "CertPool option"

section \<open>Validity of one certificate\<close>

definition bytes_string :: "bytes \<Rightarrow> string" where
  "bytes_string bs = map (\<lambda>b. char_of (unat b)) bs"

definition nameTypeEmail :: int where "nameTypeEmail = 1"
definition nameTypeDNS :: int where "nameTypeDNS = 2"
definition nameTypeURI :: int where "nameTypeURI = 6"
definition nameTypeIP :: int where "nameTypeIP = 7"

text \<open>The callback over the names of the leaf; the state is \<^verbatim>\<open>comparisonCount\<close>.\<close>

definition check_san :: "net_ops \<Rightarrow> Certificate \<Rightarrow> int \<Rightarrow> int \<Rightarrow> bytes \<Rightarrow> nat \<Rightarrow> san_name_err + nat" where
  "check_san net c maxConstraintComparisons tag data count1 =
     (let lift = (\<lambda>r. case r of Inl e \<Rightarrow> Inl (ConstraintViolation e) | Inr n \<Rightarrow> Inr n)
      in if tag = nameTypeEmail then
           (case parseRFC2821Mailbox (bytes_string data) of
              None \<Rightarrow> Inl (BadRFC822Name (bytes_string data))
            | Some mailbox \<Rightarrow>
                lift (checkNameConstraints count1 maxConstraintComparisons (matchEmailConstraint mailbox)
                  (PermittedEmailAddresses c) (ExcludedEmailAddresses c)))
         else if tag = nameTypeDNS then
           (if domainToReverseLabels (bytes_string data) = None then Inl (BadDNSName (bytes_string data))
            else
              lift (checkNameConstraints count1 maxConstraintComparisons (matchDomainConstraint (bytes_string data))
                (PermittedDNSDomains c) (ExcludedDNSDomains c)))
         else if tag = nameTypeURI then
           (case url_ParseHost net (bytes_string data) of
              None \<Rightarrow> Inl (BadURI (bytes_string data))
            | Some host \<Rightarrow>
                lift (checkNameConstraints count1 maxConstraintComparisons (matchURIConstraint net host)
                  (PermittedURIDomains c) (ExcludedURIDomains c)))
         else if tag = nameTypeIP then
           (if length data \<noteq> 4 \<and> length data \<noteq> 16 then Inl (BadIP data)
            else
              lift (checkNameConstraints count1 maxConstraintComparisons (matchIPConstraint data)
                (PermittedIPRanges c) (ExcludedIPRanges c)))
         else Inr count1)"

definition check_time :: "('rp, 'ep, 'rand) env \<Rightarrow> VerifyOptions \<Rightarrow> Certificate \<Rightarrow> verify_err + unit" where
  "check_time env opts c =
     (if vo_DisableTimeChecks opts then Inr ()
      else
        let now = (if vo_CurrentTime opts = zero_time then env_now env else vo_CurrentTime opts)
        in if now < NotBefore c then Inl (CertificateInvalid Expired)
           else if now > NotAfter c then Inl (CertificateInvalid Expired)
           else Inr ())"

definition check_constraints ::
    "('rp, 'ep, 'rand) env \<Rightarrow> VerifyOptions \<Rightarrow> cert_type \<Rightarrow> Certificate list \<Rightarrow> Certificate \<Rightarrow> verify_err + unit" where
  "check_constraints env opts certType currentChain c =
     (let maxConstraintComparisons =
            (if vo_MaxConstraintComparisions opts = 0 then 250000 else vo_MaxConstraintComparisions opts)
      in if certType = leafCertificate then Inr ()
         else if currentChain = [] then Inl EmptyChain
         else
           let leaf = hd currentChain;
               check = \<not> vo_DisableNameConstraintChecks opts \<and> hasNameConstraints c
           in if check \<and> commonNameAsHostname (env_ignoreCN env) leaf
              then Inl (CertificateInvalid NameConstraintsWithoutSANs)
              else if check \<and> hasSANExtension leaf then
                (case forEachSAN (getSANExtension leaf) (check_san (env_net env) c maxConstraintComparisons) 0 of
                   Inl e \<Rightarrow> Inl (SANError e)
                 | Inr _ \<Rightarrow> Inr ())
              else Inr ())"

definition isValid ::
    "('rp, 'ep, 'rand) env \<Rightarrow> VerifyOptions \<Rightarrow> cert_type \<Rightarrow> Certificate list \<Rightarrow> Certificate \<Rightarrow> verify_err + unit" where
  "isValid env opts certType currentChain c =
     (if \<not> vo_DisableCriticalExtensionChecks opts \<and> UnhandledCriticalExtensions c \<noteq> []
      then Inl (UnhandledCriticalExtension (hd (UnhandledCriticalExtensions c)))
      else if \<not> vo_DisableNameChecks opts \<and> currentChain \<noteq> [] \<and> RawIssuer (last currentChain) \<noteq> RawSubject c
      then Inl (CertificateInvalid NameMismatch)
      else
        bind_res (check_time env opts c) (\<lambda>_.
        bind_res (check_constraints env opts certType currentChain c) (\<lambda>_.
          if certType = intermediateCertificate \<and> (\<not> BasicConstraintsValid c \<or> \<not> IsCA c)
          then Inl (CertificateInvalid NotAuthorizedToSign)
          else if \<not> vo_DisablePathLenChecks opts \<and> BasicConstraintsValid c \<and> MaxPathLen c \<ge> 0 \<and>
                  int (length currentChain) - 1 > MaxPathLen c
          then Inl (CertificateInvalid TooManyIntermediates)
          else Inr ())))"

section \<open>Building chains\<close>

definition maxChainSignatureChecks :: nat where "maxChainSignatureChecks = 100"

text \<open>
  The variables of \<^verbatim>\<open>buildChains\<close>: the chains found and the error of this call, and the cache and the
  counter of signature checks, which all the nested calls share. The hints of the error value are
  not kept.
\<close>

record build =
  b_chains :: "Certificate list list"
  b_err :: "verify_err option"
  b_cache :: "nat \<rightharpoonup> Certificate list list"
  b_sigChecks :: nat

text \<open>\<^verbatim>\<open>considerCandidate\<close> up to its \<^verbatim>\<open>switch\<close>; the flag tells whether the candidate passed.\<close>

definition considerCandidate ::
    "('rp, 'ep, 'rand) env \<Rightarrow> VerifyOptions \<Rightarrow> Certificate \<Rightarrow> Certificate list \<Rightarrow> cert_type \<Rightarrow> Certificate \<Rightarrow> build \<Rightarrow> build \<times> bool" where
  "considerCandidate env opts c currentChain certType candidate st =
     (if list_ex (\<lambda>cert. Certificate_Equal cert candidate) currentChain then (st, False)
      else
        let st = st\<lparr>b_sigChecks := Suc (b_sigChecks st)\<rparr>
        in if b_sigChecks st > maxChainSignatureChecks then (st\<lparr>b_err := Some SignatureLimit\<rparr>, False)
           else if CheckSignatureFrom (env_ops env) c candidate \<noteq> Inr () then (st, False)
           else
             (case isValid env opts certType currentChain candidate of
                Inl e \<Rightarrow> (st\<lparr>b_err := Some e\<rparr>, False)
              | Inr _ \<Rightarrow> (st\<lparr>b_err := None\<rparr>, True)))"

definition consider_root ::
    "('rp, 'ep, 'rand) env \<Rightarrow> VerifyOptions \<Rightarrow> Certificate \<Rightarrow> Certificate list \<Rightarrow> Certificate \<Rightarrow> build \<Rightarrow> build" where
  "consider_root env opts c currentChain candidate st =
     (case considerCandidate env opts c currentChain rootCertificate candidate st of
        (st', False) \<Rightarrow> st'
      | (st', True) \<Rightarrow> st'\<lparr>b_chains := b_chains st' @ [currentChain @ [candidate]]\<rparr>)"

text \<open>The certificates of a pool that is not nil.\<close>

definition pool_certs :: "CertPool option \<Rightarrow> Certificate list" where
  "pool_certs p = (case p of None \<Rightarrow> [] | Some q \<Rightarrow> certs q)"

definition finish_build :: "build \<Rightarrow> build" where
  "finish_build st =
     (if b_chains st \<noteq> [] then st\<lparr>b_err := None\<rparr>
      else if b_err st = None then st\<lparr>b_err := Some UnknownAuthority\<rparr> else st)"

text \<open>
  The certificates of the intermediate pool that are not in the current chain yet: the measure of the
  search.
\<close>

definition unused :: "VerifyOptions \<Rightarrow> Certificate list \<Rightarrow> Certificate list" where
  "unused opts currentChain =
     filter (\<lambda>m. \<not> list_ex (\<lambda>cert. Certificate_Equal cert m) currentChain) (pool_certs (vo_Intermediates opts))"

lemma unused_shrinks:
  assumes "i < length (pool_certs (vo_Intermediates opts))"
    and "\<not> list_ex (\<lambda>cert. Certificate_Equal cert (pool_certs (vo_Intermediates opts) ! i)) currentChain"
  shows "length (unused opts (currentChain @ [pool_certs (vo_Intermediates opts) ! i])) < length (unused opts currentChain)"
proof -
  let ?m = "pool_certs (vo_Intermediates opts) ! i"
  have m: "?m \<in> set (unused opts currentChain)" using assms by (simp add: unused_def)
  have "unused opts (currentChain @ [?m]) = filter (\<lambda>m. \<not> Certificate_Equal ?m m) (unused opts currentChain)"
    by (auto simp: unused_def intro: filter_cong)
  moreover have "length (filter (\<lambda>m. \<not> Certificate_Equal ?m m) (unused opts currentChain)) < length (unused opts currentChain)"
    using m by (intro length_filter_less) (auto simp: Certificate_Equal_def)
  ultimately show ?thesis by simp
qed

lemma considerCandidate_passed:
  "considerCandidate env opts c currentChain certType candidate st = (st', True) \<Longrightarrow>
     \<not> list_ex (\<lambda>cert. Certificate_Equal cert candidate) currentChain \<and> CheckSignatureFrom (env_ops env) c candidate = Inr () \<and>
     isValid env opts certType currentChain candidate = Inr () \<and>
     b_sigChecks st' = Suc (b_sigChecks st) \<and> b_sigChecks st' \<le> maxChainSignatureChecks \<and>
     b_chains st' = b_chains st \<and> b_cache st' = b_cache st"
  by (auto simp: considerCandidate_def Let_def split: if_splits sum.splits)

text \<open>
  \<open>buildChains\<close> searches from \<open>c\<close>, the last certificate of \<open>currentChain\<close>; \<open>build_intermediates\<close> is its
  second loop. An index outside the pool would be a panic, which \<open>pool_inv\<close> excludes; it is skipped.
\<close>

function buildChains ::
      "('rp, 'ep, 'rand) env \<Rightarrow> VerifyOptions \<Rightarrow> Certificate \<Rightarrow> Certificate list \<Rightarrow> (nat \<rightharpoonup> Certificate list list) \<Rightarrow> nat \<Rightarrow> build"
  and build_intermediates ::
      "('rp, 'ep, 'rand) env \<Rightarrow> VerifyOptions \<Rightarrow> Certificate \<Rightarrow> Certificate list \<Rightarrow> nat list \<Rightarrow> build \<Rightarrow> build" where
  "buildChains env opts c currentChain cache sigChecks =
     (let st = \<lparr>b_chains = [], b_err = None, b_cache = cache, b_sigChecks = sigChecks\<rparr>;
          st = foldl (\<lambda>st rootNum. consider_root env opts c currentChain (pool_certs (vo_Roots opts) ! rootNum) st) st
                 (findPotentialParents (vo_Roots opts) c)
      in finish_build (build_intermediates env opts c currentChain (findPotentialParents (vo_Intermediates opts) c) st))"
| "build_intermediates env opts c currentChain [] st = st"
| "build_intermediates env opts c currentChain (intermediateNum # nums) st =
     (if intermediateNum < length (pool_certs (vo_Intermediates opts)) then
        let candidate = pool_certs (vo_Intermediates opts) ! intermediateNum
        in case considerCandidate env opts c currentChain intermediateCertificate candidate st of
             (st', False) \<Rightarrow> build_intermediates env opts c currentChain nums st'
           | (st', True) \<Rightarrow>
               (case b_cache st' intermediateNum of
                  Some childChains \<Rightarrow>
                    build_intermediates env opts c currentChain nums (st'\<lparr>b_chains := b_chains st' @ childChains\<rparr>)
                | None \<Rightarrow>
                    let child = buildChains env opts candidate (currentChain @ [candidate]) (b_cache st') (b_sigChecks st')
                    in build_intermediates env opts c currentChain nums
                         \<lparr>b_chains = b_chains st' @ b_chains child, b_err = b_err child,
                          b_cache = (b_cache child)(intermediateNum \<mapsto> b_chains child),
                          b_sigChecks = b_sigChecks child\<rparr>)
      else build_intermediates env opts c currentChain nums st)"
  by pat_completeness auto
termination
  by (relation "measures [\<lambda>x. case x of
        Inl (env, opts, c, currentChain, cache, sigChecks) \<Rightarrow> length (unused opts currentChain)
      | Inr (env, opts, c, currentChain, nums, st) \<Rightarrow> length (unused opts currentChain),
      \<lambda>x. case x of Inl _ \<Rightarrow> Suc (length (findPotentialParents (vo_Intermediates (fst (snd (projl x)))) (fst (snd (snd (projl x))))))
      | Inr (env, opts, c, currentChain, nums, st) \<Rightarrow> length nums]")
     (auto dest!: considerCandidate_passed sym [of "(_, True)"] intro: unused_shrinks)

declare buildChains.simps [simp del]

section \<open>Extended key usages\<close>

text \<open>The value that marks a usage as crossed out.\<close>

definition invalidUsage :: int where "invalidUsage = -1"

definition usage_allowed :: "Certificate \<Rightarrow> int \<Rightarrow> bool" where
  "usage_allowed cert requestedUsage =
     list_ex (\<lambda>usage. requestedUsage = usage \<or>
        requestedUsage = ExtKeyUsageServerAuth \<and>
          (usage = ExtKeyUsageNetscapeServerGatedCrypto \<or> usage = ExtKeyUsageMicrosoftServerGatedCrypto))
       (ExtKeyUsage cert)"

text \<open>The loop over the requested usages: \<open>None\<close> is the \<^verbatim>\<open>return false\<close> when none is left.\<close>

fun cross_out :: "Certificate \<Rightarrow> int list \<Rightarrow> int \<Rightarrow> (int list \<times> int) option" where
  "cross_out cert [] usagesRemaining = Some ([], usagesRemaining)"
| "cross_out cert (u # us) usagesRemaining =
     (if u = invalidUsage \<or> usage_allowed cert u
      then map_option (\<lambda>(us', r). (u # us', r)) (cross_out cert us usagesRemaining)
      else if usagesRemaining - 1 = 0 then None
      else map_option (\<lambda>(us', r). (invalidUsage # us', r)) (cross_out cert us (usagesRemaining - 1)))"

text \<open>The loop over the chain, from the root down.\<close>

fun walk_usages :: "Certificate list \<Rightarrow> int list \<Rightarrow> int \<Rightarrow> bool" where
  "walk_usages [] usages usagesRemaining = True"
| "walk_usages (cert # cs) usages usagesRemaining =
     (if ExtKeyUsage cert = [] \<and> UnknownExtKeyUsage cert = [] then walk_usages cs usages usagesRemaining
      else if ExtKeyUsageAny \<in> set (ExtKeyUsage cert) then walk_usages cs usages usagesRemaining
      else
        (case cross_out cert usages usagesRemaining of
           None \<Rightarrow> False
         | Some (usages', r) \<Rightarrow> walk_usages cs usages' r))"

definition checkChainForKeyUsage :: "Certificate list \<Rightarrow> int list \<Rightarrow> bool" where
  "checkChainForKeyUsage chain keyUsages =
     (if chain = [] then False else walk_usages (rev chain) keyUsages (int (length keyUsages)))"

section \<open>Verify\<close>

text \<open>On a platform other than Windows, whose own verifier is not part of the sources.\<close>

definition Verify :: "('rp, 'ep, 'rand) env \<Rightarrow> VerifyOptions \<Rightarrow> Certificate \<Rightarrow> verify_err + Certificate list list" where
  "Verify env opts0 c =
     (if Raw c = [] then Inl NotParsed
      else if list_ex (\<lambda>intermediate. Raw intermediate = []) (pool_certs (vo_Intermediates opts0)) then Inl NotParsed
      else
        (case (case vo_Roots opts0 of None \<Rightarrow> env_systemRoots env | Some p \<Rightarrow> Some p) of
           None \<Rightarrow> Inl NoSystemRoots
         | Some roots \<Rightarrow>
             let opts = opts0\<lparr>vo_Roots := Some roots\<rparr>
             in bind_res (isValid env opts leafCertificate [] c) (\<lambda>_.
                bind_res
                  (if vo_DNSName opts \<noteq> [] then
                     (case VerifyHostname (env_net env) (env_ignoreCN env) c (vo_DNSName opts) of
                        Inl h \<Rightarrow> Inl (HostnameMismatch h)
                      | Inr _ \<Rightarrow> Inr ())
                   else Inr ()) (\<lambda>_.
                bind_res
                  (if contains_cert (Some roots) c then Inr [[c]]
                   else
                     let r = buildChains env opts c [c] Map.empty 0
                     in case b_err r of Some e \<Rightarrow> Inl e | None \<Rightarrow> Inr (b_chains r)) (\<lambda>candidateChains.
                let keyUsages = (if vo_KeyUsages opts = [] then [ExtKeyUsageServerAuth] else vo_KeyUsages opts)
                in if ExtKeyUsageAny \<in> set keyUsages then Inr candidateChains
                   else
                     let chains = filter (\<lambda>candidate. vo_DisableEKUChecks opts \<or> checkChainForKeyUsage candidate keyUsages) candidateChains
                     in if chains = [] then Inl (CertificateInvalid IncompatibleUsage) else Inr chains)))))"

section \<open>Verified paths\<close>

text \<open>What one step of a chain guarantees: the signature, the validity checks, and no repetition.\<close>

definition step_ok ::
    "('rp, 'ep, 'rand) env \<Rightarrow> VerifyOptions \<Rightarrow> cert_type \<Rightarrow> Certificate list \<Rightarrow> Certificate \<Rightarrow> bool" where
  "step_ok env opts certType chain m \<longleftrightarrow>
     CheckSignatureFrom (env_ops env) (last chain) m = Inr () \<and> isValid env opts certType chain m = Inr () \<and>
     \<not> list_ex (\<lambda>cert. Certificate_Equal cert m) chain"

text \<open>The paths from a leaf through intermediates of the pool.\<close>

inductive path :: "('rp, 'ep, 'rand) env \<Rightarrow> VerifyOptions \<Rightarrow> Certificate \<Rightarrow> Certificate list \<Rightarrow> bool"
  for env opts leaf where
  start: "path env opts leaf [leaf]"
| extend: "path env opts leaf chain \<Longrightarrow> m \<in> set (pool_certs (vo_Intermediates opts)) \<Longrightarrow>
    step_ok env opts intermediateCertificate chain m \<Longrightarrow> path env opts leaf (chain @ [m])"

definition verified_chain ::
    "('rp, 'ep, 'rand) env \<Rightarrow> VerifyOptions \<Rightarrow> Certificate \<Rightarrow> Certificate list \<Rightarrow> bool" where
  "verified_chain env opts leaf ch \<longleftrightarrow>
     (\<exists>p r. ch = p @ [r] \<and> path env opts leaf p \<and> r \<in> set (pool_certs (vo_Roots opts)) \<and>
        step_ok env opts rootCertificate p r)"

definition verified_all ::
    "('rp, 'ep, 'rand) env \<Rightarrow> VerifyOptions \<Rightarrow> Certificate \<Rightarrow> build \<Rightarrow> bool" where
  "verified_all env opts leaf st \<longleftrightarrow>
     (\<forall>ch \<in> set (b_chains st). verified_chain env opts leaf ch) \<and>
     (\<forall>i chs. b_cache st i = Some chs \<longrightarrow> (\<forall>ch \<in> set chs. verified_chain env opts leaf ch))"

lemma path_hd: "path env opts leaf p \<Longrightarrow> p \<noteq> [] \<and> hd p = leaf"
  by (induction rule: path.induct) auto

lemma path_distinct: "path env opts leaf p \<Longrightarrow> distinct (map Raw p)"
  by (induction rule: path.induct) (auto simp: step_ok_def list_ex_iff Certificate_Equal_def)

lemma verified_all_err [simp]: "verified_all env opts leaf (st\<lparr>b_err := e\<rparr>) = verified_all env opts leaf st"
  by (simp add: verified_all_def)

lemma verified_all_sigChecks [simp]:
  "verified_all env opts leaf (st\<lparr>b_sigChecks := n\<rparr>) = verified_all env opts leaf st"
  by (simp add: verified_all_def)

lemma considerCandidate_verified:
  "considerCandidate env opts c chain ty m st = (st', ok) \<Longrightarrow>
     verified_all env opts leaf st' = verified_all env opts leaf st"
  by (auto simp: considerCandidate_def Let_def split: if_splits sum.splits)

lemma considerCandidate_step:
  "considerCandidate env opts (last chain) chain ty m st = (st', True) \<Longrightarrow> step_ok env opts ty chain m"
  by (drule considerCandidate_passed) (simp add: step_ok_def)

lemma consider_root_verified:
  assumes "verified_all env opts leaf st" "path env opts leaf chain" "r \<in> set (pool_certs (vo_Roots opts))"
  shows "verified_all env opts leaf (consider_root env opts (last chain) chain r st)"
proof -
  obtain st' ok where c: "considerCandidate env opts (last chain) chain rootCertificate r st = (st', ok)" by fastforce
  have v: "verified_all env opts leaf st'" using considerCandidate_verified [OF c] assms(1) by simp
  show ?thesis
  proof (cases ok)
    case True
    then have "verified_chain env opts leaf (chain @ [r])"
      using considerCandidate_step [of env opts chain] c assms(2,3) by (auto simp: verified_chain_def)
    then show ?thesis using c v True by (auto simp: consider_root_def verified_all_def)
  qed (use c v in \<open>simp add: consider_root_def\<close>)
qed

lemma foldl_roots_verified:
  assumes "verified_all env opts leaf st" "path env opts leaf chain"
    and "\<forall>i \<in> set nums. i < length (pool_certs (vo_Roots opts))"
  shows "verified_all env opts leaf
    (foldl (\<lambda>st i. consider_root env opts (last chain) chain (pool_certs (vo_Roots opts) ! i) st) st nums)"
  using assms(1,3)
proof (induction nums arbitrary: st)
  case (Cons i nums)
  then show ?case using consider_root_verified [OF _ assms(2)] by simp
qed simp

lemma finish_build_verified: "verified_all env opts leaf (finish_build st) = verified_all env opts leaf st"
  by (simp add: finish_build_def)

lemma parents_roots:
  "pred_option pool_inv (vo_Roots opts) \<Longrightarrow>
     \<forall>i \<in> set (findPotentialParents (vo_Roots opts) c). i < length (pool_certs (vo_Roots opts))"
  by (cases "vo_Roots opts") (auto simp: findPotentialParents_def [of None] pool_certs_def dest: pool.parents_members)

lemma buildChains_verified:
  "path env opts leaf chain \<Longrightarrow> c = last chain \<Longrightarrow> pred_option pool_inv (vo_Roots opts) \<Longrightarrow>
     (\<And>i chs ch. cache i = Some chs \<Longrightarrow> ch \<in> set chs \<Longrightarrow> verified_chain env opts leaf ch) \<Longrightarrow>
     verified_all env opts leaf (buildChains env opts c chain cache n)"
  "path env opts leaf chain \<Longrightarrow> c = last chain \<Longrightarrow> pred_option pool_inv (vo_Roots opts) \<Longrightarrow>
     verified_all env opts leaf st \<Longrightarrow>
     verified_all env opts leaf (build_intermediates env opts c chain nums st)"
proof (induction env opts c chain cache n and env opts c chain nums st rule: buildChains_build_intermediates.induct)
  case (1 env opts c chain cache n)
  let ?st = "\<lparr>b_chains = [], b_err = None, b_cache = cache, b_sigChecks = n\<rparr>"
  have "verified_all env opts leaf ?st" unfolding verified_all_def using 1(5) by simp
  then have "verified_all env opts leaf
      (foldl (\<lambda>st i. consider_root env opts c chain (pool_certs (vo_Roots opts) ! i) st) ?st
        (findPotentialParents (vo_Roots opts) c))"
    using foldl_roots_verified [OF _ 1(2) parents_roots [OF 1(4)]] 1(3) by simp
  then show ?case
    unfolding buildChains.simps Let_def finish_build_verified using 1(1) [OF refl refl 1(2,3,4)] by blast
next
  case (3 env opts c chain i nums st)
  let ?m = "pool_certs (vo_Intermediates opts) ! i"
  show ?case
  proof (cases "i < length (pool_certs (vo_Intermediates opts))")
    case True
    obtain st' ok where c: "considerCandidate env opts c chain intermediateCertificate ?m st = (st', ok)" by fastforce
    have v: "verified_all env opts leaf st'" using considerCandidate_verified [OF c] 3(9) by simp
    show ?thesis
    proof (cases ok)
      case False
      then show ?thesis using 3(4) [OF True refl c [symmetric] _ 3(6-8) v] True c by simp
    next
      case ok: True
      have "step_ok env opts intermediateCertificate chain ?m"
        using considerCandidate_step [of env opts chain intermediateCertificate ?m st st'] c ok unfolding 3(7) by simp
      then have p: "path env opts leaf (chain @ [?m])" using 3(6) True by (intro path.extend) auto
      show ?thesis
      proof (cases "b_cache st' i")
        case None
        let ?ch = "buildChains env opts ?m (chain @ [?m]) (b_cache st') (b_sigChecks st')"
        let ?st = "\<lparr>b_chains = b_chains st' @ b_chains ?ch, b_err = b_err ?ch,
            b_cache = (b_cache ?ch)(i \<mapsto> b_chains ?ch), b_sigChecks = b_sigChecks ?ch\<rparr>"
        have "verified_all env opts leaf ?ch"
          using 3(1) [OF True refl c [symmetric] _ None p _ 3(8)] ok v unfolding verified_all_def by simp
        then have "verified_all env opts leaf ?st" using v unfolding verified_all_def by (auto split: if_splits)
        then have "verified_all env opts leaf (build_intermediates env opts c chain nums ?st)"
          using 3(2) [OF True refl c [symmetric] _ None refl 3(6-8)] ok by blast
        then show ?thesis using True c ok None by (simp add: Let_def)
      next
        case (Some chs)
        then have "verified_all env opts leaf (st'\<lparr>b_chains := b_chains st' @ chs\<rparr>)"
          using v unfolding verified_all_def by auto
        then show ?thesis using 3(3) [OF True refl c [symmetric] _ Some 3(6-8)] True c ok Some by simp
      qed
    qed
  next
    case False
    then show ?thesis using 3(5) [OF False 3(6-9)] by simp
  qed
qed simp

section \<open>The limit on signature checks\<close>

text \<open>Two environments that agree but for the outcome of signature checks outside \<open>S\<close>.\<close>

definition agree_on ::
    "(Certificate \<times> Certificate) set \<Rightarrow> ('rp, 'ep, 'rand) env \<Rightarrow> ('rp, 'ep, 'rand) env \<Rightarrow> bool" where
  "agree_on S env env' \<longleftrightarrow>
     env_net env' = env_net env \<and> env_ignoreCN env' = env_ignoreCN env \<and> env_now env' = env_now env \<and>
     env_systemRoots env' = env_systemRoots env \<and>
     (\<forall>(c, p) \<in> S. (CheckSignatureFrom (env_ops env') c p = Inr ()) = (CheckSignatureFrom (env_ops env) c p = Inr ()))"

text \<open>
  A result with counter \<open>n'\<close>, reached from counter \<open>n\<close>, that depends on the outcome of the checks that
  were counted between the two only.
\<close>

definition bounded_checks ::
    "nat \<Rightarrow> nat \<Rightarrow> (('rp, 'ep, 'rand) env \<Rightarrow> 'r) \<Rightarrow> ('rp, 'ep, 'rand) env \<Rightarrow> bool" where
  "bounded_checks n n' f env \<longleftrightarrow> n \<le> n' \<and>
     (\<exists>S. finite S \<and> card S \<le> min maxChainSignatureChecks n' - min maxChainSignatureChecks n \<and>
        (\<forall>env'. agree_on S env env' \<longrightarrow> f env' = f env))"

lemma agree_on_Un: "agree_on (S \<union> T) env env' \<longleftrightarrow> agree_on S env env' \<and> agree_on T env env'"
  by (auto simp: agree_on_def)

lemma isValid_agree: "agree_on S env env' \<Longrightarrow> isValid env' opts ty chain m = isValid env opts ty chain m"
proof -
  assume "agree_on S env env'"
  then have eqs: "env_net env' = env_net env" "env_ignoreCN env' = env_ignoreCN env" "env_now env' = env_now env"
    by (simp_all add: agree_on_def)
  show ?thesis unfolding isValid_def check_time_def check_constraints_def eqs ..
qed

lemma bounded_const: "bounded_checks n n (\<lambda>env. r) env"
  by (auto simp: bounded_checks_def intro: exI [of _ "{}"])

lemma bounded_bind:
  assumes "bounded_checks n n' f env" "bounded_checks n' n'' (\<lambda>env'. g env' (f env)) env"
  shows "bounded_checks n n'' (\<lambda>env'. g env' (f env')) env"
proof -
  obtain S where S: "n \<le> n'" "finite S" "card S \<le> min maxChainSignatureChecks n' - min maxChainSignatureChecks n"
    "\<And>env'. agree_on S env env' \<Longrightarrow> f env' = f env" using assms(1) unfolding bounded_checks_def by blast
  obtain T where T: "n' \<le> n''" "finite T" "card T \<le> min maxChainSignatureChecks n'' - min maxChainSignatureChecks n'"
    "\<And>env'. agree_on T env env' \<Longrightarrow> g env' (f env) = g env (f env)" using assms(2) unfolding bounded_checks_def by blast
  have "card (S \<union> T) \<le> card S + card T" by (rule card_Un_le)
  also have "\<dots> \<le> min maxChainSignatureChecks n'' - min maxChainSignatureChecks n"
    using S(1,3) T(1,3) by (simp add: min_def split: if_splits)
  finally show ?thesis
    unfolding bounded_checks_def using S(1,2,4) T(1,2,4)
    by (intro conjI exI [of _ "S \<union> T"]) (auto simp: agree_on_Un)
qed

lemma bounded_considerCandidate:
  "bounded_checks (b_sigChecks st) (b_sigChecks (fst (considerCandidate env opts c chain ty m st)))
     (\<lambda>env. considerCandidate env opts c chain ty m st) env"
proof (cases "list_ex (\<lambda>cert. Certificate_Equal cert m) chain \<or> maxChainSignatureChecks < Suc (b_sigChecks st)")
  case True
  then have e: "considerCandidate env' opts c chain ty m st = considerCandidate env opts c chain ty m st" for env'
    by (auto simp: considerCandidate_def Let_def)
  have "b_sigChecks st \<le> b_sigChecks (fst (considerCandidate env opts c chain ty m st))"
    by (simp add: considerCandidate_def Let_def split: sum.splits)
  then show ?thesis unfolding bounded_checks_def
    by (intro conjI exI [of _ "{}"] allI impI) (simp, simp, simp, rule e)
next
  case False
  have n: "b_sigChecks (fst (considerCandidate env opts c chain ty m st)) = Suc (b_sigChecks st)"
    using False by (auto simp: considerCandidate_def Let_def split: sum.splits)
  have "considerCandidate env' opts c chain ty m st = considerCandidate env opts c chain ty m st"
    if "agree_on {(c, m)} env env'" for env'
    using that isValid_agree [OF that] by (simp add: considerCandidate_def Let_def agree_on_def)
  then show ?thesis
    unfolding bounded_checks_def n using False by (intro conjI exI [of _ "{(c, m)}"]) auto
qed

lemma bounded_consider_root:
  "bounded_checks (b_sigChecks st) (b_sigChecks (consider_root env opts c chain m st))
     (\<lambda>env. consider_root env opts c chain m st) env"
proof -
  have s: "b_sigChecks (consider_root env opts c chain m st)
      = b_sigChecks (fst (considerCandidate env opts c chain rootCertificate m st))"
    by (simp add: consider_root_def split: prod.splits bool.splits)
  show ?thesis
    unfolding s unfolding consider_root_def by (rule bounded_bind [OF bounded_considerCandidate bounded_const])
qed

lemma bounded_roots:
  "bounded_checks (b_sigChecks st)
     (b_sigChecks (foldl (\<lambda>st i. consider_root env opts c chain (rs ! i) st) st nums))
     (\<lambda>env. foldl (\<lambda>st i. consider_root env opts c chain (rs ! i) st) st nums) env"
proof (induction nums arbitrary: st)
  case Nil
  then show ?case by (simp add: bounded_const)
next
  case (Cons i nums)
  have "bounded_checks (b_sigChecks st)
      (b_sigChecks (foldl (\<lambda>st i. consider_root env opts c chain (rs ! i) st) (consider_root env opts c chain (rs ! i) st) nums))
      (\<lambda>env. foldl (\<lambda>st i. consider_root env opts c chain (rs ! i) st) (consider_root env opts c chain (rs ! i) st) nums) env"
    by (rule bounded_bind [where g = "\<lambda>env st. foldl (\<lambda>st i. consider_root env opts c chain (rs ! i) st) st nums",
          OF bounded_consider_root [of st env opts c chain "rs ! i"] Cons.IH])
  then show ?case by simp
qed

lemma finish_build_sigChecks [simp]: "b_sigChecks (finish_build st) = b_sigChecks st"
  by (simp add: finish_build_def)

lemma buildChains_bounded:
  fixes env :: "('rp, 'ep, 'rand) env"
  shows "bounded_checks n (b_sigChecks (buildChains env opts c chain cache n))
     (\<lambda>env. buildChains env opts c chain cache n) env"
  "bounded_checks (b_sigChecks st) (b_sigChecks (build_intermediates env opts c chain nums st))
     (\<lambda>env. build_intermediates env opts c chain nums st) env"
proof (induction env opts c chain cache n and env opts c chain nums st rule: buildChains_build_intermediates.induct)
  case (1 env opts c chain cache n)
  let ?st = "\<lparr>b_chains = [], b_err = None, b_cache = cache, b_sigChecks = n\<rparr>"
  let ?roots = "\<lambda>env. foldl (\<lambda>st i. consider_root env opts c chain (pool_certs (vo_Roots opts) ! i) st) ?st
        (findPotentialParents (vo_Roots opts) c)"
  let ?ints = "findPotentialParents (vo_Intermediates opts) c"
  have "bounded_checks n (b_sigChecks (?roots env)) ?roots env" using bounded_roots [of ?st] by simp
  then have "bounded_checks n (b_sigChecks (build_intermediates env opts c chain ?ints (?roots env)))
      (\<lambda>env. build_intermediates env opts c chain ?ints (?roots env)) env"
    by (rule bounded_bind [where g = "\<lambda>env st. build_intermediates env opts c chain ?ints st"]) (rule 1 [OF refl refl])
  then show ?case
    using bounded_bind [where g = "\<lambda>env st. finish_build st", OF _ bounded_const]
    unfolding buildChains.simps Let_def finish_build_sigChecks by blast
next
  case (2 env opts c chain st)
  then show ?case by (simp add: bounded_const)
next
  case (3 env opts c chain i nums st)
  let ?m = "pool_certs (vo_Intermediates opts) ! i"
  show ?case
  proof (cases "i < length (pool_certs (vo_Intermediates opts))")
    case False
    then show ?thesis using 3(5) by simp
  next
    case True
    obtain st' ok where c: "considerCandidate env opts c chain intermediateCertificate ?m st = (st', ok)" by fastforce
    define rest where "rest = (\<lambda>(env :: ('rp, 'ep, 'rand) env) (st', ok).
       case ok of
         False \<Rightarrow> build_intermediates env opts c chain nums st'
       | True \<Rightarrow>
           (case b_cache st' i of
              Some childChains \<Rightarrow>
                build_intermediates env opts c chain nums (st'\<lparr>b_chains := b_chains st' @ childChains\<rparr>)
            | None \<Rightarrow>
                let child = buildChains env opts ?m (chain @ [?m]) (b_cache st') (b_sigChecks st')
                in build_intermediates env opts c chain nums
                     \<lparr>b_chains = b_chains st' @ b_chains child, b_err = b_err child,
                      b_cache = (b_cache child)(i \<mapsto> b_chains child), b_sigChecks = b_sigChecks child\<rparr>))"
    have e: "build_intermediates env' opts c chain (i # nums) st
        = rest env' (considerCandidate env' opts c chain intermediateCertificate ?m st)" for env'
      using True by (simp add: rest_def Let_def split: prod.splits bool.splits option.splits)
    have "bounded_checks (b_sigChecks st') (b_sigChecks (rest env (st', ok))) (\<lambda>env. rest env (st', ok)) env"
    proof (cases ok)
      case False
      then show ?thesis using 3(4) [OF True refl c [symmetric]] by (simp add: rest_def)
    next
      case ok: True
      show ?thesis
      proof (cases "b_cache st' i")
        case (Some chs)
        then show ?thesis using 3(3) [OF True refl c [symmetric] _ Some] ok by (simp add: rest_def)
      next
        case None
        let ?ch = "\<lambda>env. buildChains env opts ?m (chain @ [?m]) (b_cache st') (b_sigChecks st')"
        let ?st = "\<lambda>child. \<lparr>b_chains = b_chains st' @ b_chains child, b_err = b_err child,
            b_cache = (b_cache child)(i \<mapsto> b_chains child), b_sigChecks = b_sigChecks child\<rparr>"
        have "bounded_checks (b_sigChecks st') (b_sigChecks (?ch env)) ?ch env"
          using 3(1) [OF True refl c [symmetric] _ None] ok by blast
        moreover have "bounded_checks (b_sigChecks (?ch env))
            (b_sigChecks (build_intermediates env opts c chain nums (?st (?ch env))))
            (\<lambda>env'. build_intermediates env' opts c chain nums (?st (?ch env))) env"
          using 3(2) [OF True refl c [symmetric] _ None refl] ok by simp
        ultimately have "bounded_checks (b_sigChecks st')
            (b_sigChecks (build_intermediates env opts c chain nums (?st (?ch env))))
            (\<lambda>env. build_intermediates env opts c chain nums (?st (?ch env))) env"
          by (rule bounded_bind [where g = "\<lambda>env child. build_intermediates env opts c chain nums (?st child)"])
        then show ?thesis using ok None by (simp add: rest_def Let_def)
      qed
    qed
    then show ?thesis
      unfolding e using bounded_bind [where g = rest, OF bounded_considerCandidate [of st env opts c chain intermediateCertificate ?m]] c
      by simp
  qed
qed

end
