(* ===== verification/X509_Chains.thy ===== *)
theory X509_Chains
  imports X509_Verify
begin

text \<open>
  What \<^verbatim>\<open>Verify\<close> of \<^verbatim>\<open>src/x509/verify.go\<close> guarantees: soundness of the chains it returns, name constraints along
  a chain, nesting of key usages, the bound on signature checks, and a concrete infrastructure
  on which the cache of \<^verbatim>\<open>buildChains\<close> loses a chain.
\<close>

section \<open>Lemmas on key usages\<close>

text \<open>A certificate allows a usage when it has no list of usages, allows any, or lists it.\<close>

definition permits_usage :: "Certificate \<Rightarrow> int \<Rightarrow> bool" where
  "permits_usage cert u \<longleftrightarrow>
     ExtKeyUsage cert = [] \<and> UnknownExtKeyUsage cert = [] \<or> ExtKeyUsageAny \<in> set (ExtKeyUsage cert) \<or> usage_allowed cert u"

definition live :: "int list \<Rightarrow> int list" where
  "live us = filter (\<lambda>u. u \<noteq> invalidUsage) us"

lemma cross_out_eq:
  assumes "int (length (filter (\<lambda>u. u \<noteq> invalidUsage \<and> \<not> usage_allowed cert u) us)) \<le> r"
  shows "cross_out cert us r =
    (let bad = filter (\<lambda>u. u \<noteq> invalidUsage \<and> \<not> usage_allowed cert u) us
     in if bad \<noteq> [] \<and> int (length bad) = r then None
        else Some (map (\<lambda>u. if usage_allowed cert u then u else invalidUsage) us, r - int (length bad)))"
  using assms by (induction us arbitrary: r) (auto simp: Let_def split: if_splits)

lemma live_crossed:
  "live (map (\<lambda>u. if usage_allowed cert u then u else invalidUsage) us) = filter (usage_allowed cert) (live us)"
  by (induction us) (auto simp: live_def)

lemma length_live:
  "length (live us) = length (filter (\<lambda>u. u \<noteq> invalidUsage \<and> \<not> usage_allowed cert u) us)
     + length (filter (usage_allowed cert) (live us))"
  by (induction us) (auto simp: live_def)

lemma walk_usages_iff:
  "walk_usages cs us (int (k + length (live us))) \<longleftrightarrow>
     k > 0 \<or> live us = [] \<or> (\<exists>u \<in> set (live us). \<forall>c \<in> set cs. permits_usage c u)"
proof (induction cs arbitrary: us)
  case Nil
  then show ?case by (cases "live us") auto
next
  case (Cons c cs)
  show ?case
  proof (cases "ExtKeyUsage c = [] \<and> UnknownExtKeyUsage c = [] \<or> ExtKeyUsageAny \<in> set (ExtKeyUsage c)")
    case True
    then have "permits_usage c u" for u by (auto simp: permits_usage_def)
    then show ?thesis using Cons [of us] True by auto
  next
    case False
    then have p: "permits_usage c u \<longleftrightarrow> usage_allowed c u" for u by (auto simp: permits_usage_def)
    let ?bad = "filter (\<lambda>u. u \<noteq> invalidUsage \<and> \<not> usage_allowed c u) us"
    let ?us = "map (\<lambda>u. if usage_allowed c u then u else invalidUsage) us"
    have r: "int (k + length (live us)) - int (length ?bad) = int (k + length (live ?us))"
      using length_live [of us c] by (simp add: live_crossed)
    have b: "int (length ?bad) \<le> int (k + length (live us))" using length_live [of us c] by simp
    have "cross_out c us (int (k + length (live us))) =
        (if ?bad \<noteq> [] \<and> length ?bad = k + length (live us) then None else Some (?us, int (k + length (live ?us))))"
      using cross_out_eq [OF b] by (simp only: Let_def r of_nat_eq_iff)
    then have "walk_usages (c # cs) us (int (k + length (live us))) \<longleftrightarrow>
        \<not> (?bad \<noteq> [] \<and> length ?bad = k + length (live us)) \<and> walk_usages cs ?us (int (k + length (live ?us)))"
      using False by auto
    also have "?bad \<noteq> [] \<and> length ?bad = k + length (live us) \<longleftrightarrow> k = 0 \<and> live us \<noteq> [] \<and> live ?us = []"
      using length_live [of us c] unfolding live_crossed length_0_conv [symmetric] by linarith
    finally show ?thesis unfolding Cons using p by (auto simp: live_crossed filter_empty_conv)
  qed
qed

section \<open>Lemmas on name constraints\<close>

text \<open>The names of a subject alternative name extension, as the loop visits them.\<close>

definition san_names :: "bytes \<Rightarrow> (int \<times> bytes) list option" where
  "san_names extension =
     (case forEachSAN extension (\<lambda>tag data acc. Inr (acc @ [(tag, data)]) :: unit + _) [] of
        Inl _ \<Rightarrow> None | Inr names \<Rightarrow> Some names)"

text \<open>No excluded range matches the name, and some permitted one does unless there is none.\<close>

definition constraints_hold :: "('c \<Rightarrow> name_err + bool) \<Rightarrow> 'c list \<Rightarrow> 'c list \<Rightarrow> bool" where
  "constraints_hold match permitted excluded \<longleftrightarrow>
     (\<forall>e \<in> set excluded. match e = Inr False) \<and> (permitted = [] \<or> (\<exists>p \<in> set permitted. match p = Inr True))"

lemma check_excluded_ok: "check_excluded match cs = Inr u \<Longrightarrow> \<forall>c \<in> set cs. match c = Inr False"
  by (induction cs) (auto split: sum.splits if_splits)

lemma check_permitted_ok:
  "check_permitted match ok cs = Inr True \<Longrightarrow> ok \<and> cs = [] \<or> (\<exists>c \<in> set cs. match c = Inr True)"
  by (induction cs arbitrary: ok) (auto split: sum.splits if_splits)

lemma checkNameConstraints_ok:
  "checkNameConstraints n mx match permitted excluded = Inr n' \<Longrightarrow>
     constraints_hold match permitted excluded \<and> n' = n + length excluded + length permitted \<and> int n' \<le> mx"
  by (auto simp: checkNameConstraints_def Let_def constraints_hold_def result_simps split: if_splits
      dest: check_excluded_ok check_permitted_ok)

text \<open>One name of the leaf obeys the constraints of \<open>c\<close>.\<close>

definition name_allowed :: "net_ops \<Rightarrow> Certificate \<Rightarrow> int \<times> bytes \<Rightarrow> bool" where
  "name_allowed net c nm =
     (let tag = fst nm; data = snd nm; name = bytes_string data
      in if tag = nameTypeEmail then
           (\<exists>mb. parseRFC2821Mailbox name = Some mb \<and>
              constraints_hold (matchEmailConstraint mb) (PermittedEmailAddresses c) (ExcludedEmailAddresses c))
         else if tag = nameTypeDNS then
           domainToReverseLabels name \<noteq> None \<and>
           constraints_hold (matchDomainConstraint name) (PermittedDNSDomains c) (ExcludedDNSDomains c)
         else if tag = nameTypeURI then
           (\<exists>host. url_ParseHost net name = Some host \<and>
              constraints_hold (matchURIConstraint net host) (PermittedURIDomains c) (ExcludedURIDomains c))
         else if tag = nameTypeIP then
           (length data = 4 \<or> length data = 16) \<and>
           constraints_hold (matchIPConstraint data) (PermittedIPRanges c) (ExcludedIPRanges c)
         else True)"

lemma check_san_ok: "check_san net c mx tag data n = Inr n' \<Longrightarrow> name_allowed net c (tag, data)"
  by (auto simp: check_san_def name_allowed_def Let_def split: if_splits option.splits sum.splits
      dest: checkNameConstraints_ok)

lemma san_loop_names:
  fixes acc :: "(int \<times> bytes) list"
  assumes "san_loop callback rest st = Inr st'"
    and "\<forall>tag data s s'. callback tag data s = Inr s' \<longrightarrow> P (tag, data)"
  shows "\<exists>names. san_loop (\<lambda>tag data acc. Inr (acc @ [(tag, data)]) :: unit + _) rest acc = Inr (acc @ names) \<and>
    (\<forall>nm \<in> set names. P nm)"
  using assms
proof (induction callback rest st arbitrary: acc rule: san_loop.induct)
  case (1 callback rest st)
  let ?rec = "\<lambda>tag data acc. Inr (acc @ [(tag, data)]) :: unit + (int \<times> bytes) list"
  show ?case
  proof (cases "rest = []")
    case True
    then show ?thesis by (simp add: san_loop.simps [of ?rec])
  next
    case False
    obtain v rest' where u: "unmarshal_raw rest = Inr (v, rest')"
      using 1(2) False by (subst (asm) san_loop.simps) (auto split: sum.splits)
    obtain st1 where c: "callback (rv_Tag v) (rv_Bytes v) st = Inr st1" and l: "san_loop callback rest' st1 = Inr st'"
      using 1(2) False u by (subst (asm) san_loop.simps) (auto split: sum.splits)
    obtain names where n: "san_loop ?rec rest' (acc @ [(rv_Tag v, rv_Bytes v)]) = Inr (acc @ (rv_Tag v, rv_Bytes v) # names)"
        "\<forall>nm \<in> set names. P nm"
      using 1(1) [OF False u refl c l 1(3), where acc = "acc @ [(rv_Tag v, rv_Bytes v)]"] by auto
    moreover have "P (rv_Tag v, rv_Bytes v)" using 1(3) c by blast
    moreover have "san_loop ?rec rest acc = san_loop ?rec rest' (acc @ [(rv_Tag v, rv_Bytes v)])"
      using False u by (simp add: san_loop.simps [of ?rec rest])
    ultimately show ?thesis by (intro exI [of _ "(rv_Tag v, rv_Bytes v) # names"]) simp
  qed
qed

lemma forEachSAN_names:
  assumes "forEachSAN extension callback st = Inr st'"
    and "\<forall>tag data s s'. callback tag data s = Inr s' \<longrightarrow> P (tag, data)"
  shows "\<exists>names. san_names extension = Some names \<and> (\<forall>nm \<in> set names. P nm)"
proof -
  obtain seq where u: "unmarshal_raw extension = Inr (seq, [])"
    "rv_IsCompound seq" "rv_Tag seq = TagSequence" "rv_Class seq = ClassUniversal"
    "san_loop callback (rv_Bytes seq) st = Inr st'"
    using assms(1) by (auto simp: forEachSAN_def split: sum.splits if_splits)
  show ?thesis using san_loop_names [OF u(5) assms(2), of "[]"] u(1-4) by (auto simp: san_names_def forEachSAN_def)
qed

lemma isValid_names:
  assumes "isValid env opts ty chain c = Inr ()" "ty \<noteq> leafCertificate"
    and "\<not> vo_DisableNameConstraintChecks opts" "hasNameConstraints c"
  shows "chain \<noteq> [] \<and> \<not> commonNameAsHostname (env_ignoreCN env) (hd chain) \<and>
    (hasSANExtension (hd chain) \<longrightarrow>
       (\<exists>names. san_names (getSANExtension (hd chain)) = Some names \<and> (\<forall>nm \<in> set names. name_allowed (env_net env) c nm)))"
proof -
  have "check_constraints env opts ty chain c = Inr ()"
    using assms(1) by (auto simp: isValid_def result_simps split: if_splits)
  moreover have "\<exists>names. san_names ext = Some names \<and> (\<forall>nm \<in> set names. name_allowed net c nm)"
    if "forEachSAN ext (check_san net c mx) n = Inr n'" for ext net mx n n'
    using forEachSAN_names [OF that, of "name_allowed net c"] check_san_ok by blast
  ultimately show ?thesis
    using assms(2-4) by (auto simp: check_constraints_def Let_def split: if_splits sum.splits)
qed

section \<open>Lemmas on Verify\<close>

text \<open>The options with the roots that \<^verbatim>\<open>Verify\<close> uses, and the usages it asks for.\<close>

definition with_roots :: "('rp, 'ep, 'rand) env \<Rightarrow> VerifyOptions \<Rightarrow> VerifyOptions" where
  "with_roots env opts = opts\<lparr>vo_Roots := (case vo_Roots opts of None \<Rightarrow> env_systemRoots env | Some p \<Rightarrow> Some p)\<rparr>"

definition wanted_usages :: "VerifyOptions \<Rightarrow> int list" where
  "wanted_usages opts = (if vo_KeyUsages opts = [] then [ExtKeyUsageServerAuth] else vo_KeyUsages opts)"

definition accepted_chain ::
    "('rp, 'ep, 'rand) env \<Rightarrow> VerifyOptions \<Rightarrow> Certificate \<Rightarrow> Certificate list \<Rightarrow> bool" where
  "accepted_chain env opts c ch \<longleftrightarrow>
     (ch = [c] \<and> contains_cert (vo_Roots opts) c \<or> verified_chain env opts c ch) \<and>
     (ExtKeyUsageAny \<in> set (wanted_usages opts) \<or> vo_DisableEKUChecks opts \<or> checkChainForKeyUsage ch (wanted_usages opts))"

lemma Verify_candidates:
  assumes "pred_option pool_inv (vo_Roots opts)" "b_err (buildChains env opts c [c] Map.empty 0) = None"
  shows "b_chains (buildChains env opts c [c] Map.empty 0) \<noteq> [] \<and>
    (\<forall>ch \<in> set (b_chains (buildChains env opts c [c] Map.empty 0)). verified_chain env opts c ch)"
proof -
  have "verified_all env opts c (buildChains env opts c [c] Map.empty 0)"
    by (rule buildChains_verified(1) [OF path.start _ assms(1)]) auto
  moreover have "b_chains (buildChains env opts c [c] Map.empty 0) \<noteq> []"
    using assms(2) by (auto simp: buildChains.simps finish_build_def Let_def split: if_splits)
  ultimately show ?thesis by (auto simp: verified_all_def)
qed

text \<open>What \<^verbatim>\<open>Verify\<close> does after it found its candidates.\<close>

lemma Verify_cases:
  assumes "Verify env opts c = Inr chs"
  obtains candidates where
    "vo_Roots (with_roots env opts) \<noteq> None"
    "isValid env (with_roots env opts) leafCertificate [] c = Inr ()"
    "vo_DNSName opts \<noteq> [] \<Longrightarrow> VerifyHostname (env_net env) (env_ignoreCN env) c (vo_DNSName opts) = Inr ()"
    "contains_cert (vo_Roots (with_roots env opts)) c \<and> candidates = [[c]] \<or>
     b_err (buildChains env (with_roots env opts) c [c] Map.empty 0) = None \<and>
       candidates = b_chains (buildChains env (with_roots env opts) c [c] Map.empty 0)"
    "ExtKeyUsageAny \<in> set (wanted_usages opts) \<and> chs = candidates \<or>
     chs = filter (\<lambda>ch. vo_DisableEKUChecks opts \<or> checkChainForKeyUsage ch (wanted_usages opts)) candidates \<and> chs \<noteq> []"
proof -
  let ?roots = "case vo_Roots opts of None \<Rightarrow> env_systemRoots env | Some p \<Rightarrow> Some p"
  obtain r where r: "?roots = Some r"
    using assms unfolding Verify_def by (cases ?roots) (auto split: if_splits)
  have w: "opts\<lparr>vo_Roots := Some r\<rparr> = with_roots env opts" by (simp only: with_roots_def r)
  have u: "vo_DNSName (with_roots env opts) = vo_DNSName opts" "vo_KeyUsages (with_roots env opts) = vo_KeyUsages opts"
    "vo_DisableEKUChecks (with_roots env opts) = vo_DisableEKUChecks opts" "vo_Roots (with_roots env opts) = Some r"
    by (simp_all add: with_roots_def r)
  have g: "(Raw c = []) = False" "list_ex (\<lambda>m. Raw m = []) (pool_certs (vo_Intermediates opts)) = False"
    using assms unfolding Verify_def by (auto split: if_splits)
  have v: "bind_res (isValid env (with_roots env opts) leafCertificate [] c) (\<lambda>_.
     bind_res
       (if vo_DNSName opts \<noteq> [] then
          (case VerifyHostname (env_net env) (env_ignoreCN env) c (vo_DNSName opts) of
             Inl h \<Rightarrow> Inl (HostnameMismatch h)
           | Inr _ \<Rightarrow> Inr ())
        else Inr ()) (\<lambda>_.
     bind_res
       (if contains_cert (Some r) c then Inr [[c]]
        else
          let r = buildChains env (with_roots env opts) c [c] Map.empty 0
          in case b_err r of Some e \<Rightarrow> Inl e | None \<Rightarrow> Inr (b_chains r)) (\<lambda>candidates.
       if ExtKeyUsageAny \<in> set (wanted_usages opts) then Inr candidates
       else
         let chs = filter (\<lambda>ch. vo_DisableEKUChecks opts \<or> checkChainForKeyUsage ch (wanted_usages opts)) candidates
         in if chs = [] then Inl (CertificateInvalid IncompatibleUsage) else Inr chs))) = Inr chs"
    using assms by (simp only: Verify_def g r option.case Let_def w u wanted_usages_def if_False)
  obtain candidates where
    i: "isValid env (with_roots env opts) leafCertificate [] c = Inr ()" and
    h: "vo_DNSName opts \<noteq> [] \<Longrightarrow> VerifyHostname (env_net env) (env_ignoreCN env) c (vo_DNSName opts) = Inr ()" and
    b: "(if contains_cert (Some r) c then Inr [[c]]
        else
          let r = buildChains env (with_roots env opts) c [c] Map.empty 0
          in case b_err r of Some e \<Rightarrow> Inl e | None \<Rightarrow> Inr (b_chains r)) = Inr candidates" and
    k: "(if ExtKeyUsageAny \<in> set (wanted_usages opts) then Inr candidates
       else
         let chs = filter (\<lambda>ch. vo_DisableEKUChecks opts \<or> checkChainForKeyUsage ch (wanted_usages opts)) candidates
         in if chs = [] then Inl (CertificateInvalid IncompatibleUsage) else Inr chs) = Inr chs"
    using v unfolding bind_res_Inr by (auto split: if_splits sum.splits)
  show thesis
  proof (rule that)
    show "contains_cert (vo_Roots (with_roots env opts)) c \<and> candidates = [[c]] \<or>
       b_err (buildChains env (with_roots env opts) c [c] Map.empty 0) = None \<and>
         candidates = b_chains (buildChains env (with_roots env opts) c [c] Map.empty 0)"
      using b by (auto simp: u Let_def split: if_splits option.splits)
    show "ExtKeyUsageAny \<in> set (wanted_usages opts) \<and> chs = candidates \<or>
       chs = filter (\<lambda>ch. vo_DisableEKUChecks opts \<or> checkChainForKeyUsage ch (wanted_usages opts)) candidates \<and> chs \<noteq> []"
      using k by (auto simp: Let_def split: if_splits)
  qed (use i h u in auto)
qed


lemma with_roots_simps [simp]:
  "vo_Intermediates (with_roots env opts) = vo_Intermediates opts"
  "vo_DisableNameConstraintChecks (with_roots env opts) = vo_DisableNameConstraintChecks opts"
  "wanted_usages (with_roots env opts) = wanted_usages opts"
  "vo_DisableEKUChecks (with_roots env opts) = vo_DisableEKUChecks opts"
  by (simp_all add: with_roots_def wanted_usages_def)

lemma verified_chain_shape:
  assumes "verified_chain env opts leaf ch"
  shows "hd ch = leaf \<and> distinct (map Raw ch)"
proof -
  obtain p r where c: "ch = p @ [r]" "path env opts leaf p" "step_ok env opts rootCertificate p r"
    using assms unfolding verified_chain_def by blast
  then show ?thesis
    using path_hd [OF c(2)] path_distinct [OF c(2)] by (auto simp: step_ok_def list_ex_iff Certificate_Equal_def)
qed

text \<open>The names of the leaf obey the constraints of a certificate.\<close>

definition leaf_names_ok :: "('rp, 'ep, 'rand) env \<Rightarrow> Certificate \<Rightarrow> Certificate \<Rightarrow> bool" where
  "leaf_names_ok env leaf m \<longleftrightarrow>
     \<not> commonNameAsHostname (env_ignoreCN env) leaf \<and>
     (hasSANExtension leaf \<longrightarrow>
       (case san_names (getSANExtension leaf) of
          None \<Rightarrow> False
        | Some names \<Rightarrow> list_all (name_allowed (env_net env) m) names))"

lemma step_names:
  assumes "step_ok env opts ty chain m" "ty \<noteq> leafCertificate" "hd chain = leaf"
    and "\<not> vo_DisableNameConstraintChecks opts" "hasNameConstraints m"
  shows "leaf_names_ok env leaf m"
  using isValid_names [of env opts ty chain m] assms by (auto simp: step_ok_def leaf_names_ok_def list_all_iff)

lemma path_names:
  assumes "path env opts leaf p" "\<not> vo_DisableNameConstraintChecks opts"
  shows "\<forall>m \<in> set (tl p). hasNameConstraints m \<longrightarrow> leaf_names_ok env leaf m"
  using assms(1)
proof (induction rule: path.induct)
  case (extend chain m)
  then show ?case
    using path_hd [OF extend(1)] step_names [OF extend(3) _ _ assms(2)] by (cases chain) auto
qed simp

lemma verified_chain_names:
  assumes "verified_chain env opts leaf ch" "\<not> vo_DisableNameConstraintChecks opts" "m \<in> set (tl ch)" "hasNameConstraints m"
  shows "leaf_names_ok env leaf m"
proof -
  obtain p r where c: "ch = p @ [r]" "path env opts leaf p" "step_ok env opts rootCertificate p r"
    using assms(1) unfolding verified_chain_def by blast
  then show ?thesis
    using path_hd [OF c(2)] path_names [OF c(2) assms(2)] step_names [OF c(3) _ _ assms(2)] assms(3,4) by (cases p) auto
qed

lemma Verify_chains:
  assumes "Verify env opts c = Inr chs" "pred_option pool_inv (vo_Roots (with_roots env opts))"
  shows "chs \<noteq> [] \<and> (\<forall>ch \<in> set chs. accepted_chain env (with_roots env opts) c ch)"
proof -
  let ?b = "buildChains env (with_roots env opts) c [c] Map.empty 0"
  obtain cand where v:
    "contains_cert (vo_Roots (with_roots env opts)) c \<and> cand = [[c]] \<or> b_err ?b = None \<and> cand = b_chains ?b"
    "ExtKeyUsageAny \<in> set (wanted_usages opts) \<and> chs = cand \<or>
     chs = filter (\<lambda>ch. vo_DisableEKUChecks opts \<or> checkChainForKeyUsage ch (wanted_usages opts)) cand \<and> chs \<noteq> []"
    using Verify_cases [OF assms(1)] by metis
  have "cand \<noteq> [] \<and> (\<forall>ch \<in> set cand. ch = [c] \<and> contains_cert (vo_Roots (with_roots env opts)) c
      \<or> verified_chain env (with_roots env opts) c ch)"
    using v(1) Verify_candidates [OF assms(2)] by auto
  then show ?thesis using v(2) by (auto simp: accepted_chain_def)
qed

lemma agree_on_env:
  assumes "agree_on S env env'"
  shows "env_net env' = env_net env" "env_ignoreCN env' = env_ignoreCN env" "env_systemRoots env' = env_systemRoots env"
  using assms by (simp_all add: agree_on_def)

lemma Verify_depends:
  assumes "agree_on S env env'"
    and "\<And>opts. isValid env' opts leafCertificate [] c = isValid env opts leafCertificate [] c"
    and "buildChains env' (with_roots env opts) c [c] Map.empty 0 = buildChains env (with_roots env opts) c [c] Map.empty 0"
  shows "Verify env' opts c = Verify env opts c"
proof (cases "case vo_Roots opts of None \<Rightarrow> env_systemRoots env | Some p \<Rightarrow> Some p")
  case None
  then show ?thesis by (simp only: Verify_def agree_on_env [OF assms(1)] option.case)
next
  case (Some r)
  then have "with_roots env opts = opts\<lparr>vo_Roots := Some r\<rparr>" by (simp add: with_roots_def)
  then show ?thesis using Some assms(3)
    by (simp only: Verify_def agree_on_env [OF assms(1)] option.case Let_def assms(2))
qed

section \<open>A small public key infrastructure\<close>

text \<open>
  For the concrete statements: signatures are Ed25519, verified when the signature repeats the key of
  the signer; the key of a certificate is its subject.
\<close>

definition toy_ops :: "(unit, unit, unit) x509_ops" where
  "toy_ops = \<lparr>hash_sum = (\<lambda>_ b. b), rsa_verify = (\<lambda>_ _ _ _. False), dsa_verify = (\<lambda>_ _ _ _. False),
     ecdsa_verify = (\<lambda>_ _ _ _. False), rsa_sign = (\<lambda>_ _ _ _. None), ecdsa_sign = (\<lambda>_ _ _. None),
     dsaSig_unmarshal = (\<lambda>_. None), dsaSig_marshal = (\<lambda>_. None), rsa_verify_pss = (\<lambda>_ _ _ _. False),
     ed25519_verify = (\<lambda>pub _ sig. sig = pub), hash_available = (\<lambda>_. False)\<rparr>"

definition toy_env :: "(unit, unit, unit) env" where
  "toy_env = \<lparr>env_net = \<lparr>net_ParseIP = (\<lambda>_. None), net_SplitHostPort = (\<lambda>_. None), url_ParseHost = (\<lambda>_. None)\<rparr>,
     env_ignoreCN = False, env_now = 5, env_ops = toy_ops, env_systemRoots = None\<rparr>"

definition toy_cert :: "byte \<Rightarrow> byte \<Rightarrow> byte \<Rightarrow> Certificate" where
  "toy_cert raw subject issuer = zero_Certificate\<lparr>Raw := [raw], RawTBSCertificate := [raw], RawSubject := [subject],
     RawIssuer := [issuer], CertSignature := [issuer], SignatureAlgorithm := 16, PublicKeyAlgorithm := 4,
     CertPublicKey := PubEd25519 [subject], CertVersion := 3, NotBefore := 0, NotAfter := 10,
     BasicConstraintsValid := True, IsCA := True, MaxPathLen := -1\<rparr>"

definition toy_opts :: "CertPool option \<Rightarrow> CertPool option \<Rightarrow> VerifyOptions" where
  "toy_opts inters roots = \<lparr>vo_DNSName = [], vo_Intermediates = inters, vo_Roots = roots, vo_CurrentTime = zero_time,
     vo_DisableTimeChecks = False, vo_DisableCriticalExtensionChecks = False, vo_DisableNameChecks = False,
     vo_DisableEKUChecks = False, vo_DisablePathLenChecks = False, vo_DisableNameConstraintChecks = False,
     vo_KeyUsages = [], vo_MaxConstraintComparisions = 0\<rparr>"

text \<open>Two cross-certificates \<open>crossA\<close> and \<open>crossB\<close> for the issuer of \<open>toy_leaf\<close>; the first is for clients only (usage 2).\<close>

definition toy_leaf :: Certificate where "toy_leaf = toy_cert 1 10 20"
definition crossA :: Certificate where "crossA = (toy_cert 2 20 30)\<lparr>ExtKeyUsage := [2]\<rparr>"
definition crossB :: Certificate where "crossB = toy_cert 3 20 30"
definition toy_inter :: Certificate where "toy_inter = toy_cert 4 30 40"
definition toy_root :: Certificate where "toy_root = toy_cert 5 40 40"

definition cross_opts :: VerifyOptions where
  "cross_opts = toy_opts (Some (foldl AddCert NewCertPool [crossA, crossB, toy_inter]))
     (Some (foldl AddCert NewCertPool [toy_root]))"

definition direct_opts :: VerifyOptions where
  "direct_opts = toy_opts (Some NewCertPool) (Some (foldl AddCert NewCertPool [toy_cert 6 20 20]))"

text \<open>A root that permits the domain \<^verbatim>\<open>b\<close> only, and a leaf with the name \<^verbatim>\<open>a.b\<close>.\<close>

definition named_root :: Certificate where
  "named_root = (toy_cert 7 20 20)\<lparr>PermittedDNSDomains := [''b''],
     Extensions := [\<lparr>ext_Id = OIDExtensionNameConstraints, ext_Critical = True, ext_Value = []\<rparr>]\<rparr>"

definition named_leaf :: Certificate where
  "named_leaf = toy_leaf\<lparr>DNSNames := [''a.b''],
     Extensions := [\<lparr>ext_Id = OIDExtensionSubjectAltName, ext_Critical = False,
       ext_Value = [0x30, 5, 0x82, 3, 97, 46, 98]\<rparr>]\<rparr>"

definition named_opts :: VerifyOptions where
  "named_opts = toy_opts None (Some (foldl AddCert NewCertPool [named_root]))"

lemma toy_pools: "pred_option pool_inv (vo_Roots (with_roots toy_env (toy_opts inters (Some (foldl AddCert NewCertPool cs)))))"
  using pool.inv_foldl [OF pool.inv_new, of cs] by (simp add: with_roots_def toy_opts_def)

lemma toy_verifies:
  "Verify toy_env direct_opts toy_leaf = Inr [[toy_leaf, toy_cert 6 20 20]]"
  "Verify toy_env named_opts named_leaf = Inr [[named_leaf, named_root]]"
  by code_simp+

section \<open>Properties\<close>

text \<open>
  (C1) Soundness of \<^verbatim>\<open>Verify\<close>. Every chain it returns is the certificate alone, when that is itself a
  trusted root, or starts with the certificate, goes through certificates of the intermediate pool to
  one of the root pool, repeats none, each signed by the next, which passes the validity checks in its
  place; its key usages nest. There is at least one chain, the certificate itself is valid and matches the
  host name that was asked for.
\<close>

theorem Verify_sound:
  assumes "Verify env opts c = Inr chs" "pred_option pool_inv (vo_Roots (with_roots env opts))"
  shows "chs \<noteq> [] \<and>
    list_all (\<lambda>ch. accepted_chain env (with_roots env opts) c ch \<and> hd ch = c \<and> distinct (map Raw ch)) chs \<and>
    isValid env (with_roots env opts) leafCertificate [] c = Inr () \<and>
    (vo_DNSName opts = [] \<or> VerifyHostname (env_net env) (env_ignoreCN env) c (vo_DNSName opts) = Inr ())"
proof -
  have "accepted_chain env (with_roots env opts) c ch \<Longrightarrow> hd ch = c \<and> distinct (map Raw ch)" for ch
    using verified_chain_shape by (fastforce simp: accepted_chain_def)
  then show ?thesis using Verify_chains [OF assms] Verify_cases [OF assms(1)] by (auto simp: list_all_iff)
qed

theorem Verify_sound_witness:
  "verified_chain toy_env (with_roots toy_env direct_opts) toy_leaf [toy_leaf, toy_cert 6 20 20]"
proof -
  have "[toy_leaf, toy_cert 6 20 20] \<noteq> [toy_leaf]" by simp
  then show ?thesis
    using Verify_sound [OF toy_verifies(1)] toy_pools [of "Some NewCertPool" "[toy_cert 6 20 20]"]
    by (simp add: direct_opts_def accepted_chain_def)
qed

text \<open>
  (C14) Name constraints bind the whole chain: when \<^verbatim>\<open>Verify\<close> returns a chain, every certificate above the
  leaf that has name constraints allows every name of the leaf's subject alternative names (no excluded
  range matches the name and, when there are permitted ranges of its kind, one of them does), and the leaf
  does not fall back on its common name.
\<close>

theorem Verify_name_constraints:
  assumes "Verify env opts c = Inr chs" "pred_option pool_inv (vo_Roots (with_roots env opts))"
    and "\<not> vo_DisableNameConstraintChecks opts" "ch \<in> set chs" "m \<in> set (tl ch)" "hasNameConstraints m"
  shows "leaf_names_ok env c m"
proof -
  have "accepted_chain env (with_roots env opts) c ch" using Verify_chains [OF assms(1,2)] assms(4) by blast
  then have "verified_chain env (with_roots env opts) c ch" using assms(5) by (auto simp: accepted_chain_def)
  then show ?thesis by (rule verified_chain_names) (simp_all add: assms(3,5,6))
qed

theorem Verify_name_constraints_witness: "leaf_names_ok toy_env named_leaf named_root"
proof -
  have "hasNameConstraints named_root" by code_simp
  then show ?thesis
    using Verify_name_constraints [OF toy_verifies(2), of "[named_leaf, named_root]" named_root]
      toy_pools [of None "[named_root]"]
    by (simp add: named_opts_def toy_opts_def)
qed

text \<open>
  (C24) The outcome of \<^verbatim>\<open>Verify\<close> depends on at most 100 signature checks, however many certificates the
  pools hold: a crafted set of intermediates cannot make it check more.
\<close>

theorem Verify_signature_bound:
  "\<exists>S. finite S \<and> card S \<le> 100 \<and> {env'. agree_on S env env'} \<subseteq> {env'. Verify env' opts c = Verify env opts c}"
proof -
  let ?o = "with_roots env opts"
  obtain S where S: "finite S" "card S \<le> 100"
    "\<forall>env'. agree_on S env env' \<longrightarrow> buildChains env' ?o c [c] Map.empty 0 = buildChains env ?o c [c] Map.empty 0"
    using buildChains_bounded(1) [of 0 env ?o c "[c]" Map.empty]
    by (auto simp: bounded_checks_def maxChainSignatureChecks_def)
  then show ?thesis using Verify_depends isValid_agree by (intro exI [of _ S]) blast
qed

text \<open>
  (C23) A chain is suitable for a set of usages exactly when it is not empty and every certificate of it
  permits one and the same requested usage; a request that is empty or holds the reserved value \<open>-1\<close> is
  always granted.
\<close>

theorem checkChainForKeyUsage_iff:
  "checkChainForKeyUsage ch us \<longleftrightarrow>
     ch \<noteq> [] \<and> (us = [] \<or> invalidUsage \<in> set us \<or> list_ex (\<lambda>u. list_all (\<lambda>c. permits_usage c u) ch) us)"
proof -
  let ?k = "length (filter (\<lambda>u. u = invalidUsage) us)"
  have l: "length us = ?k + length (live us)" by (simp add: live_def sum_length_filter_compl)
  have "0 < ?k \<longleftrightarrow> invalidUsage \<in> set us" by (auto simp: filter_empty_conv)
  moreover have "live us = [] \<and> invalidUsage \<notin> set us \<longleftrightarrow> us = []" by (cases us) (auto simp: live_def filter_empty_conv)
  moreover have "set (live us) = set us - {invalidUsage}" by (auto simp: live_def)
  ultimately show ?thesis
    unfolding checkChainForKeyUsage_def l walk_usages_iff by (auto simp: list_ex_iff list_all_iff)
qed

text \<open>
  (C38) The cache of \<^verbatim>\<open>buildChains\<close> keeps whole chains, with the prefix of the call that filled it. With two
  cross-certificates for one issuer, the chain through the second is replaced by a copy of the
  chain through the first, and \<^verbatim>\<open>Verify\<close> rejects a certificate that has a valid chain.
\<close>

theorem Verify_cache_loses_chain:
  "b_chains (buildChains toy_env cross_opts toy_leaf [toy_leaf] Map.empty 0) =
     [[toy_leaf, crossA, toy_inter, toy_root], [toy_leaf, crossA, toy_inter, toy_root]] \<and>
   Verify toy_env cross_opts toy_leaf = Inl (CertificateInvalid IncompatibleUsage) \<and>
   accepted_chain toy_env cross_opts toy_leaf [toy_leaf, crossB, toy_inter, toy_root]"
proof -
  let ?o = cross_opts
  have "path toy_env ?o toy_leaf ([toy_leaf] @ [crossB])"
    by (rule path.extend [OF path.start]) code_simp+
  then have "path toy_env ?o toy_leaf ([toy_leaf, crossB] @ [toy_inter])"
    by (intro path.extend) (simp, code_simp+)
  moreover have "toy_root \<in> set (pool_certs (vo_Roots ?o)) \<and>
      step_ok toy_env ?o rootCertificate ([toy_leaf, crossB] @ [toy_inter]) toy_root"
    by code_simp
  ultimately have "verified_chain toy_env ?o toy_leaf [toy_leaf, crossB, toy_inter, toy_root]"
    unfolding verified_chain_def by (intro exI [of _ "[toy_leaf, crossB, toy_inter]"] exI [of _ toy_root]) simp
  moreover have "checkChainForKeyUsage [toy_leaf, crossB, toy_inter, toy_root] (wanted_usages ?o)" by code_simp
  ultimately have "accepted_chain toy_env ?o toy_leaf [toy_leaf, crossB, toy_inter, toy_root]"
    by (simp add: accepted_chain_def)
  moreover have "b_chains (buildChains toy_env ?o toy_leaf [toy_leaf] Map.empty 0) =
      [[toy_leaf, crossA, toy_inter, toy_root], [toy_leaf, crossA, toy_inter, toy_root]]"
    by code_simp
  moreover have "Verify toy_env ?o toy_leaf = Inl (CertificateInvalid IncompatibleUsage)" by code_simp
  ultimately show ?thesis by simp
qed

end
