(* ===== verification/CTFE_Chain.thy ===== *)
theory CTFE_Chain
  imports X509_Chains CT_Serialization
begin

text \<open>
  The checks of the log front end on a submitted chain: the pool of trusted roots
  (\<^verbatim>\<open>src/trillian/ctfe/pem_cert_pool.go\<close>), the poison test, \<^verbatim>\<open>ValidateChain\<close> and \<^verbatim>\<open>chainsEquivalent\<close>
  (\<^verbatim>\<open>src/trillian/ctfe/cert_checker.go\<close>), and \<^verbatim>\<open>verifyAddChain\<close> (\<^verbatim>\<open>src/trillian/ctfe/handlers.go\<close>).
  SHA-256, the certificate parser and \<^verbatim>\<open>pem.Decode\<close> are arguments; a certificate pointer that is nil is
  \<open>None\<close>.
\<close>

section \<open>The pool of roots\<close>

record PEMCertPool =
  fingerprintToCertMap :: "bytes \<rightharpoonup> Certificate"
  rawCerts :: "Certificate list"
  certPool :: CertPool

definition NewPEMCertPool :: PEMCertPool where
  "NewPEMCertPool = \<lparr>fingerprintToCertMap = Map.empty, rawCerts = [], certPool = NewCertPool\<rparr>"

definition PEM_AddCert :: "(bytes \<Rightarrow> bytes) \<Rightarrow> PEMCertPool \<Rightarrow> Certificate \<Rightarrow> PEMCertPool" where
  "PEM_AddCert sha256 p cert =
     (let fingerprint = sha256 (Raw cert)
      in if fingerprintToCertMap p fingerprint = None then
           p\<lparr>fingerprintToCertMap := (fingerprintToCertMap p)(fingerprint \<mapsto> cert),
             certPool := AddCert (certPool p) cert,
             rawCerts := rawCerts p @ [cert]\<rparr>
         else p)"

definition Included :: "(bytes \<Rightarrow> bytes) \<Rightarrow> PEMCertPool \<Rightarrow> Certificate \<Rightarrow> bool" where
  "Included sha256 p cert \<longleftrightarrow> fingerprintToCertMap p (sha256 (Raw cert)) \<noteq> None"

text \<open>
  The loop over the PEM blocks: a certificate that does not parse ends it with \<^verbatim>\<open>false\<close>. \<open>None\<close> is
  a loop that does not end.
\<close>

partial_function (option) PEM_append ::
    "(bytes \<Rightarrow> bytes) \<Rightarrow> (bytes \<Rightarrow> pem_block option \<times> bytes) \<Rightarrow> x509_parser \<Rightarrow>
       PEMCertPool \<Rightarrow> bool \<Rightarrow> bytes \<Rightarrow> (PEMCertPool \<times> bool) go_panic option" where
  "PEM_append sha256 decode ParseCertificate p ok pemCerts =
     (if pemCerts = [] then Some (Returned (p, ok))
      else
        (case decode pemCerts of
           (None, rest) \<Rightarrow> Some (Returned (p, ok))
         | (Some block, rest) \<Rightarrow>
             if pem_Type block \<noteq> ''CERTIFICATE'' \<or> pem_Headers block \<noteq> []
             then PEM_append sha256 decode ParseCertificate p ok rest
             else
               (case ParseCertificate (pem_Bytes block) of
                  (oc, err) \<Rightarrow>
                    if IsFatal err then Some (Returned (p, False))
                    else
                      (case oc of
                         None \<Rightarrow> Some Panicked
                       | Some cert \<Rightarrow>
                           PEM_append sha256 decode ParseCertificate (PEM_AddCert sha256 p cert) True rest))))"

definition PEM_AppendCertsFromPEM ::
    "(bytes \<Rightarrow> bytes) \<Rightarrow> (bytes \<Rightarrow> pem_block option \<times> bytes) \<Rightarrow> x509_parser \<Rightarrow>
       PEMCertPool \<Rightarrow> bytes \<Rightarrow> (PEMCertPool \<times> bool) go_panic option" where
  "PEM_AppendCertsFromPEM sha256 decode ParseCertificate p pemCerts =
     PEM_append sha256 decode ParseCertificate p False pemCerts"

definition PEM_Subjects :: "PEMCertPool \<Rightarrow> bytes list" where
  "PEM_Subjects p = Subjects (certPool p)"

section \<open>Validation of a chain\<close>

datatype chain_err =
    ChainPanic
  | BadPoison
  | ParseFailed
  | NotAfterTooEarly
  | NotAfterTooLate
  | NotCA
  | RejectingExpired
  | RejectingUnexpired
  | RejectedExtension nat
  | MissingEKU
  | VerifyFailed verify_err
  | NoPathToRoot
  | NoCompliantPath
  | TypeMismatch

definition NullBytes :: bytes where "NullBytes = [5, 0]"

fun poison_loop :: "Extension list \<Rightarrow> chain_err + bool" where
  "poison_loop [] = Inr False"
| "poison_loop (ext # exts) =
     (if ext_Id ext = OIDExtensionCTPoison then
        if \<not> ext_Critical ext \<or> ext_Value ext \<noteq> NullBytes then Inl BadPoison else Inr True
      else poison_loop exts)"

definition ctfe_IsPrecertificate :: "Certificate \<Rightarrow> chain_err + bool" where
  "ctfe_IsPrecertificate cert = poison_loop (Extensions cert)"

record CertValidationOpts =
  cv_trustedRoots :: PEMCertPool
  cv_currentTime :: gotime
  cv_rejectExpired :: bool
  cv_rejectUnexpired :: bool
  cv_notAfterStart :: "gotime option"
  cv_notAfterLimit :: "gotime option"
  cv_acceptOnlyCA :: bool
  cv_extKeyUsages :: "int list"
  cv_rejectExtIds :: "oid list"

definition NewCertValidationOpts ::
    "PEMCertPool \<Rightarrow> gotime \<Rightarrow> bool \<Rightarrow> bool \<Rightarrow> gotime option \<Rightarrow> gotime option \<Rightarrow> bool \<Rightarrow> int list \<Rightarrow> CertValidationOpts" where
  "NewCertValidationOpts trustedRoots currentTime rejectExpired rejectUnexpired notAfterStart notAfterLimit
       acceptOnlyCA extKeyUsages =
     \<lparr>cv_trustedRoots = trustedRoots, cv_currentTime = currentTime, cv_rejectExpired = rejectExpired,
      cv_rejectUnexpired = rejectUnexpired, cv_notAfterStart = notAfterStart, cv_notAfterLimit = notAfterLimit,
      cv_acceptOnlyCA = acceptOnlyCA, cv_extKeyUsages = extKeyUsages, cv_rejectExtIds = []\<rparr>"

text \<open>The loop that parses the chain; all but its first certificate go into the intermediate pool.\<close>

fun parse_submitted ::
    "(bytes \<Rightarrow> bytes) \<Rightarrow> x509_parser \<Rightarrow> nat \<Rightarrow> bytes list \<Rightarrow> Certificate option list \<Rightarrow> PEMCertPool \<Rightarrow>
       chain_err + Certificate option list \<times> PEMCertPool" where
  "parse_submitted sha256 ParseCertificate i [] chain pool = Inr (chain, pool)"
| "parse_submitted sha256 ParseCertificate i (certBytes # rest) chain pool =
     (let (cert, err) = ParseCertificate certBytes
      in if IsFatal err then Inl ParseFailed
         else if i = 0 then parse_submitted sha256 ParseCertificate (Suc i) rest (chain @ [cert]) pool
         else
           (case cert of
              None \<Rightarrow> Inl ChainPanic
            | Some c \<Rightarrow> parse_submitted sha256 ParseCertificate (Suc i) rest (chain @ [cert]) (PEM_AddCert sha256 pool c)))"

text \<open>
  The checks on the end entity certificate. Identifiers are compared by their dotted forms, which are
  equal just for equal identifiers; the error names the first rejected extension.
\<close>

definition check_leaf :: "CertValidationOpts \<Rightarrow> gotime \<Rightarrow> Certificate \<Rightarrow> chain_err + unit" where
  "check_leaf opts now cert =
     (if (case cv_notAfterStart opts of None \<Rightarrow> False | Some naStart \<Rightarrow> NotAfter cert < naStart)
      then Inl NotAfterTooEarly
      else if (case cv_notAfterLimit opts of None \<Rightarrow> False | Some naLimit \<Rightarrow> \<not> NotAfter cert < naLimit)
      then Inl NotAfterTooLate
      else if cv_acceptOnlyCA opts \<and> \<not> IsCA cert then Inl NotCA
      else
        let expired = now > NotAfter cert
        in if cv_rejectExpired opts \<and> expired then Inl RejectingExpired
           else if cv_rejectUnexpired opts \<and> \<not> expired then Inl RejectingUnexpired
           else if list_ex (\<lambda>ext. ext_Id ext \<in> set (cv_rejectExtIds opts)) (Extensions cert)
           then Inl (RejectedExtension
             (length (takeWhile (\<lambda>ext. ext_Id ext \<notin> set (cv_rejectExtIds opts)) (Extensions cert))))
           else if cv_extKeyUsages opts \<noteq> [] \<and> \<not> list_ex (\<lambda>eku. eku \<in> set (cv_extKeyUsages opts)) (ExtKeyUsage cert)
           then Inl MissingEKU
           else Inr ())"

definition chain_verify_opts :: "CertValidationOpts \<Rightarrow> gotime \<Rightarrow> PEMCertPool \<Rightarrow> VerifyOptions" where
  "chain_verify_opts opts now intermediatePool =
     \<lparr>vo_DNSName = [], vo_Intermediates = Some (certPool intermediatePool),
      vo_Roots = Some (certPool (cv_trustedRoots opts)), vo_CurrentTime = now, vo_DisableTimeChecks = True,
      vo_DisableCriticalExtensionChecks = True, vo_DisableNameChecks = False, vo_DisableEKUChecks = True,
      vo_DisablePathLenChecks = True, vo_DisableNameConstraintChecks = True,
      vo_KeyUsages = cv_extKeyUsages opts, vo_MaxConstraintComparisions = 0\<rparr>"

definition chainsEquivalent :: "Certificate list \<Rightarrow> Certificate list \<Rightarrow> bool" where
  "chainsEquivalent inChain verifiedChain =
     (if length inChain \<noteq> length verifiedChain \<and> int (length inChain) \<noteq> int (length verifiedChain) - 1 then False
      else list_all (\<lambda>i. Certificate_Equal (inChain ! i) (verifiedChain ! i)) [0..<length inChain])"

definition ValidateChain ::
    "('rp, 'ep, 'rand) env \<Rightarrow> (bytes \<Rightarrow> bytes) \<Rightarrow> x509_parser \<Rightarrow> bytes list \<Rightarrow> CertValidationOpts \<Rightarrow>
       chain_err + Certificate list" where
  "ValidateChain env sha256 ParseCertificate rawChain opts =
     bind_res (parse_submitted sha256 ParseCertificate 0 rawChain [] NewPEMCertPool) (\<lambda>(chain, intermediatePool).
       case chain of
         Some cert # rest \<Rightarrow>
           let now = (if cv_currentTime opts = zero_time then env_now env else cv_currentTime opts)
           in bind_res (check_leaf opts now cert) (\<lambda>_.
                case Verify env (chain_verify_opts opts now intermediatePool) cert of
                  Inl e \<Rightarrow> Inl (VerifyFailed e)
                | Inr verifiedChains \<Rightarrow>
                    if verifiedChains = [] then Inl NoPathToRoot
                    else
                      (case find (chainsEquivalent (map the chain)) verifiedChains of
                         Some verifiedChain \<Rightarrow> Inr verifiedChain
                       | None \<Rightarrow> Inl NoCompliantPath))
       | _ \<Rightarrow> Inl ChainPanic)"

definition verifyAddChain ::
    "('rp, 'ep, 'rand) env \<Rightarrow> (bytes \<Rightarrow> bytes) \<Rightarrow> x509_parser \<Rightarrow> CertValidationOpts \<Rightarrow> bytes list \<Rightarrow> bool \<Rightarrow>
       chain_err + Certificate list" where
  "verifyAddChain env sha256 ParseCertificate validationOpts req_Chain expectingPrecert =
     bind_res (ValidateChain env sha256 ParseCertificate req_Chain validationOpts) (\<lambda>validPath.
       case validPath of
         [] \<Rightarrow> Inl ChainPanic
       | cert # _ \<Rightarrow>
           bind_res (ctfe_IsPrecertificate cert) (\<lambda>isPrecert.
             if isPrecert \<noteq> expectingPrecert then Inl TypeMismatch else Inr validPath))"

definition extractRawCerts :: "Certificate list \<Rightarrow> ASN1Cert list" where
  "extractRawCerts chain = map (\<lambda>cert. \<lparr>cert_Data = Raw cert\<rparr>) chain"

section \<open>Lemmas\<close>

definition pem_inv :: "(bytes \<Rightarrow> bytes) \<Rightarrow> PEMCertPool \<Rightarrow> bool" where
  "pem_inv sha256 p \<longleftrightarrow>
     pool_inv (certPool p) \<and> certs (certPool p) = rawCerts p \<and>
     dom (fingerprintToCertMap p) = (\<lambda>c. sha256 (Raw c)) ` set (rawCerts p) \<and>
     distinct (map (\<lambda>c. sha256 (Raw c)) (rawCerts p))"

lemma pem_inv_new: "pem_inv sha256 NewPEMCertPool"
  using pool.inv_new pool.members_new by (simp add: pem_inv_def NewPEMCertPool_def)

lemma pem_inv_add:
  assumes "pem_inv sha256 p"
  shows "pem_inv sha256 (PEM_AddCert sha256 p c)"
proof (cases "fingerprintToCertMap p (sha256 (Raw c))")
  case None
  then have n: "sha256 (Raw c) \<notin> (\<lambda>c. sha256 (Raw c)) ` set (rawCerts p)"
    using assms unfolding pem_inv_def by (metis domIff)
  have "\<not> contains_cert (Some (certPool p)) c"
  proof
    assume "contains_cert (Some (certPool p)) c"
    then obtain m where "m \<in> set (rawCerts p)" "Raw m = Raw c"
      using assms pool.contains_iff [of "certPool p" c] unfolding pem_inv_def by metis
    then show False using n imageI [of m "set (rawCerts p)" "\<lambda>c. sha256 (Raw c)"] by simp
  qed
  then show ?thesis
    using assms None n pool.inv_add pool.members_add [of "certPool p" c]
    by (simp add: pem_inv_def PEM_AddCert_def Let_def)
qed (use assms in \<open>simp add: PEM_AddCert_def Let_def\<close>)

lemma pem_inv_foldl: "pem_inv sha256 p \<Longrightarrow> pem_inv sha256 (foldl (PEM_AddCert sha256) p cs)"
  by (induction cs arbitrary: p) (simp_all add: pem_inv_add)

lemma pem_fingerprints:
  "pem_inv sha256 p \<Longrightarrow> dom (fingerprintToCertMap (foldl (PEM_AddCert sha256) p cs)) =
     dom (fingerprintToCertMap p) \<union> (\<lambda>c. sha256 (Raw c)) ` set cs"
proof (induction cs arbitrary: p)
  case (Cons c cs)
  then show ?case
    by (auto simp: pem_inv_add) (auto simp: PEM_AddCert_def Let_def split: if_splits)
qed simp

lemma pem_members:
  "set (rawCerts (foldl (PEM_AddCert sha256) p cs)) \<subseteq> set (rawCerts p) \<union> set cs"
proof (induction cs arbitrary: p)
  case (Cons c cs)
  have "set (rawCerts (PEM_AddCert sha256 p c)) \<subseteq> insert c (set (rawCerts p))"
    by (auto simp: PEM_AddCert_def Let_def)
  then show ?case using Cons [of "PEM_AddCert sha256 p c"] by auto
qed simp

text \<open>The certificates that the parser read from a submission.\<close>

definition parsed_as :: "x509_parser \<Rightarrow> bytes \<Rightarrow> Certificate \<Rightarrow> bool" where
  "parsed_as ParseCertificate b c \<longleftrightarrow> fst (ParseCertificate b) = Some c \<and> \<not> IsFatal (snd (ParseCertificate b))"

lemma parse_submitted_rest:
  "parse_submitted sha256 P i raw chain pool = Inr (chain', pool') \<Longrightarrow> i \<noteq> 0 \<Longrightarrow>
     \<exists>cs. list_all2 (parsed_as P) raw cs \<and> chain' = chain @ map Some cs \<and> pool' = foldl (PEM_AddCert sha256) pool cs"
proof (induction raw arbitrary: i chain pool)
  case (Cons b raw)
  obtain c where c: "parsed_as P b c" and
    r: "parse_submitted sha256 P (Suc i) raw (chain @ [Some c]) (PEM_AddCert sha256 pool c) = Inr (chain', pool')"
    using Cons.prems by (auto simp: parsed_as_def split: prod.splits if_splits option.splits)
  obtain cs where "list_all2 (parsed_as P) raw cs" "chain' = (chain @ [Some c]) @ map Some cs"
    "pool' = foldl (PEM_AddCert sha256) (PEM_AddCert sha256 pool c) cs"
    using Cons.IH [OF r] by blast
  then show ?case using c by (intro exI [of _ "c # cs"]) simp
qed simp

lemma parse_submitted_ok:
  assumes "parse_submitted sha256 P 0 raw [] NewPEMCertPool = Inr (Some c # rest, pool)"
  shows "\<exists>cs. list_all2 (parsed_as P) raw (c # cs) \<and> rest = map Some cs \<and> pool = foldl (PEM_AddCert sha256) NewPEMCertPool cs"
proof (cases raw)
  case (Cons b bs)
  obtain oc err where p: "P b = (oc, err)" by fastforce
  have "\<not> IsFatal err" and r: "parse_submitted sha256 P (Suc 0) bs [oc] NewPEMCertPool = Inr (Some c # rest, pool)"
    using assms Cons p by (auto split: if_splits)
  moreover obtain cs where "list_all2 (parsed_as P) bs cs" "Some c # rest = [oc] @ map Some cs"
    "pool = foldl (PEM_AddCert sha256) NewPEMCertPool cs"
    using parse_submitted_rest [OF r] by auto
  ultimately show ?thesis using Cons p by (intro exI [of _ cs]) (simp add: parsed_as_def)
qed (use assms in simp)

lemma chainsEquivalent_iff:
  "chainsEquivalent xs ys \<longleftrightarrow>
     (length ys = length xs \<or> length ys = Suc (length xs)) \<and> map Raw (take (length xs) ys) = map Raw xs"
proof -
  have "list_all (\<lambda>i. Certificate_Equal (xs ! i) (ys ! i)) [0..<length xs] \<longleftrightarrow> map Raw (take (length xs) ys) = map Raw xs"
    if "length xs \<le> length ys"
    using that by (subst list_eq_iff_nth_eq) (auto simp: list_all_iff Certificate_Equal_def)
  then show ?thesis by (auto simp: chainsEquivalent_def)
qed

text \<open>What an accepted submission guarantees.\<close>

definition compliant_chain ::
    "('rp, 'ep, 'rand) env \<Rightarrow> (bytes \<Rightarrow> bytes) \<Rightarrow> x509_parser \<Rightarrow> bytes list \<Rightarrow> CertValidationOpts \<Rightarrow> Certificate list \<Rightarrow> bool" where
  "compliant_chain env sha256 P rawChain opts ch \<longleftrightarrow>
     (\<exists>cert cs now. list_all2 (parsed_as P) rawChain (cert # cs) \<and> hd ch = cert \<and>
        (length ch = length rawChain \<or> length ch = Suc (length rawChain)) \<and>
        map Raw (take (length rawChain) ch) = map Raw (cert # cs) \<and>
        now = (if cv_currentTime opts = zero_time then env_now env else cv_currentTime opts) \<and>
        check_leaf opts now cert = Inr () \<and>
        (ch = [cert] \<and> contains_cert (Some (certPool (cv_trustedRoots opts))) cert \<or>
         verified_chain env (chain_verify_opts opts now (foldl (PEM_AddCert sha256) NewPEMCertPool cs)) cert ch))"

lemma ValidateChain_compliant:
  assumes "ValidateChain env sha256 P rawChain opts = Inr ch" "pool_inv (certPool (cv_trustedRoots opts))"
  shows "compliant_chain env sha256 P rawChain opts ch"
proof -
  let ?now = "if cv_currentTime opts = zero_time then env_now env else cv_currentTime opts"
  obtain chain pool where cp: "parse_submitted sha256 P 0 rawChain [] NewPEMCertPool = Inr (chain, pool)"
    using assms(1) by (auto simp: ValidateChain_def result_simps)
  obtain cert rest where c: "chain = Some cert # rest"
  proof (cases chain)
    case (Cons oc rest)
    then show ?thesis using that assms(1) cp by (cases oc) (auto simp: ValidateChain_def)
  qed (use assms(1) cp in \<open>simp add: ValidateChain_def\<close>)
  note p = cp [unfolded c]
  obtain cs where cs: "list_all2 (parsed_as P) rawChain (cert # cs)" "rest = map Some cs"
    "pool = foldl (PEM_AddCert sha256) NewPEMCertPool cs" using parse_submitted_ok [OF p] by blast
  let ?o = "chain_verify_opts opts ?now pool"
  obtain chs where l: "check_leaf opts ?now cert = Inr ()" and v: "Verify env ?o cert = Inr chs"
    and f: "find (chainsEquivalent (cert # cs)) chs = Some ch"
    using assms(1) p cs(2) by (auto simp: ValidateChain_def Let_def result_simps comp_def split: sum.splits if_splits option.splits)
  have w: "with_roots env ?o = ?o" by (simp add: with_roots_def chain_verify_opts_def)
  have i: "pred_option pool_inv (vo_Roots (with_roots env ?o))"
    unfolding w using assms(2) by (simp add: chain_verify_opts_def)
  have "ch \<in> set chs" using f by (auto simp: find_Some_iff)
  then have "accepted_chain env ?o cert ch" using Verify_chains [OF v i] unfolding w by blast
  then have a: "ch = [cert] \<and> contains_cert (Some (certPool (cv_trustedRoots opts))) cert \<or> verified_chain env ?o cert ch"
    by (simp add: accepted_chain_def chain_verify_opts_def)
  moreover have "hd ch = cert" using a verified_chain_shape by auto
  moreover have "chainsEquivalent (cert # cs) ch" using f by (auto simp: find_Some_iff)
  moreover have "length rawChain = length (cert # cs)" using cs(1) by (rule list_all2_lengthD)
  ultimately show ?thesis using cs l unfolding compliant_chain_def chainsEquivalent_iff by auto
qed

lemma verifyAddChain_ok:
  assumes "verifyAddChain env sha256 P opts req expectingPrecert = Inr ch"
  shows "ValidateChain env sha256 P req opts = Inr ch \<and> ch \<noteq> [] \<and> ctfe_IsPrecertificate (hd ch) = Inr expectingPrecert"
proof -
  obtain vp where v: "ValidateChain env sha256 P req opts = Inr vp"
    using assms by (auto simp: verifyAddChain_def result_simps)
  then show ?thesis using assms by (cases vp) (auto simp: verifyAddChain_def result_simps split: if_splits)
qed

section \<open>Properties\<close>

text \<open>
  The pool of roots that the log trusts and the list that get-roots serves are the same list, for every
  sequence of additions; it has no two certificates with the same fingerprint, every certificate that was
  added is included, and nothing else is in it.
\<close>

theorem PEMCertPool_consistent:
  "let p = foldl (PEM_AddCert sha256) NewPEMCertPool cs
   in certs (certPool p) = rawCerts p \<and> set (rawCerts p) \<subseteq> set cs \<and>
      distinct (map (\<lambda>c. sha256 (Raw c)) (rawCerts p)) \<and>
      Included sha256 p c = list_ex (\<lambda>d. sha256 (Raw d) = sha256 (Raw c)) cs"
proof -
  let ?p = "foldl (PEM_AddCert sha256) NewPEMCertPool cs"
  have "pem_inv sha256 ?p" by (rule pem_inv_foldl [OF pem_inv_new])
  moreover have "set (rawCerts ?p) \<subseteq> set cs" using pem_members [of sha256 NewPEMCertPool cs] by (simp add: NewPEMCertPool_def)
  moreover have "dom (fingerprintToCertMap ?p) = (\<lambda>c. sha256 (Raw c)) ` set cs"
    using pem_fingerprints [OF pem_inv_new, of sha256 cs] by (simp add: NewPEMCertPool_def)
  then have "fingerprintToCertMap ?p f \<noteq> None \<longleftrightarrow> f \<in> (\<lambda>c. sha256 (Raw c)) ` set cs" for f by (metis domIff)
  then have "Included sha256 ?p c = list_ex (\<lambda>d. sha256 (Raw d) = sha256 (Raw c)) cs"
    unfolding Included_def list_ex_iff image_iff by metis
  ultimately show ?thesis by (simp add: pem_inv_def Let_def)
qed

text \<open>
  (C13) A chain that \<^verbatim>\<open>verifyAddChain\<close> accepts complies with RFC 6962 section 3.1: every submitted
  certificate parses; the accepted chain consists of the submitted certificates in the order of
  submission, with at most a root after them; each is signed by the next and the last is a
  trusted root; the leaf passed the log's own checks (expiry range, CA bit, extensions, key usages), and
  it has a valid poison extension exactly when a precertificate was expected.
\<close>

theorem verifyAddChain_sound:
  assumes "verifyAddChain env sha256 P opts rawChain expectingPrecert = Inr ch"
    and "pool_inv (certPool (cv_trustedRoots opts))"
  shows "compliant_chain env sha256 P rawChain opts ch \<and> ch \<noteq> [] \<and>
    (case find (\<lambda>e. ext_Id e = OIDExtensionCTPoison) (Extensions (hd ch)) of
       None \<Rightarrow> \<not> expectingPrecert
     | Some e \<Rightarrow> expectingPrecert \<and> ext_Critical e \<and> ext_Value e = [5, 0])"
proof -
  have "poison_loop exts = Inr b \<Longrightarrow>
      (case find (\<lambda>e. ext_Id e = OIDExtensionCTPoison) exts of
         None \<Rightarrow> \<not> b | Some e \<Rightarrow> b \<and> ext_Critical e \<and> ext_Value e = [5, 0])" for exts b
    by (induction exts) (auto simp: NullBytes_def split: if_splits)
  then show ?thesis
    using verifyAddChain_ok [OF assms(1)] ValidateChain_compliant assms(2) by (auto simp: ctfe_IsPrecertificate_def)
qed

definition toy_parser :: x509_parser where
  "toy_parser b = (if b = [1] then (Some toy_leaf, None) else if b = [4] then (Some toy_inter, None)
     else if b = [3] then (Some crossB, None) else (None, Some (PlainError ''bad'')))"

definition toy_validation :: CertValidationOpts where
  "toy_validation = NewCertValidationOpts (foldl (PEM_AddCert (take 1)) NewPEMCertPool [toy_root]) 5 True False (Some 0)
     (Some 20) False []"

theorem verifyAddChain_sound_witness:
  "compliant_chain toy_env (take 1) toy_parser [[1], [3], [4]] toy_validation [toy_leaf, crossB, toy_inter, toy_root]"
proof -
  have v: "verifyAddChain toy_env (take 1) toy_parser toy_validation [[1], [3], [4]] False =
      Inr [toy_leaf, crossB, toy_inter, toy_root]"
    by code_simp
  have "pem_inv (take 1) (cv_trustedRoots toy_validation)"
    using pem_inv_foldl [OF pem_inv_new, of "take 1" "[toy_root]"]
    by (simp add: toy_validation_def NewCertValidationOpts_def)
  then show ?thesis using verifyAddChain_sound [OF v] by (simp add: pem_inv_def)
qed

end
