(* ===== verification/CTFE_Log.thy ===== *)
theory CTFE_Log
  imports CTFE_Chain
begin

text \<open>
  The log front end (\<^verbatim>\<open>src/trillian/ctfe\<close>): signing of SCTs and tree heads with the signature cache
  (\<^verbatim>\<open>serialize.go\<close>, \<^verbatim>\<open>structures.go\<close>), the getters of tree heads (\<^verbatim>\<open>sth.go\<close>), the leaf that is sent to the
  backend (\<^verbatim>\<open>src/trillian/util/log_leaf.go\<close>), and the eight request handlers with their common wrapper
  (\<^verbatim>\<open>handlers.go\<close>). The Trillian backend is a record of operations on a state of its own; the JSON
  decoder, the certificate parser, the decoder of log roots, the encoder of public keys and the signer are
  arguments. Metrics, request logs and deadlines are left out.
\<close>

section \<open>Handlers as state transformers\<close>

text \<open>
  A handler ends with a value, with an HTTP status and an error (of which the fixed part of the message is
  kept), with a panic, or does not end.
\<close>

datatype 'a hres = HOk 'a | HErr int string | HPanic | HLoop

definition ret :: "'a \<Rightarrow> 's \<Rightarrow> 'a hres \<times> 's" where
  "ret x s = (HOk x, s)"

definition fail :: "int \<Rightarrow> string \<Rightarrow> 's \<Rightarrow> 'a hres \<times> 's" where
  "fail status msg s = (HErr status msg, s)"

definition bind_h :: "('s \<Rightarrow> 'a hres \<times> 's) \<Rightarrow> ('a \<Rightarrow> 's \<Rightarrow> 'b hres \<times> 's) \<Rightarrow> 's \<Rightarrow> 'b hres \<times> 's" where
  "bind_h m f s =
     (case m s of
        (HOk x, s') \<Rightarrow> f x s'
      | (HErr status msg, s') \<Rightarrow> (HErr status msg, s')
      | (HPanic, s') \<Rightarrow> (HPanic, s')
      | (HLoop, s') \<Rightarrow> (HLoop, s'))"

definition require :: "bool \<Rightarrow> int \<Rightarrow> string \<Rightarrow> 's \<Rightarrow> unit hres \<times> 's" where
  "require b status msg = (if b then ret () else fail status msg)"

text \<open>Calls that return an error value, with the status that the handler maps it to.\<close>

definition try_sum :: "'e + 'a \<Rightarrow> int \<Rightarrow> string \<Rightarrow> 's \<Rightarrow> 'a hres \<times> 's" where
  "try_sum r status msg = (case r of Inl _ \<Rightarrow> fail status msg | Inr x \<Rightarrow> ret x)"

definition try_option :: "'a option \<Rightarrow> int \<Rightarrow> string \<Rightarrow> 's \<Rightarrow> 'a hres \<times> 's" where
  "try_option r status msg = (case r of None \<Rightarrow> fail status msg | Some x \<Rightarrow> ret x)"

definition not_nil :: "'a option \<Rightarrow> 's \<Rightarrow> 'a hres \<times> 's" where
  "not_nil p s = (case p of None \<Rightarrow> (HPanic, s) | Some x \<Rightarrow> (HOk x, s))"

definition StatusOK :: int where "StatusOK = 200"
definition StatusBadRequest :: int where "StatusBadRequest = 400"
definition StatusUnauthorized :: int where "StatusUnauthorized = 401"
definition StatusForbidden :: int where "StatusForbidden = 403"
definition StatusNotFound :: int where "StatusNotFound = 404"
definition StatusMethodNotAllowed :: int where "StatusMethodNotAllowed = 405"
definition StatusRequestTimeout :: int where "StatusRequestTimeout = 408"
definition StatusConflict :: int where "StatusConflict = 409"
definition StatusPreconditionFailed :: int where "StatusPreconditionFailed = 412"
definition StatusInternalServerError :: int where "StatusInternalServerError = 500"
definition StatusNotImplemented :: int where "StatusNotImplemented = 501"
definition StatusServiceUnavailable :: int where "StatusServiceUnavailable = 503"

section \<open>The backend\<close>

record LogLeaf =
  ll_LeafValue :: bytes
  ll_ExtraData :: bytes
  ll_LeafIndex :: int
  ll_LeafIdentityHash :: bytes

record LogRootV1 =
  lr_TreeSize :: u64
  lr_RootHash :: bytes
  lr_TimestampNanos :: u64

datatype grpc_code =
    OK | Canceled | Unknown | InvalidArgument | DeadlineExceeded | NotFound | AlreadyExists | PermissionDenied
  | ResourceExhausted | FailedPrecondition | Aborted | OutOfRange | Unimplemented | Internal | Unavailable
  | DataLoss | Unauthenticated | OtherCode int

text \<open>An error that carries a gRPC status, and any other.\<close>

datatype log_error = RpcStatus grpc_code | PlainErr string

text \<open>
  The remote calls. Each takes the identifier of the log, its arguments and the users to be charged. A log
  root is given by its bytes, which are empty when the message has none; a nil pointer in a response is
  \<open>None\<close>, and so is a nil list of hashes. The elements of a repeated field are never nil; those of
  \<^verbatim>\<open>QueuedLeaves\<close> are given by their \<^verbatim>\<open>Leaf\<close>.
\<close>

type_synonym charge = "string list option"

record 'b log_rpc =
  QueueLeaves :: "int \<Rightarrow> LogLeaf list \<Rightarrow> charge \<Rightarrow> 'b \<Rightarrow> (log_error + LogLeaf option list option) \<times> 'b"
  GetLatestSignedLogRoot :: "int \<Rightarrow> charge \<Rightarrow> 'b \<Rightarrow> (log_error + bytes option) \<times> 'b"
  GetConsistencyProof :: "int \<Rightarrow> int \<Rightarrow> int \<Rightarrow> charge \<Rightarrow> 'b \<Rightarrow> (log_error + bytes \<times> bytes list option option) \<times> 'b"
  GetInclusionProofByHash ::
    "int \<Rightarrow> bytes \<Rightarrow> int \<Rightarrow> charge \<Rightarrow> 'b \<Rightarrow> (log_error + bytes \<times> (int \<times> bytes list option) list) \<times> 'b"
  GetLeavesByRange :: "int \<Rightarrow> int \<Rightarrow> int \<Rightarrow> charge \<Rightarrow> 'b \<Rightarrow> (log_error + bytes \<times> LogLeaf list) \<times> 'b"
  GetLeavesByIndex :: "int \<Rightarrow> int list \<Rightarrow> charge \<Rightarrow> 'b \<Rightarrow> (log_error + bytes \<times> LogLeaf list) \<times> 'b"
  rpc_GetEntryAndProof ::
    "int \<Rightarrow> int \<Rightarrow> int \<Rightarrow> charge \<Rightarrow> 'b \<Rightarrow> (log_error + bytes \<times> LogLeaf option \<times> bytes list option option) \<times> 'b"

section \<open>State and configuration\<close>

record SignatureCache =
  sc_input :: bytes
  sc_sig :: DigitallySigned

definition zero_DigitallySigned :: DigitallySigned where
  "zero_DigitallySigned = \<lparr>ds_Algorithm = \<lparr>sha_Hash = 0, sha_Signature = 0\<rparr>, ds_Signature = []\<rparr>"

text \<open>A \<^verbatim>\<open>crypto.Signer\<close>, with the state of its source of randomness.\<close>

record 'r signer =
  sg_Public :: PublicKey
  sg_Sign :: "bytes \<Rightarrow> 'r \<Rightarrow> bytes option \<times> 'r"

record ('b, 'r) server =
  sv_backend :: 'b
  sv_rand :: 'r
  sv_cache :: SignatureCache

record http_request =
  rq_Method :: string
  rq_formOk :: bool
  rq_FormValue :: "string \<Rightarrow> string"
  rq_Body :: "bytes option"
  rq_now :: int
  rq_writeOk :: bool

datatype STHGetter =
    FrozenSTHGetter SignedTreeHead
  | MirrorSTHGetter "int \<Rightarrow> log_error + SignedTreeHead"
  | LogSTHGetter

record ('b, 'r) logInfo =
  li_logID :: int
  li_validationOpts :: CertValidationOpts
  li_rpcClient :: "'b log_rpc"
  li_signer :: "'r signer"
  li_sthGetter :: STHGetter
  li_IsMirror :: bool
  li_MaskInternalErrors :: bool
  li_RemoteQuotaUser :: "(http_request \<Rightarrow> string) option"
  li_CertificateQuotaUser :: "(Certificate \<Rightarrow> string) option"
  li_ErrorMapper :: "(log_error \<Rightarrow> int option) option"

text \<open>The functions that the front end takes from other packages, and its flags.\<close>

record ('rp, 'ep, 'rand, 'o) ctfe_env =
  ce_env :: "('rp, 'ep, 'rand) env"
  ce_codec :: "'o tbs_codec"
  ce_ParseCertificate :: x509_parser
  ce_MarshalPKIXPublicKey :: "PublicKey \<Rightarrow> bytes option"
  ce_UnmarshalRoot :: "bytes \<Rightarrow> LogRootV1 option"
  ce_json_chain :: "bytes \<Rightarrow> bytes list option"
  ce_getByRange :: bool
  ce_alignGetEntries :: bool
  ce_MaxGetEntriesAllowed :: int

definition sum256 :: "('rp, 'ep, 'rand, 'o) ctfe_env \<Rightarrow> bytes \<Rightarrow> bytes" where
  "sum256 E b = hash_sum (env_ops (ce_env E)) CryptoSHA256 b"

section \<open>Signing\<close>

definition GetSignature :: "SignatureCache \<Rightarrow> bytes \<Rightarrow> DigitallySigned option" where
  "GetSignature sc input = (if input \<noteq> sc_input sc then None else Some (sc_sig sc))"

definition SetSignature :: "SignatureCache \<Rightarrow> bytes \<Rightarrow> DigitallySigned \<Rightarrow> SignatureCache" where
  "SetSignature sc input sig = sc\<lparr>sc_input := input, sc_sig := sig\<rparr>"

text \<open>One call of the signer on a digest.\<close>

definition sign_digest :: "'r signer \<Rightarrow> bytes \<Rightarrow> ('b, 'r) server \<Rightarrow> bytes option \<times> ('b, 'r) server" where
  "sign_digest sg digest s =
     (case sg_Sign sg digest (sv_rand s) of (res, rnd) \<Rightarrow> (res, s\<lparr>sv_rand := rnd\<rparr>))"

definition digitally_signed :: "PublicKey \<Rightarrow> bytes \<Rightarrow> DigitallySigned" where
  "digitally_signed pk signature =
     \<lparr>ds_Algorithm = \<lparr>sha_Hash = SHA256, sha_Signature = SignatureAlgorithmFromPubKey (tls_key pk)\<rparr>,
      ds_Signature = signature\<rparr>"

text \<open>\<open>None\<close> is an error.\<close>

definition signV1TreeHead ::
    "('rp, 'ep, 'rand, 'o) ctfe_env \<Rightarrow> 'r signer \<Rightarrow> SignedTreeHead \<Rightarrow> ('b, 'r) server \<Rightarrow> SignedTreeHead option \<times> ('b, 'r) server" where
  "signV1TreeHead E sg sth s =
     (case SerializeSTHSignatureInput sth of
        Inl _ \<Rightarrow> (None, s)
      | Inr sthBytes \<Rightarrow>
          (case GetSignature (sv_cache s) sthBytes of
             Some sig \<Rightarrow> (Some (sth\<lparr>sth_TreeHeadSignature := sig\<rparr>), s)
           | None \<Rightarrow>
               (case sign_digest sg (sum256 E sthBytes) s of
                  (None, s') \<Rightarrow> (None, s')
                | (Some signature, s') \<Rightarrow>
                    let sig = digitally_signed (sg_Public sg) signature
                    in (Some (sth\<lparr>sth_TreeHeadSignature := sig\<rparr>), s'\<lparr>sv_cache := SetSignature (sv_cache s') sthBytes sig\<rparr>))))"

definition GetCTLogID :: "('rp, 'ep, 'rand, 'o) ctfe_env \<Rightarrow> PublicKey \<Rightarrow> bytes option" where
  "GetCTLogID E pk = map_option (sum256 E) (ce_MarshalPKIXPublicKey E pk)"

definition leaf_entry :: "MerkleTreeLeaf \<Rightarrow> LogEntry" where
  "leaf_entry l = \<lparr>le_Index = 0, le_Leaf = l, le_X509Cert = None, le_Precert = None, le_JSONData = [], le_Chain = []\<rparr>"

definition buildV1SCT ::
    "('rp, 'ep, 'rand, 'o) ctfe_env \<Rightarrow> 'r signer \<Rightarrow> MerkleTreeLeaf \<Rightarrow> ('b, 'r) server \<Rightarrow>
       SignedCertificateTimestamp hres \<times> ('b, 'r) server" where
  "buildV1SCT E sg leaf s =
     (case leaf_TimestampedEntry leaf of
        None \<Rightarrow> (HPanic, s)
      | Some te \<Rightarrow>
          let sctInput = \<lparr>sct_SCTVersion = V1, sct_LogID = replicate 32 0, sct_Timestamp = te_Timestamp te,
                sct_Extensions = te_Extensions te, sct_Signature = zero_DigitallySigned\<rparr>
          in case SerializeSCTSignatureInput sctInput (leaf_entry leaf) of
               Inl CtPanic \<Rightarrow> (HPanic, s)
             | Inl _ \<Rightarrow> fail StatusInternalServerError ''failed to generate SCT'' s
             | Inr data \<Rightarrow>
                 (case sign_digest sg (sum256 E data) s of
                    (None, s') \<Rightarrow> fail StatusInternalServerError ''failed to generate SCT'' s'
                  | (Some signature, s') \<Rightarrow>
                      (case GetCTLogID E (sg_Public sg) of
                         None \<Rightarrow> fail StatusInternalServerError ''failed to generate SCT'' s'
                       | Some logID \<Rightarrow>
                           ret (sctInput\<lparr>sct_LogID := logID, sct_Signature := digitally_signed (sg_Public sg) signature\<rparr>) s')))"

section \<open>Leaves for the backend\<close>

definition ExtraDataForChain :: "ASN1Cert \<Rightarrow> ASN1Cert list \<Rightarrow> bool \<Rightarrow> ct_error + bytes" where
  "ExtraDataForChain cert chain isPrecert =
     (if isPrecert
      then marshal_ct T_PrecertChainEntry v_PrecertChainEntry \<lparr>pce_PreCertificate = cert, pce_CertificateChain = chain\<rparr>
      else marshal_ct T_CertificateChain v_CertificateChain \<lparr>chain_Entries = chain\<rparr>)"

definition BuildLogLeaf ::
    "(bytes \<Rightarrow> bytes) \<Rightarrow> MerkleTreeLeaf \<Rightarrow> int \<Rightarrow> ASN1Cert \<Rightarrow> ASN1Cert list \<Rightarrow> bool \<Rightarrow> ct_error + LogLeaf" where
  "BuildLogLeaf sha256 merkleLeaf leafIndex cert chain isPrecert =
     bind_res (marshal_ct T_MerkleTreeLeaf v_MerkleTreeLeaf merkleLeaf) (\<lambda>leafData.
     bind_res (ExtraDataForChain cert chain isPrecert) (\<lambda>extraData.
       Inr \<lparr>ll_LeafValue = leafData, ll_ExtraData = extraData, ll_LeafIndex = leafIndex,
            ll_LeafIdentityHash = sha256 (cert_Data cert)\<rparr>))"

definition buildLogLeafForAddChain ::
    "(bytes \<Rightarrow> bytes) \<Rightarrow> MerkleTreeLeaf \<Rightarrow> Certificate list \<Rightarrow> bool \<Rightarrow> ct_error + LogLeaf" where
  "buildLogLeafForAddChain sha256 merkleLeaf chain isPrecert =
     (case extractRawCerts chain of
        [] \<Rightarrow> Inl CtPanic
      | raw # raws \<Rightarrow> BuildLogLeaf sha256 merkleLeaf 0 raw raws isPrecert)"

section \<open>Errors\<close>

definition code_status :: "grpc_code \<Rightarrow> int" where
  "code_status c =
     (case c of
        OK \<Rightarrow> StatusOK
      | Canceled \<Rightarrow> StatusRequestTimeout
      | DeadlineExceeded \<Rightarrow> StatusRequestTimeout
      | InvalidArgument \<Rightarrow> StatusBadRequest
      | OutOfRange \<Rightarrow> StatusBadRequest
      | AlreadyExists \<Rightarrow> StatusBadRequest
      | NotFound \<Rightarrow> StatusNotFound
      | PermissionDenied \<Rightarrow> StatusForbidden
      | ResourceExhausted \<Rightarrow> StatusForbidden
      | Unauthenticated \<Rightarrow> StatusUnauthorized
      | FailedPrecondition \<Rightarrow> StatusPreconditionFailed
      | Aborted \<Rightarrow> StatusConflict
      | Unimplemented \<Rightarrow> StatusNotImplemented
      | Unavailable \<Rightarrow> StatusServiceUnavailable
      | _ \<Rightarrow> StatusInternalServerError)"

definition toHTTPStatus :: "('b, 'r) logInfo \<Rightarrow> log_error \<Rightarrow> int" where
  "toHTTPStatus li err =
     (let default = (case err of PlainErr _ \<Rightarrow> StatusInternalServerError | RpcStatus c \<Rightarrow> code_status c)
      in case li_ErrorMapper li of
           None \<Rightarrow> default
         | Some mapper \<Rightarrow> (case mapper err of Some status \<Rightarrow> status | None \<Rightarrow> default))"

text \<open>A call of the backend; an error is mapped to a status.\<close>

definition call ::
    "('b, 'r) logInfo \<Rightarrow> ('b \<Rightarrow> (log_error + 'a) \<times> 'b) \<Rightarrow> string \<Rightarrow> ('b, 'r) server \<Rightarrow> 'a hres \<times> ('b, 'r) server" where
  "call li rpc msg s =
     (case rpc (sv_backend s) of
        (Inl err, b) \<Rightarrow> (HErr (toHTTPStatus li err) msg, s\<lparr>sv_backend := b\<rparr>)
      | (Inr x, b) \<Rightarrow> (HOk x, s\<lparr>sv_backend := b\<rparr>))"

section \<open>Tree heads\<close>

definition chargeUser :: "('b, 'r) logInfo \<Rightarrow> http_request \<Rightarrow> charge" where
  "chargeUser li r = map_option (\<lambda>f. [f r]) (li_RemoteQuotaUser li)"

definition appendUserCharge :: "charge \<Rightarrow> string \<Rightarrow> charge" where
  "appendUserCharge a user = (case a of None \<Rightarrow> Some [user] | Some us \<Rightarrow> Some (us @ [user]))"

text \<open>The quota user travels in the context of the request.\<close>

definition getSignedLogRoot ::
    "('rp, 'ep, 'rand, 'o) ctfe_env \<Rightarrow> ('b, 'r) logInfo \<Rightarrow> string option \<Rightarrow> ('b, 'r) server \<Rightarrow>
       (log_error + LogRootV1) \<times> ('b, 'r) server" where
  "getSignedLogRoot E li quotaUser s =
     (let charge = (case quotaUser of None \<Rightarrow> None | Some u \<Rightarrow> appendUserCharge None u)
      in case GetLatestSignedLogRoot (li_rpcClient li) (li_logID li) charge (sv_backend s) of
           (Inl err, b) \<Rightarrow> (Inl err, s\<lparr>sv_backend := b\<rparr>)
         | (Inr slr, b) \<Rightarrow>
             (case slr of
                None \<Rightarrow> (Inl (PlainErr ''no log root returned''), s\<lparr>sv_backend := b\<rparr>)
              | Some logRoot \<Rightarrow>
                  (case ce_UnmarshalRoot E logRoot of
                     None \<Rightarrow> (Inl (PlainErr ''failed to unmarshal root''), s\<lparr>sv_backend := b\<rparr>)
                   | Some currentRoot \<Rightarrow>
                       if length (lr_RootHash currentRoot) \<noteq> 32
                       then (Inl (PlainErr ''bad hash size from backend''), s\<lparr>sv_backend := b\<rparr>)
                       else (Inr currentRoot, s\<lparr>sv_backend := b\<rparr>))))"

definition root_sth :: "LogRootV1 \<Rightarrow> SignedTreeHead" where
  "root_sth currentRoot =
     \<lparr>sth_Version = V1, sth_TreeSize = lr_TreeSize currentRoot,
      sth_Timestamp = lr_TimestampNanos currentRoot div 1000 div 1000,
      sth_SHA256RootHash = lr_RootHash currentRoot, sth_TreeHeadSignature = zero_DigitallySigned,
      sth_LogID = replicate 32 0\<rparr>"

definition GetSTH ::
    "('rp, 'ep, 'rand, 'o) ctfe_env \<Rightarrow> ('b, 'r) logInfo \<Rightarrow> string option \<Rightarrow> ('b, 'r) server \<Rightarrow>
       (log_error + SignedTreeHead) \<times> ('b, 'r) server" where
  "GetSTH E li quotaUser s =
     (case li_sthGetter li of
        FrozenSTHGetter sth \<Rightarrow> (Inr sth, s)
      | LogSTHGetter \<Rightarrow>
          (case getSignedLogRoot E li quotaUser s of
             (Inl err, s') \<Rightarrow> (Inl err, s')
           | (Inr currentRoot, s') \<Rightarrow>
               (case signV1TreeHead E (li_signer li) (root_sth currentRoot) s' of
                  (None, s'') \<Rightarrow> (Inl (PlainErr ''failed to sign tree head''), s'')
                | (Some sth, s'') \<Rightarrow>
                    if ds_Signature (sth_TreeHeadSignature sth) = []
                    then (Inl (PlainErr ''failed to sign tree head''), s'')
                    else (Inr sth, s'')))
      | MirrorSTHGetter st \<Rightarrow>
          (case getSignedLogRoot E li quotaUser s of
             (Inl err, s') \<Rightarrow> (Inl err, s')
           | (Inr currentRoot, s') \<Rightarrow> (st (sint (lr_TreeSize currentRoot)), s')))"

section \<open>Parameters of requests\<close>

definition rem_go :: "int \<Rightarrow> int \<Rightarrow> int" where
  "rem_go a b = a - b * quot_go a b"

text \<open>
  Arithmetic is on \<^verbatim>\<open>int64\<close>, with the wrap-around written out; a remainder by 0 panics.
\<close>

definition parseGetEntriesRange ::
    "bool \<Rightarrow> http_request \<Rightarrow> int \<Rightarrow> 's \<Rightarrow> (int \<times> int) hres \<times> 's" where
  "parseGetEntriesRange align r maxRange =
     (case ParseInt (rq_FormValue r ''start'') of
        None \<Rightarrow> fail StatusBadRequest ''bad range on get-entries request''
      | Some start \<Rightarrow>
          (case ParseInt (rq_FormValue r ''end'') of
             None \<Rightarrow> fail StatusBadRequest ''bad range on get-entries request''
           | Some end0 \<Rightarrow>
               if start < 0 \<or> end0 < 0 then fail StatusBadRequest ''bad range on get-entries request''
               else if start > end0 then fail StatusBadRequest ''bad range on get-entries request''
               else
                 let count = wrap64 (wrap64 (end0 - start) + 1);
                     end1 = (if count > maxRange then wrap64 (wrap64 (start + maxRange) - 1) else end0)
                 in if align \<and> count \<ge> maxRange
                    then if maxRange = 0 then (\<lambda>s. (HPanic, s))
                         else ret (start, wrap64 (end1 - rem_go (wrap64 (end1 + 1)) maxRange))
                    else ret (start, end1)))"

definition parseGetEntryAndProofParams :: "http_request \<Rightarrow> (int \<times> int) option" where
  "parseGetEntryAndProofParams r =
     (case ParseInt (rq_FormValue r ''leaf_index'') of
        None \<Rightarrow> None
      | Some leafIndex \<Rightarrow>
          (case ParseInt (rq_FormValue r ''tree_size'') of
             None \<Rightarrow> None
           | Some treeSize \<Rightarrow>
               if treeSize \<le> 0 then None
               else if leafIndex < 0 then None
               else if leafIndex \<ge> treeSize then None
               else Some (leafIndex, treeSize)))"

definition parseGetSTHConsistencyRange :: "http_request \<Rightarrow> (int \<times> int) option" where
  "parseGetSTHConsistencyRange r =
     (let firstVal = rq_FormValue r ''first''; secondVal = rq_FormValue r ''second''
      in if firstVal = [] then None
         else if secondVal = [] then None
         else (case ParseInt firstVal of
                 None \<Rightarrow> None
               | Some first \<Rightarrow>
                   (case ParseInt secondVal of
                      None \<Rightarrow> None
                    | Some second \<Rightarrow>
                        if first < 0 \<or> second < 0 then None
                        else if second < first then None
                        else Some (first, second))))"

text \<open>The loop that lists the indices; \<open>None\<close> when it does not end.\<close>

partial_function (option) indices_loop :: "int \<Rightarrow> int \<Rightarrow> int list \<Rightarrow> int list option" where
  "indices_loop i fin indices =
     (if i \<le> fin then indices_loop (wrap64 (i + 1)) fin (indices @ [i]) else Some indices)"

definition buildIndicesForRange :: "int \<Rightarrow> int \<Rightarrow> 's \<Rightarrow> int list hres \<times> 's" where
  "buildIndicesForRange start fin s =
     (if wrap64 (wrap64 (fin - start) + 1) < 0 then (HPanic, s)
      else case indices_loop start fin [] of None \<Rightarrow> (HLoop, s) | Some is \<Rightarrow> (HOk is, s))"

text \<open>The check that both ways of fetching make: the leaves have the indices from \<open>start\<close> on.\<close>

fun consecutive_from :: "int \<Rightarrow> LogLeaf list \<Rightarrow> bool" where
  "consecutive_from start [] = True"
| "consecutive_from start (l # ls) \<longleftrightarrow> ll_LeafIndex l = start \<and> consecutive_from (wrap64 (start + 1)) ls"

definition sortLeafRange :: "LogLeaf list \<Rightarrow> int \<Rightarrow> int \<Rightarrow> LogLeaf list option" where
  "sortLeafRange leaves start fin =
     (if int (length leaves) > wrap64 (wrap64 (fin + 1) - start) then None
      else let leaves_sorted = sort_key ll_LeafIndex leaves
           in if consecutive_from start leaves_sorted then Some leaves_sorted else None)"

definition checkAuditPath :: "bytes list \<Rightarrow> bool" where
  "checkAuditPath nodes = list_all (\<lambda>node. length node = 32) nodes"

section \<open>Requests that add entries\<close>

datatype http_body =
    AddChainBody AddChainResponse
  | STHBody GetSTHResponse
  | ConsistencyBody "bytes list"
  | ProofBody int "bytes list"
  | EntriesBody "LeafEntry list"
  | RootsBody "bytes list"
  | EntryAndProofBody bytes bytes "bytes list option"
  | ErrorPage "string option"

text \<open>The last step of a handler: \<^verbatim>\<open>json.Marshal\<close> does not fail on these structures, the write may.\<close>

definition write_body :: "http_request \<Rightarrow> http_body \<Rightarrow> 's \<Rightarrow> http_body hres \<times> 's" where
  "write_body r body =
     (if rq_writeOk r then ret body else fail StatusInternalServerError ''failed to write response'')"

definition ParseBodyAsJSONChain :: "(bytes \<Rightarrow> bytes list option) \<Rightarrow> http_request \<Rightarrow> bytes list option" where
  "ParseBodyAsJSONChain json r =
     (case rq_Body r of
        None \<Rightarrow> None
      | Some body \<Rightarrow>
          (case json body of
             None \<Rightarrow> None
           | Some chain \<Rightarrow> if chain = [] then None else Some chain))"

definition try_chain :: "chain_err + 'a \<Rightarrow> string \<Rightarrow> 's \<Rightarrow> 'a hres \<times> 's" where
  "try_chain res msg s =
     (case res of
        Inl ChainPanic \<Rightarrow> (HPanic, s)
      | Inl _ \<Rightarrow> (HErr StatusBadRequest msg, s)
      | Inr x \<Rightarrow> (HOk x, s))"

definition try_ct :: "ct_error + 'a \<Rightarrow> int \<Rightarrow> string \<Rightarrow> 's \<Rightarrow> 'a hres \<times> 's" where
  "try_ct res status msg s =
     (case res of
        Inl CtPanic \<Rightarrow> (HPanic, s)
      | Inl _ \<Rightarrow> (HErr status msg, s)
      | Inr x \<Rightarrow> (HOk x, s))"

definition try_run :: "(ct_error, 'a) run \<Rightarrow> int \<Rightarrow> string \<Rightarrow> 's \<Rightarrow> 'a hres \<times> 's" where
  "try_run run status msg s = (case run of None \<Rightarrow> (HLoop, s) | Some res \<Rightarrow> try_ct res status msg s)"

definition marshalAndWriteAddChainResponse ::
    "('rp, 'ep, 'rand, 'o) ctfe_env \<Rightarrow> http_request \<Rightarrow> SignedCertificateTimestamp \<Rightarrow> 'r signer \<Rightarrow>
       ('b, 'r) server \<Rightarrow> http_body hres \<times> ('b, 'r) server" where
  "marshalAndWriteAddChainResponse E r sct sg =
     bind_h (try_option (GetCTLogID E (sg_Public sg)) StatusInternalServerError ''failed to write response'') (\<lambda>logID.
     bind_h (try_ct (marshal_ct T_DigitallySigned v_DigitallySigned (sct_Signature sct))
               StatusInternalServerError ''failed to write response'') (\<lambda>sig.
       write_body r (AddChainBody
         \<lparr>acr_SCTVersion = sct_SCTVersion sct, acr_ID = logID, acr_Timestamp = sct_Timestamp sct,
          acr_Extensions = EncodeToString (sct_Extensions sct), acr_Signature = sig\<rparr>)))"

definition chain_charge :: "('b, 'r) logInfo \<Rightarrow> http_request \<Rightarrow> Certificate list \<Rightarrow> charge" where
  "chain_charge li r chain =
     (case li_CertificateQuotaUser li of
        None \<Rightarrow> chargeUser li r
      | Some quotaUser \<Rightarrow> foldl (\<lambda>c cert. appendUserCharge c (quotaUser cert)) (chargeUser li r) (tl chain))"

definition addChainInternal ::
    "('rp, 'ep, 'rand, 'o) ctfe_env \<Rightarrow> ('b, 'r) logInfo \<Rightarrow> bool \<Rightarrow> http_request \<Rightarrow> ('b, 'r) server \<Rightarrow>
       http_body hres \<times> ('b, 'r) server" where
  "addChainInternal E li isPrecert r =
     (let etype = (if isPrecert then PrecertLogEntryType else X509LogEntryType);
          timeMillis = word_of_int (quot_go (rq_now r) 1000000)
      in bind_h (try_option (ParseBodyAsJSONChain (ce_json_chain E) r) StatusBadRequest ''failed to parse add-chain body'') (\<lambda>req_Chain.
         bind_h (try_chain (verifyAddChain (ce_env E) (sum256 E) (ce_ParseCertificate E) (li_validationOpts li) req_Chain isPrecert)
                   ''failed to verify add-chain contents'') (\<lambda>chain.
         bind_h (try_ct (MerkleTreeLeafFromChain (sum256 E) (ce_codec E) (map Some chain) etype timeMillis)
                   StatusBadRequest ''failed to build MerkleTreeLeaf'') (\<lambda>merkleLeaf.
         bind_h (try_ct (buildLogLeafForAddChain (sum256 E) merkleLeaf chain isPrecert)
                   StatusInternalServerError ''failed to build LogLeaf'') (\<lambda>leaf.
         bind_h (call li (QueueLeaves (li_rpcClient li) (li_logID li) [leaf] (chain_charge li r chain))
                   ''backend QueueLeaves request failed'') (\<lambda>rsp.
         bind_h (try_option rsp StatusInternalServerError ''missing QueueLeaves response'') (\<lambda>queuedLeaves.
         bind_h (require (length queuedLeaves = 1) StatusInternalServerError ''unexpected QueueLeaves response leaf count'') (\<lambda>_.
         bind_h (not_nil (hd queuedLeaves)) (\<lambda>queuedLeaf.
         bind_h (try_run (unmarshal_all ''MerkleTreeLeaf'' T_MerkleTreeLeaf of_MerkleTreeLeaf (ll_LeafValue queuedLeaf))
                   StatusInternalServerError ''failed to reconstruct MerkleTreeLeaf'') (\<lambda>loggedLeaf.
         bind_h (buildV1SCT E (li_signer li) loggedLeaf) (\<lambda>sct.
         bind_h (try_ct (marshal_ct T_SignedCertificateTimestamp v_SignedCertificateTimestamp sct)
                   StatusInternalServerError ''failed to marshall SCT'') (\<lambda>sctBytes.
           marshalAndWriteAddChainResponse E r sct (li_signer li)))))))))))))"

definition ctfe_addChain ::
    "('rp, 'ep, 'rand, 'o) ctfe_env \<Rightarrow> ('b, 'r) logInfo \<Rightarrow> http_request \<Rightarrow> ('b, 'r) server \<Rightarrow> http_body hres \<times> ('b, 'r) server" where
  "ctfe_addChain E li r = addChainInternal E li False r"

definition ctfe_addPreChain ::
    "('rp, 'ep, 'rand, 'o) ctfe_env \<Rightarrow> ('b, 'r) logInfo \<Rightarrow> http_request \<Rightarrow> ('b, 'r) server \<Rightarrow> http_body hres \<times> ('b, 'r) server" where
  "ctfe_addPreChain E li r = addChainInternal E li True r"

section \<open>Requests that read the log\<close>

definition writeSTH ::
    "http_request \<Rightarrow> SignedTreeHead \<Rightarrow> ('b, 'r) server \<Rightarrow> http_body hres \<times> ('b, 'r) server" where
  "writeSTH r sth =
     bind_h (try_ct (marshal_ct T_DigitallySigned v_DigitallySigned (sth_TreeHeadSignature sth))
               StatusInternalServerError ''failed to tls.Marshal signature'') (\<lambda>sig.
       write_body r (STHBody
         \<lparr>gsr_TreeSize = sth_TreeSize sth, gsr_Timestamp = sth_Timestamp sth,
          gsr_SHA256RootHash = sth_SHA256RootHash sth, gsr_TreeHeadSignature = sig\<rparr>))"

definition getSTH ::
    "('rp, 'ep, 'rand, 'o) ctfe_env \<Rightarrow> ('b, 'r) logInfo \<Rightarrow> http_request \<Rightarrow> ('b, 'r) server \<Rightarrow> http_body hres \<times> ('b, 'r) server" where
  "getSTH E li r s =
     (case GetSTH E li (map_option (\<lambda>f. f r) (li_RemoteQuotaUser li)) s of
        (Inl err, s') \<Rightarrow> fail (toHTTPStatus li err) ''failed to get STH'' s'
      | (Inr sth, s') \<Rightarrow> writeSTH r sth s')"

text \<open>\<^verbatim>\<open>uint64(x)\<close> of an \<^verbatim>\<open>int64\<close>.\<close>

definition to_uint64 :: "int \<Rightarrow> u64" where
  "to_uint64 x = word_of_int x"

definition getSTHConsistency ::
    "('rp, 'ep, 'rand, 'o) ctfe_env \<Rightarrow> ('b, 'r) logInfo \<Rightarrow> http_request \<Rightarrow> ('b, 'r) server \<Rightarrow> http_body hres \<times> ('b, 'r) server" where
  "getSTHConsistency E li r =
     bind_h (try_option (parseGetSTHConsistencyRange r) StatusBadRequest ''failed to parse consistency range'') (\<lambda>(first, second).
     bind_h
       (if first \<noteq> 0 then
          bind_h (call li (GetConsistencyProof (li_rpcClient li) (li_logID li) first second (chargeUser li r))
                    ''backend GetConsistencyProof request failed'') (\<lambda>(logRoot, proof).
          bind_h (try_option (ce_UnmarshalRoot E logRoot) StatusInternalServerError ''failed to unmarshal root'') (\<lambda>currentRoot.
          bind_h (require (\<not> lr_TreeSize currentRoot < to_uint64 second) StatusBadRequest ''need larger tree size for proof'') (\<lambda>_.
          bind_h (not_nil proof) (\<lambda>hashes.
          bind_h (require (checkAuditPath (case hashes of None \<Rightarrow> [] | Some hs \<Rightarrow> hs)) StatusInternalServerError
                    ''backend returned invalid proof'') (\<lambda>_.
            ret (case hashes of None \<Rightarrow> [] | Some hs \<Rightarrow> hs))))))
        else ret [])
       (\<lambda>consistency. write_body r (ConsistencyBody consistency)))"

definition getProofByHash ::
    "('rp, 'ep, 'rand, 'o) ctfe_env \<Rightarrow> ('b, 'r) logInfo \<Rightarrow> http_request \<Rightarrow> ('b, 'r) server \<Rightarrow> http_body hres \<times> ('b, 'r) server" where
  "getProofByHash E li r =
     bind_h (require (rq_FormValue r ''hash'' \<noteq> []) StatusBadRequest ''get-proof-by-hash: missing / empty hash param'') (\<lambda>_.
     bind_h (try_option (DecodeString (rq_FormValue r ''hash'')) StatusBadRequest ''get-proof-by-hash: invalid base64 hash'') (\<lambda>leafHash.
     bind_h (try_option (ParseInt (rq_FormValue r ''tree_size'')) StatusBadRequest
               ''get-proof-by-hash: missing or invalid tree_size'') (\<lambda>treeSize.
     bind_h (require (\<not> treeSize < 1) StatusBadRequest ''get-proof-by-hash: missing or invalid tree_size'') (\<lambda>_.
     bind_h (call li (GetInclusionProofByHash (li_rpcClient li) (li_logID li) leafHash treeSize (chargeUser li r))
               ''backend GetInclusionProofByHash request failed'') (\<lambda>(logRoot, proofs).
     bind_h (try_option (ce_UnmarshalRoot E logRoot) StatusInternalServerError ''failed to unmarshal root'') (\<lambda>currentRoot.
     bind_h (require (\<not> lr_TreeSize currentRoot < to_uint64 treeSize) StatusNotFound ''log returned smaller tree size'') (\<lambda>_.
       case proofs of
         [] \<Rightarrow> fail StatusNotFound ''get-proof-by-hash: backend did not return a proof''
       | (leafIndex, hashes) # _ \<Rightarrow>
           bind_h (require (checkAuditPath (case hashes of None \<Rightarrow> [] | Some hs \<Rightarrow> hs)) StatusInternalServerError
                     ''get-proof-by-hash: backend returned invalid proof'') (\<lambda>_.
             write_body r (ProofBody leafIndex (case hashes of None \<Rightarrow> [] | Some hs \<Rightarrow> hs))))))))))"

text \<open>
  The leaves are decoded only to log an error; the response has their bytes as they are. The decoder
  may not return and may panic, as far as this definition goes.
\<close>

fun marshalGetEntriesResponse :: "LogLeaf list \<Rightarrow> 's \<Rightarrow> LeafEntry list hres \<times> 's" where
  "marshalGetEntriesResponse [] s = (HOk [], s)"
| "marshalGetEntriesResponse (leaf # leaves) s =
     (case unmarshal_all ''MerkleTreeLeaf'' T_MerkleTreeLeaf of_MerkleTreeLeaf (ll_LeafValue leaf) of
        None \<Rightarrow> (HLoop, s)
      | Some (Inl CtPanic) \<Rightarrow> (HPanic, s)
      | Some _ \<Rightarrow>
          bind_h (marshalGetEntriesResponse leaves) (\<lambda>entries.
            ret (\<lparr>lentry_LeafInput = ll_LeafValue leaf, lentry_ExtraData = ll_ExtraData leaf\<rparr> # entries)) s)"

definition fetch_by_range ::
    "('rp, 'ep, 'rand, 'o) ctfe_env \<Rightarrow> ('b, 'r) logInfo \<Rightarrow> http_request \<Rightarrow> int \<Rightarrow> int \<Rightarrow> ('b, 'r) server \<Rightarrow>
       LogLeaf list hres \<times> ('b, 'r) server" where
  "fetch_by_range E li r start fin =
     (let count = wrap64 (wrap64 (fin + 1) - start) in
      bind_h (call li (GetLeavesByRange (li_rpcClient li) (li_logID li) start count (chargeUser li r))
                ''backend GetLeavesByRange request failed'') (\<lambda>(logRoot, leaves).
      bind_h (try_option (ce_UnmarshalRoot E logRoot) StatusInternalServerError ''failed to unmarshal root'') (\<lambda>currentRoot.
      bind_h (require (\<not> lr_TreeSize currentRoot \<le> to_uint64 start) StatusBadRequest ''need larger tree size to get leaves'') (\<lambda>_.
      bind_h (require (\<not> int (length leaves) > count) StatusInternalServerError ''backend returned too many leaves'') (\<lambda>_.
      bind_h (require (consecutive_from start leaves) StatusInternalServerError ''backend returned unexpected leaf index'') (\<lambda>_.
        ret leaves))))))"

definition fetch_by_index ::
    "('rp, 'ep, 'rand, 'o) ctfe_env \<Rightarrow> ('b, 'r) logInfo \<Rightarrow> http_request \<Rightarrow> int \<Rightarrow> int \<Rightarrow> ('b, 'r) server \<Rightarrow>
       LogLeaf list hres \<times> ('b, 'r) server" where
  "fetch_by_index E li r start fin =
     bind_h (buildIndicesForRange start fin) (\<lambda>indices.
     bind_h (call li (GetLeavesByIndex (li_rpcClient li) (li_logID li) indices (chargeUser li r))
               ''backend GetLeavesByIndex request failed'') (\<lambda>(logRoot, leaves).
     bind_h (try_option (ce_UnmarshalRoot E logRoot) StatusInternalServerError ''failed to unmarshal root'') (\<lambda>currentRoot.
     bind_h (require (\<not> lr_TreeSize currentRoot \<le> to_uint64 start) StatusBadRequest ''need larger tree size to get leaves'') (\<lambda>_.
       try_option (sortLeafRange leaves start fin) StatusInternalServerError ''backend get-entries range invalid''))))"

definition getEntries ::
    "('rp, 'ep, 'rand, 'o) ctfe_env \<Rightarrow> ('b, 'r) logInfo \<Rightarrow> http_request \<Rightarrow> ('b, 'r) server \<Rightarrow> http_body hres \<times> ('b, 'r) server" where
  "getEntries E li r =
     bind_h (parseGetEntriesRange (ce_alignGetEntries E) r (ce_MaxGetEntriesAllowed E)) (\<lambda>(start, fin).
     bind_h (if ce_getByRange E then fetch_by_range E li r start fin else fetch_by_index E li r start fin) (\<lambda>leaves.
     bind_h (marshalGetEntriesResponse leaves) (\<lambda>entries.
       write_body r (EntriesBody entries))))"

definition getRoots :: "('b, 'r) logInfo \<Rightarrow> http_request \<Rightarrow> ('b, 'r) server \<Rightarrow> http_body hres \<times> ('b, 'r) server" where
  "getRoots li r = write_body r (RootsBody (map Raw (rawCerts (cv_trustedRoots (li_validationOpts li)))))"

definition getEntryAndProof ::
    "('rp, 'ep, 'rand, 'o) ctfe_env \<Rightarrow> ('b, 'r) logInfo \<Rightarrow> http_request \<Rightarrow> ('b, 'r) server \<Rightarrow> http_body hres \<times> ('b, 'r) server" where
  "getEntryAndProof E li r =
     bind_h (try_option (parseGetEntryAndProofParams r) StatusBadRequest ''failed to parse get-entry-and-proof params'')
       (\<lambda>(leafIndex, treeSize).
     bind_h (call li (rpc_GetEntryAndProof (li_rpcClient li) (li_logID li) leafIndex treeSize (chargeUser li r))
               ''backend GetEntryAndProof request failed'') (\<lambda>(logRoot, rspLeaf, rspProof).
     bind_h (try_option (ce_UnmarshalRoot E logRoot) StatusInternalServerError ''failed to unmarshal root'') (\<lambda>currentRoot.
     bind_h (require (\<not> lr_TreeSize currentRoot < to_uint64 treeSize) StatusBadRequest ''need larger tree size for proof'') (\<lambda>_.
       case (rspLeaf, rspProof) of
         (Some leaf, Some hashes) \<Rightarrow>
           bind_h (require (ll_LeafValue leaf \<noteq> []) StatusInternalServerError ''got RPC bad response'') (\<lambda>_.
           bind_h (require (\<not> (treeSize > 1 \<and> (case hashes of None \<Rightarrow> True | Some hs \<Rightarrow> hs = []))) StatusInternalServerError
                     ''got RPC bad response (missing proof)'') (\<lambda>_.
             write_body r (EntryAndProofBody (ll_LeafValue leaf) (ll_ExtraData leaf) hashes)))
       | _ \<Rightarrow> fail StatusInternalServerError ''got RPC bad response''))))"

section \<open>Serving requests\<close>

datatype EntrypointName =
    AddChainName | AddPreChainName | GetSTHName | GetSTHConsistencyName | GetProofByHashName | GetEntriesName
  | GetRootsName | GetEntryAndProofName

record ('b, 'r) AppHandler =
  ah_Info :: "('b, 'r) logInfo"
  ah_Handler :: "('b, 'r) logInfo \<Rightarrow> http_request \<Rightarrow> ('b, 'r) server \<Rightarrow> http_body hres \<times> ('b, 'r) server"
  ah_Name :: EntrypointName
  ah_Method :: string

datatype reply = Reply int http_body | ReplyPanicked | Unanswered

text \<open>The page starts with the text of the status; the detail is there or not.\<close>

definition SendHTTPError :: "('b, 'r) logInfo \<Rightarrow> int \<Rightarrow> string \<Rightarrow> reply" where
  "SendHTTPError li statusCode err =
     Reply statusCode (ErrorPage
       (if \<not> li_MaskInternalErrors li \<or> statusCode \<noteq> StatusInternalServerError then Some err else None))"

text \<open>A handler that returns without an error returns \<^verbatim>\<open>StatusOK\<close>.\<close>

definition ServeHTTP :: "('b, 'r) AppHandler \<Rightarrow> http_request \<Rightarrow> ('b, 'r) server \<Rightarrow> reply \<times> ('b, 'r) server" where
  "ServeHTTP a r s =
     (if rq_Method r \<noteq> ah_Method a
      then (SendHTTPError (ah_Info a) StatusMethodNotAllowed ''method not allowed'', s)
      else if rq_Method r = ''GET'' \<and> \<not> rq_formOk r
      then (SendHTTPError (ah_Info a) StatusBadRequest ''failed to parse form data'', s)
      else case ah_Handler a (ah_Info a) r s of
             (HOk body, s') \<Rightarrow> (Reply StatusOK body, s')
           | (HErr statusCode err, s') \<Rightarrow> (SendHTTPError (ah_Info a) statusCode err, s')
           | (HPanic, s') \<Rightarrow> (ReplyPanicked, s')
           | (HLoop, s') \<Rightarrow> (Unanswered, s'))"

definition trim_slashes :: "string \<Rightarrow> string" where
  "trim_slashes s = rev (dropWhile (\<lambda>c. c = CHR ''/'') (rev s))"

definition url_prefix :: "string \<Rightarrow> string" where
  "url_prefix prefix = trim_slashes (if has_prefix prefix ''/'' then prefix else ''/'' @ prefix)"

definition Handlers ::
    "('rp, 'ep, 'rand, 'o) ctfe_env \<Rightarrow> ('b, 'r) logInfo \<Rightarrow> string \<Rightarrow> (string \<rightharpoonup> ('b, 'r) AppHandler)" where
  "Handlers E li prefix =
     (let p = url_prefix prefix;
          h = (\<lambda>f name method. \<lparr>ah_Info = li, ah_Handler = f, ah_Name = name, ah_Method = method\<rparr>);
          ph = map_of
            [(p @ ''/ct/v1/add-chain'', h (ctfe_addChain E) AddChainName ''POST''),
             (p @ ''/ct/v1/add-pre-chain'', h (ctfe_addPreChain E) AddPreChainName ''POST''),
             (p @ ''/ct/v1/get-sth'', h (getSTH E) GetSTHName ''GET''),
             (p @ ''/ct/v1/get-sth-consistency'', h (getSTHConsistency E) GetSTHConsistencyName ''GET''),
             (p @ ''/ct/v1/get-proof-by-hash'', h (getProofByHash E) GetProofByHashName ''GET''),
             (p @ ''/ct/v1/get-entries'', h (getEntries E) GetEntriesName ''GET''),
             (p @ ''/ct/v1/get-roots'', h getRoots GetRootsName ''GET''),
             (p @ ''/ct/v1/get-entry-and-proof'', h (getEntryAndProof E) GetEntryAndProofName ''GET'')]
      in if li_IsMirror li then ph(p @ ''/ct/v1/add-chain'' := None, p @ ''/ct/v1/add-pre-chain'' := None) else ph)"

end
