(* ===== verification/CTFE_Serving.thy ===== *)
theory CTFE_Serving
  imports CTFE_Log
begin

text \<open>
  What the log front end guarantees: an accepted submission gets an SCT that the log's key verifies, every
  tree head that is served verifies whatever requests came before, entries are returned in order and within
  the limits, every request is answered, and internal errors stay internal.
\<close>

section \<open>Rules for handlers\<close>

named_theorems handler_simps \<open>inversion of successful handler steps\<close>

lemma bind_h_HOk [handler_simps]:
  "bind_h m f s = (HOk y, s'') \<longleftrightarrow> (\<exists>x s'. m s = (HOk x, s') \<and> f x s' = (HOk y, s''))"
  by (cases "m s"; cases "fst (m s)") (auto simp: bind_h_def)

lemma step_HOk [handler_simps]:
  "ret x s = (HOk y, s') \<longleftrightarrow> y = x \<and> s' = s"
  "fail status msg s \<noteq> (HOk y, s')"
  "require b status msg s = (HOk u, s') \<longleftrightarrow> b \<and> s' = s"
  "try_option r status msg s = (HOk z, s') \<longleftrightarrow> r = Some z \<and> s' = s"
  "not_nil p s = (HOk v, s') \<longleftrightarrow> p = Some v \<and> s' = s"
  "write_body rq body s = (HOk w, s') \<longleftrightarrow> rq_writeOk rq \<and> w = body \<and> s' = s"
  by (auto simp: ret_def fail_def require_def try_option_def not_nil_def write_body_def split: option.splits)

lemma try_ct_HOk [handler_simps]: "try_ct res status msg s = (HOk x, s') \<longleftrightarrow> res = Inr x \<and> s' = s"
proof (cases res)
  case (Inl e)
  then show ?thesis by (cases e) (simp_all add: try_ct_def)
qed (auto simp: try_ct_def)

lemma try_run_HOk [handler_simps]: "try_run run status msg s = (HOk x, s') \<longleftrightarrow> run = Some (Inr x) \<and> s' = s"
  by (auto simp: try_run_def try_ct_HOk split: option.splits)

lemma try_chain_HOk [handler_simps]: "try_chain res msg s = (HOk x, s') \<longleftrightarrow> res = Inr x \<and> s' = s"
proof (cases res)
  case (Inl e)
  then show ?thesis by (cases e) (simp_all add: try_chain_def)
qed (auto simp: try_chain_def)

lemma call_HOk [handler_simps]:
  "call li rpc msg s = (HOk x, s') \<longleftrightarrow> (\<exists>b. rpc (sv_backend s) = (Inr x, b) \<and> s' = s\<lparr>sv_backend := b\<rparr>)"
  by (auto simp: call_def split: prod.splits sum.splits)

section \<open>Signatures\<close>

abbreviation ctfe_ops :: "('rp, 'ep, 'rand, 'o) ctfe_env \<Rightarrow> ('rp, 'ep, 'rand) x509_ops" where
  "ctfe_ops E \<equiv> env_ops (ce_env E)"

text \<open>
  What the signer is relied on for: a signature it returns is accepted by the verification primitive of
  its public key, which is an RSA or ECDSA key. (The length of a slice is an \<^verbatim>\<open>int\<close>.)
\<close>

definition signer_law :: "('rp, 'ep, 'rand, 'o) ctfe_env \<Rightarrow> 'r signer \<Rightarrow> bool" where
  "signer_law E sg \<longleftrightarrow> (\<forall>digest rnd sig rnd'. sg_Sign sg digest rnd = (Some sig, rnd') \<longrightarrow>
     length sig < 2 ^ 63 \<and>
     (case sg_Public sg of
        PubRSA k \<Rightarrow> rsa_verify (ctfe_ops E) k CryptoSHA256 digest sig
      | PubECDSA k \<Rightarrow>
          (case dsaSig_unmarshal (ctfe_ops E) sig of
             None \<Rightarrow> False
           | Some (R, S, rest) \<Rightarrow> 0 < R \<and> 0 < S \<and> ecdsa_verify (ctfe_ops E) k digest R S)
      | _ \<Rightarrow> False))"

definition sha256_law :: "('rp, 'ep, 'rand, 'o) ctfe_env \<Rightarrow> bool" where
  "sha256_law E \<longleftrightarrow> (\<forall>b. length (sum256 E b) = 32)"

abbreviation key_verifies :: "('rp, 'ep, 'rand, 'o) ctfe_env \<Rightarrow> PublicKey \<Rightarrow> bytes \<Rightarrow> DigitallySigned \<Rightarrow> bool" where
  "key_verifies E pk data ds \<equiv> VerifySignature (crypto_ops.truncate (ctfe_ops E)) (tls_key pk) data ds = Inr ()"

lemma signer_verifies:
  assumes "signer_law E sg" and "sign_digest sg (sum256 E data) s = (Some sig, s')"
  shows "key_verifies E (sg_Public sg) data (digitally_signed (sg_Public sg) sig)" (is ?v)
    and "has_type T_DigitallySigned (v_DigitallySigned (digitally_signed (sg_Public sg) sig))" (is ?t)
proof -
  obtain rnd where "sg_Sign sg (sum256 E data) (sv_rand s) = (Some sig, rnd)"
    using assms(2) by (auto simp: sign_digest_def split: prod.splits)
  then have "length sig < 2 ^ 63" "case sg_Public sg of
        PubRSA k \<Rightarrow> rsa_verify (ctfe_ops E) k CryptoSHA256 (sum256 E data) sig
      | PubECDSA k \<Rightarrow>
          (case dsaSig_unmarshal (ctfe_ops E) sig of
             None \<Rightarrow> False
           | Some (R, S, rest) \<Rightarrow> 0 < R \<and> 0 < S \<and> ecdsa_verify (ctfe_ops E) k (sum256 E data) R S)
      | _ \<Rightarrow> False" using assms(1) unfolding signer_law_def by blast+
  then show "key_verifies E (sg_Public sg) data (digitally_signed (sg_Public sg) sig)"
    by (auto simp: VerifySignature_def digitally_signed_def generateHash_def alg_defs tls_key_def sum256_def
        SignatureAlgorithmFromPubKey_def crypto_ops.truncate_def linorder_not_less [symmetric]
        split: PublicKey.splits option.splits prod.splits)
  show ?t using \<open>length sig < 2 ^ 63\<close>
    by (simp add: T_DigitallySigned_def v_DigitallySigned_def T_SignatureAndHashAlgorithm_def kind_uint8_def digitally_signed_def)
qed


lemma SerializeSCT_key_id:
  "SerializeSCTSignatureInput (sct\<lparr>sct_LogID := i, sct_Signature := d\<rparr>) entry = SerializeSCTSignatureInput sct entry"
  by (simp add: SerializeSCTSignatureInput_def Let_def split: option.split)

lemma buildV1SCT_HOk:
  "buildV1SCT E sg leaf s = (HOk sct, s') \<longleftrightarrow>
     (\<exists>te data sig logID. leaf_TimestampedEntry leaf = Some te \<and>
        SerializeSCTSignatureInput sct (leaf_entry leaf) = Inr data \<and>
        sign_digest sg (sum256 E data) s = (Some sig, s') \<and> GetCTLogID E (sg_Public sg) = Some logID \<and>
        sct = \<lparr>sct_SCTVersion = V1, sct_LogID = logID, sct_Timestamp = te_Timestamp te,
               sct_Extensions = te_Extensions te, sct_Signature = digitally_signed (sg_Public sg) sig\<rparr>)"
proof (cases "leaf_TimestampedEntry leaf")
  case (Some te)
  define S where "S = SerializeSCTSignatureInput \<lparr>sct_SCTVersion = V1, sct_LogID = replicate 32 0,
    sct_Timestamp = te_Timestamp te, sct_Extensions = te_Extensions te, sct_Signature = zero_DigitallySigned\<rparr>"
  have eq: "SerializeSCTSignatureInput \<lparr>sct_SCTVersion = V1, sct_LogID = i, sct_Timestamp = te_Timestamp te,
      sct_Extensions = te_Extensions te, sct_Signature = d\<rparr> en = S en" for i d en
    unfolding S_def using SerializeSCT_key_id [where sct = "\<lparr>sct_SCTVersion = V1, sct_LogID = replicate 32 0,
      sct_Timestamp = te_Timestamp te, sct_Extensions = te_Extensions te, sct_Signature = zero_DigitallySigned\<rparr>"
      and i = i and d = d and entry = en] by simp
  show ?thesis
  proof (cases "S (leaf_entry leaf)")
    case (Inl e)
    then show ?thesis using Some by (cases e) (auto simp: buildV1SCT_def Let_def eq step_HOk)
  next
    case (Inr data)
    then show ?thesis using Some
      by (auto simp: buildV1SCT_def Let_def eq handler_simps split: prod.splits option.splits)
  qed
qed (simp add: buildV1SCT_def)

text \<open>A response with an SCT, from the SCT.\<close>

lemma AddChainResponse_HOk:
  assumes "marshalAndWriteAddChainResponse E r sct sg s = (HOk body, s')" and "sha256_law E"
    and "has_type T_DigitallySigned (v_DigitallySigned (sct_Signature sct))"
    and "GetCTLogID E (sg_Public sg) = Some (sct_LogID sct)"
  shows "\<exists>rsp. body = AddChainBody rsp \<and> ToSignedCertificateTimestamp rsp = Some (Inr sct) \<and> s' = s"
proof -
  obtain sig where sig: "marshal_ct T_DigitallySigned v_DigitallySigned (sct_Signature sct) = Inr sig"
    and body: "body = AddChainBody \<lparr>acr_SCTVersion = sct_SCTVersion sct, acr_ID = sct_LogID sct,
        acr_Timestamp = sct_Timestamp sct, acr_Extensions = EncodeToString (sct_Extensions sct), acr_Signature = sig\<rparr>"
    and s: "s' = s"
    using assms(1,4) by (auto simp: marshalAndWriteAddChainResponse_def handler_simps)
  obtain k where "sct_LogID sct = sum256 E k" using assms(4) unfolding GetCTLogID_def by (metis map_option_eq_Some)
  then have "length (sct_LogID sct) = 32" using assms(2) by (simp add: sha256_law_def)
  moreover have "unmarshal_all ''DigitallySigned'' T_DigitallySigned of_DigitallySigned sig = Some (Inr (sct_Signature sct))"
    using sig assms(3) by (simp add: ds.unmarshal_all_iff ds.marshal_ct_iff)
  ultimately show ?thesis using body s by (simp add: ToSignedCertificateTimestamp_def)
qed

lemma leaf_timestamp:
  assumes "MerkleTreeLeafFromChain sha256 codec chain etype ts = Inr leaf"
  shows "\<exists>te. leaf_TimestampedEntry leaf = Some te \<and> te_Timestamp te = ts"
proof -
  have c: "(case res of Inl _ \<Rightarrow> Inl e | Inr d \<Rightarrow> F d) = Inr y \<longleftrightarrow> (\<exists>d. res = Inr d \<and> F d = Inr y)"
    for res :: "'x + 'y" and F and e :: ct_error and y :: MerkleTreeLeaf
    by (cases res) simp_all
  show ?thesis using assms
    by (auto simp: MerkleTreeLeafFromChain_def result_simps c CreateX509MerkleTreeLeaf_def precert_leaf_def
        split: if_splits list.splits)
qed

text \<open>A request that adds a chain and is answered, with everything that happened on the way.\<close>

lemma add_chain_result:
  assumes "addChainInternal E li isPrecert r s = (HOk body, s')"
    and "signer_law E (li_signer li)" and "sha256_law E"
    and "pool_inv (certPool (cv_trustedRoots (li_validationOpts li)))"
  obtains req ch leaf queued returned logged b rsp sct te where
    "ParseBodyAsJSONChain (ce_json_chain E) r = Some req"
    "compliant_chain (ce_env E) (sum256 E) (ce_ParseCertificate E) req (li_validationOpts li) ch"
    "MerkleTreeLeafFromChain (sum256 E) (ce_codec E) (map Some ch)
       (if isPrecert then PrecertLogEntryType else X509LogEntryType) (word_of_int (quot_go (rq_now r) 1000000)) = Inr leaf"
    "marshal_ct T_MerkleTreeLeaf v_MerkleTreeLeaf leaf = Inr (ll_LeafValue queued)"
    "QueueLeaves (li_rpcClient li) (li_logID li) [queued] (chain_charge li r ch) (sv_backend s) = (Inr (Some [Some returned]), b)"
    "unmarshal_all ''MerkleTreeLeaf'' T_MerkleTreeLeaf of_MerkleTreeLeaf (ll_LeafValue returned) = Some (Inr logged)"
    "leaf_TimestampedEntry logged = Some te" "sct_Timestamp sct = te_Timestamp te"
    "body = AddChainBody rsp" "ToSignedCertificateTimestamp rsp = Some (Inr sct)"
    "GetCTLogID E (sg_Public (li_signer li)) = Some (sct_LogID sct)"
    "VerifySCTSignature (ctfe_ops E) (sg_Public (li_signer li)) sct (leaf_entry logged) = Inr ()"
proof -
  let ?t = "word_of_int (quot_go (rq_now r) 1000000) :: u64"
  let ?ty = "if isPrecert then PrecertLogEntryType else X509LogEntryType"
  obtain req ch leaf queued qs returned logged s1 sct s2 where
    req: "ParseBodyAsJSONChain (ce_json_chain E) r = Some req" and
    ch: "verifyAddChain (ce_env E) (sum256 E) (ce_ParseCertificate E) (li_validationOpts li) req isPrecert = Inr ch" and
    leaf: "MerkleTreeLeafFromChain (sum256 E) (ce_codec E) (map Some ch) ?ty ?t = Inr leaf" and
    queued: "buildLogLeafForAddChain (sum256 E) leaf ch isPrecert = Inr queued" and
    call: "call li (QueueLeaves (li_rpcClient li) (li_logID li) [queued] (chain_charge li r ch))
      ''backend QueueLeaves request failed'' s = (HOk (Some qs), s1)" and
    qs: "length qs = 1" "hd qs = Some returned" and
    logged: "unmarshal_all ''MerkleTreeLeaf'' T_MerkleTreeLeaf of_MerkleTreeLeaf (ll_LeafValue returned) = Some (Inr logged)" and
    sct: "buildV1SCT E (li_signer li) logged s1 = (HOk sct, s2)" and
    body: "marshalAndWriteAddChainResponse E r sct (li_signer li) s2 = (HOk body, s')"
    using assms(1) unfolding addChainInternal_def Let_def handler_simps(1,3-) by blast
  note rpc = call [unfolded call_HOk]
  obtain te data sig where te: "leaf_TimestampedEntry logged = Some te" "sct_Timestamp sct = te_Timestamp te" and
    data: "SerializeSCTSignatureInput sct (leaf_entry logged) = Inr data" and
    sig: "sign_digest (li_signer li) (sum256 E data) s1 = (Some sig, s2)" "sct_Signature sct = digitally_signed (sg_Public (li_signer li)) sig" and
    i: "GetCTLogID E (sg_Public (li_signer li)) = Some (sct_LogID sct)"
    using sct unfolding buildV1SCT_HOk by auto
  note ver = signer_verifies [OF assms(2) sig(1), folded sig(2)]
  obtain rsp where rsp: "body = AddChainBody rsp" "ToSignedCertificateTimestamp rsp = Some (Inr sct)"
    using AddChainResponse_HOk [OF body assms(3) ver(2) i] by blast
  have mq: "marshal_ct T_MerkleTreeLeaf v_MerkleTreeLeaf leaf = Inr (ll_LeafValue queued)"
    using queued by (auto simp: buildLogLeafForAddChain_def BuildLogLeaf_def result_simps split: list.splits)
  have q: "qs = [Some returned]" using qs by (cases qs) simp_all
  have "compliant_chain (ce_env E) (sum256 E) (ce_ParseCertificate E) req (li_validationOpts li) ch"
    using verifyAddChain_ok [OF ch] ValidateChain_compliant assms(4) by blast
  moreover have "VerifySCTSignature (ctfe_ops E) (sg_Public (li_signer li)) sct (leaf_entry logged) = Inr ()"
    using data ver(1) by (simp add: VerifySCTSignature_def)
  ultimately show thesis using req leaf mq rpc q logged te rsp i by (auto intro: that)
qed

text \<open>
  (C2) An SCT is only given for a compliant chain, and it is good. When add-chain or add-pre-chain answers,
  the submitted chain complies with the policy of the log, its leaf was queued, and the response decodes, as
  a client decodes it, to an SCT whose signature the log's key verifies over the leaf that the backend
  returned; the identifier is the hash of that key. When the backend returns the bytes that were queued,
  the SCT is for the leaf of the submitted chain and has the time of the request.
\<close>

theorem add_chain_sct_verifies:
  assumes "addChainInternal E li isPrecert r s = (HOk body, s')"
    and "signer_law E (li_signer li)" and "sha256_law E"
    and "pool_inv (certPool (cv_trustedRoots (li_validationOpts li)))"
  shows "\<exists>req ch leaf queued returned logged b rsp sct.
    ParseBodyAsJSONChain (ce_json_chain E) r = Some req \<and>
    compliant_chain (ce_env E) (sum256 E) (ce_ParseCertificate E) req (li_validationOpts li) ch \<and>
    MerkleTreeLeafFromChain (sum256 E) (ce_codec E) (map Some ch)
      (if isPrecert then PrecertLogEntryType else X509LogEntryType) (word_of_int (quot_go (rq_now r) 1000000)) = Inr leaf \<and>
    marshal_ct T_MerkleTreeLeaf v_MerkleTreeLeaf leaf = Inr (ll_LeafValue queued) \<and>
    QueueLeaves (li_rpcClient li) (li_logID li) [queued] (chain_charge li r ch) (sv_backend s) = (Inr (Some [Some returned]), b) \<and>
    marshal_ct T_MerkleTreeLeaf v_MerkleTreeLeaf logged = Inr (ll_LeafValue returned) \<and>
    body = AddChainBody rsp \<and> ToSignedCertificateTimestamp rsp = Some (Inr sct) \<and>
    GetCTLogID E (sg_Public (li_signer li)) = Some (sct_LogID sct) \<and>
    VerifySCTSignature (ctfe_ops E) (sg_Public (li_signer li)) sct (leaf_entry logged) = Inr () \<and>
    (typed_leaf leaf \<and> ll_LeafValue returned = ll_LeafValue queued \<longrightarrow>
       logged = leaf \<and> sct_Timestamp sct = word_of_int (quot_go (rq_now r) 1000000))"
proof -
  obtain req ch leaf queued returned logged b rsp sct te where
    r: "ParseBodyAsJSONChain (ce_json_chain E) r = Some req"
      "compliant_chain (ce_env E) (sum256 E) (ce_ParseCertificate E) req (li_validationOpts li) ch"
      "MerkleTreeLeafFromChain (sum256 E) (ce_codec E) (map Some ch)
         (if isPrecert then PrecertLogEntryType else X509LogEntryType) (word_of_int (quot_go (rq_now r) 1000000)) = Inr leaf"
      "marshal_ct T_MerkleTreeLeaf v_MerkleTreeLeaf leaf = Inr (ll_LeafValue queued)"
      "QueueLeaves (li_rpcClient li) (li_logID li) [queued] (chain_charge li r ch) (sv_backend s) = (Inr (Some [Some returned]), b)"
      "unmarshal_all ''MerkleTreeLeaf'' T_MerkleTreeLeaf of_MerkleTreeLeaf (ll_LeafValue returned) = Some (Inr logged)"
      "leaf_TimestampedEntry logged = Some te" "sct_Timestamp sct = te_Timestamp te"
      "body = AddChainBody rsp" "ToSignedCertificateTimestamp rsp = Some (Inr sct)"
      "GetCTLogID E (sg_Public (li_signer li)) = Some (sct_LogID sct)"
      "VerifySCTSignature (ctfe_ops E) (sg_Public (li_signer li)) sct (leaf_entry logged) = Inr ()"
    by (rule add_chain_result [OF assms])
  have "marshal_ct T_MerkleTreeLeaf v_MerkleTreeLeaf logged = Inr (ll_LeafValue returned)"
    using r(6) by (simp add: leaf.unmarshal_all_iff leaf.marshal_ct_iff)
  moreover have "logged = leaf \<and> sct_Timestamp sct = word_of_int (quot_go (rq_now r) 1000000)"
    if "typed_leaf leaf" "ll_LeafValue returned = ll_LeafValue queued"
  proof -
    have "unmarshal_all ''MerkleTreeLeaf'' T_MerkleTreeLeaf of_MerkleTreeLeaf (ll_LeafValue returned) = Some (Inr leaf)"
      using that r(4) by (simp add: leaf.unmarshal_all_iff leaf.marshal_ct_iff typed_leaf_def)
    then show ?thesis using r(6,7,8) leaf_timestamp [OF r(3)] by auto
  qed
  ultimately show ?thesis using r by blast
qed

section \<open>Tree heads\<close>

text \<open>The cache holds a signature of its input, or nothing.\<close>

definition cache_ok :: "('rp, 'ep, 'rand, 'o) ctfe_env \<Rightarrow> 'r signer \<Rightarrow> SignatureCache \<Rightarrow> bool" where
  "cache_ok E sg c \<longleftrightarrow> sc_input c \<noteq> [] \<longrightarrow>
     key_verifies E (sg_Public sg) (sc_input c) (sc_sig c) \<and> has_type T_DigitallySigned (v_DigitallySigned (sc_sig c))"

lemma SerializeSTH_signature:
  "SerializeSTHSignatureInput (sth\<lparr>sth_TreeHeadSignature := d\<rparr>) = SerializeSTHSignatureInput sth"
  by (simp add: SerializeSTHSignatureInput_def)

lemma SerializeSTH_nonempty: "SerializeSTHSignatureInput sth = Inr b \<Longrightarrow> b \<noteq> []"
  by (auto simp: SerializeSTH_Inr ths_layout)

definition head_verifies :: "('rp, 'ep, 'rand, 'o) ctfe_env \<Rightarrow> PublicKey \<Rightarrow> SignedTreeHead \<Rightarrow> bool" where
  "head_verifies E pk sth \<longleftrightarrow> VerifySTHSignature (ctfe_ops E) pk sth = Inr () \<and>
     has_type T_DigitallySigned (v_DigitallySigned (sth_TreeHeadSignature sth))"

lemma signV1TreeHead_ok:
  assumes "signer_law E sg" "cache_ok E sg (sv_cache s)" "signV1TreeHead E sg sth s = (res, s')"
  shows "cache_ok E sg (sv_cache s') \<and>
    (\<forall>sth'. res = Some sth' \<longrightarrow> head_verifies E (sg_Public sg) sth' \<and>
       (\<exists>d. sth' = sth\<lparr>sth_TreeHeadSignature := d\<rparr>) \<and> SerializeSTHSignatureInput sth = Inr (sc_input (sv_cache s')) \<and>
       sth_TreeHeadSignature sth' = sc_sig (sv_cache s'))"
proof (cases "SerializeSTHSignatureInput sth")
  case (Inl e)
  then show ?thesis using assms by (auto simp: signV1TreeHead_def)
next
  case (Inr b)
  note n = SerializeSTH_nonempty [OF Inr]
  show ?thesis
  proof (cases "GetSignature (sv_cache s) b")
    case (Some d)
    then have "b = sc_input (sv_cache s)" "d = sc_sig (sv_cache s)" by (auto simp: GetSignature_def split: if_splits)
    then show ?thesis using assms Inr Some n
      by (auto simp: signV1TreeHead_def head_verifies_def VerifySTHSignature_def SerializeSTH_signature cache_ok_def)
  next
    case None
    obtain o_sig s1 where sg: "sign_digest sg (sum256 E b) s = (o_sig, s1)" by fastforce
    have c: "sv_cache s1 = sv_cache s" using sg by (auto simp: sign_digest_def split: prod.splits)
    show ?thesis
    proof (cases o_sig)
      case None
      then show ?thesis using assms Inr \<open>GetSignature _ _ = None\<close> sg c by (auto simp: signV1TreeHead_def)
    next
      case (Some sig)
      note v = signer_verifies [OF assms(1) sg [unfolded Some]]
      show ?thesis using assms(3) Inr \<open>GetSignature _ _ = None\<close> sg Some v
        by (auto simp: signV1TreeHead_def Let_def SetSignature_def cache_ok_def head_verifies_def VerifySTHSignature_def
            SerializeSTH_signature)
    qed
  qed
qed

lemma getSignedLogRoot_cache:
  "getSignedLogRoot E li q s = (res, s') \<Longrightarrow> sv_cache s' = sv_cache s"
  by (auto simp: getSignedLogRoot_def Let_def split: prod.splits sum.splits option.splits if_splits)

lemma GetSTH_ok:
  assumes "signer_law E (li_signer li)" "cache_ok E (li_signer li) (sv_cache s)" "GetSTH E li q s = (res, s')"
    "li_sthGetter li = LogSTHGetter"
  shows "cache_ok E (li_signer li) (sv_cache s') \<and>
    (\<forall>sth. res = Inr sth \<longrightarrow> head_verifies E (sg_Public (li_signer li)) sth)"
proof -
  obtain rt s1 where rt: "getSignedLogRoot E li q s = (rt, s1)" by fastforce
  note c1 = getSignedLogRoot_cache [OF rt]
  show ?thesis
  proof (cases rt)
    case (Inl e)
    then show ?thesis using assms rt c1 by (auto simp: GetSTH_def)
  next
    case (Inr root)
    obtain o_sth s2 where sg: "signV1TreeHead E (li_signer li) (root_sth root) s1 = (o_sth, s2)" by fastforce
    note ok = signV1TreeHead_ok [OF assms(1) _ sg, unfolded c1, OF assms(2)]
    have "s' = s2" "\<forall>sth. res = Inr sth \<longrightarrow> o_sth = Some sth"
      using assms(3,4) rt Inr sg by (auto simp: GetSTH_def split: option.splits if_splits)
    then show ?thesis using ok by simp
  qed
qed

text \<open>A response with a tree head, from the tree head. A client sees no log identifier.\<close>

lemma writeSTH_HOk:
  assumes "writeSTH r sth s = (HOk body, s')" "head_verifies E pk sth"
  shows "\<exists>rsp. body = STHBody rsp \<and> s' = s \<and>
    (\<exists>sth'. ToSignedTreeHead rsp = Some (Inr sth') \<and> VerifySTHSignature (ctfe_ops E) pk sth' = Inr () \<and>
       sth_TreeSize sth' = sth_TreeSize sth \<and> sth_Timestamp sth' = sth_Timestamp sth \<and>
       sth_SHA256RootHash sth' = sth_SHA256RootHash sth)"
proof -
  obtain sig where sig: "marshal_ct T_DigitallySigned v_DigitallySigned (sth_TreeHeadSignature sth) = Inr sig"
    and b: "body = STHBody \<lparr>gsr_TreeSize = sth_TreeSize sth, gsr_Timestamp = sth_Timestamp sth,
          gsr_SHA256RootHash = sth_SHA256RootHash sth, gsr_TreeHeadSignature = sig\<rparr>" and s: "s' = s"
    using assms(1) by (auto simp: writeSTH_def handler_simps)
  have u: "unmarshal_all ''DigitallySigned'' T_DigitallySigned of_DigitallySigned sig = Some (Inr (sth_TreeHeadSignature sth))"
    using sig assms(2) by (simp add: ds.unmarshal_all_iff ds.marshal_ct_iff head_verifies_def)
  obtain data where d: "SerializeSTHSignatureInput sth = Inr data" and
    v: "key_verifies E pk data (sth_TreeHeadSignature sth)"
    using assms(2) by (cases "SerializeSTHSignatureInput sth";
      cases "VerifySignature (crypto_ops.truncate (ctfe_ops E)) (tls_key pk) (projr (SerializeSTHSignatureInput sth)) (sth_TreeHeadSignature sth)")
      (auto simp: head_verifies_def VerifySTHSignature_def)
  let ?sth = "\<lparr>sth_Version = 0, sth_TreeSize = sth_TreeSize sth, sth_Timestamp = sth_Timestamp sth,
    sth_SHA256RootHash = sth_SHA256RootHash sth, sth_TreeHeadSignature = sth_TreeHeadSignature sth, sth_LogID = replicate 32 0\<rparr>"
  have "length (sth_SHA256RootHash sth) = 32" "SerializeSTHSignatureInput ?sth = Inr data"
    using d by (simp_all add: SerializeSTH_Inr V1_def)
  then show ?thesis using b s u v
    by (intro exI [of _ ?sth] exI [of _ "\<lparr>gsr_TreeSize = sth_TreeSize sth, gsr_Timestamp = sth_Timestamp sth,
          gsr_SHA256RootHash = sth_SHA256RootHash sth, gsr_TreeHeadSignature = sig\<rparr>"] conjI)
      (simp_all add: ToSignedTreeHead_def VerifySTHSignature_def)
qed

lemma getSTH_ok:
  assumes "signer_law E (li_signer li)" "cache_ok E (li_signer li) (sv_cache s)" "li_sthGetter li = LogSTHGetter"
    "getSTH E li r s = (res, s')"
  shows "cache_ok E (li_signer li) (sv_cache s') \<and>
    (\<forall>body. res = HOk body \<longrightarrow> (\<exists>rsp sth. body = STHBody rsp \<and> ToSignedTreeHead rsp = Some (Inr sth) \<and>
       VerifySTHSignature (ctfe_ops E) (sg_Public (li_signer li)) sth = Inr ()))"
proof -
  obtain g s1 where g: "GetSTH E li (map_option (\<lambda>f. f r) (li_RemoteQuotaUser li)) s = (g, s1)" by fastforce
  note ok = GetSTH_ok [OF assms(1,2) g assms(3)]
  show ?thesis
  proof (cases g)
    case (Inl e)
    then show ?thesis using assms(4) g ok by (auto simp: getSTH_def fail_def)
  next
    case (Inr sth)
    then have w: "writeSTH r sth s1 = (res, s')" using assms(4) g by (simp add: getSTH_def)
    have "s' = s1" using w
      by (auto simp: writeSTH_def bind_h_def try_ct_def write_body_def ret_def fail_def split: sum.splits ct_error.splits if_splits prod.splits hres.splits)
    then show ?thesis using ok Inr w writeSTH_HOk by blast
  qed
qed

section \<open>Frames, shapes and answers\<close>

definition frame :: "('s \<Rightarrow> 'c) \<Rightarrow> ('s \<Rightarrow> 'a hres \<times> 's) \<Rightarrow> bool" where
  "frame f m \<longleftrightarrow> (\<forall>s. f (snd (m s)) = f s)"

definition yields :: "('a \<Rightarrow> bool) \<Rightarrow> ('s \<Rightarrow> 'a hres \<times> 's) \<Rightarrow> bool" where
  "yields P m \<longleftrightarrow> (\<forall>s x s'. m s = (HOk x, s') \<longrightarrow> P x)"

text \<open>The handler returns, and without a panic.\<close>

definition served :: "('s \<Rightarrow> 'a hres \<times> 's) \<Rightarrow> bool" where
  "served m \<longleftrightarrow> (\<forall>s. fst (m s) \<noteq> HLoop \<and> fst (m s) \<noteq> HPanic)"

definition returns :: "('s \<Rightarrow> 'a hres \<times> 's) \<Rightarrow> bool" where
  "returns m \<longleftrightarrow> (\<forall>s. fst (m s) \<noteq> HLoop)"

named_theorems handler_rules \<open>composition rules of the handler predicates\<close>

lemma frame_bind [handler_rules]: "frame f m \<Longrightarrow> (\<And>x. frame f (k x)) \<Longrightarrow> frame f (bind_h m k)"
  by (auto simp: frame_def bind_h_def split: prod.splits hres.splits) (metis snd_conv)+

lemma yields_bind: "(\<And>x. yields P (k x)) \<Longrightarrow> yields P (bind_h m k)"
  by (auto simp: yields_def handler_simps)

lemma served_bind:
  assumes "served m" "\<And>s x s'. m s = (HOk x, s') \<Longrightarrow> served (k x)"
  shows "served (bind_h m k)"
proof -
  have "fst (bind_h m k s) \<noteq> HLoop \<and> fst (bind_h m k s) \<noteq> HPanic" for s
    using assms unfolding served_def bind_h_def
    by (cases "m s"; cases "fst (m s)") (auto, (metis fst_conv)+)
  then show ?thesis by (simp add: served_def)
qed

lemma returns_bind:
  assumes "returns m" "\<And>s x s'. m s = (HOk x, s') \<Longrightarrow> returns (k x)"
  shows "returns (bind_h m k)"
proof -
  have "fst (bind_h m k s) \<noteq> HLoop" for s
    using assms unfolding returns_def bind_h_def
    by (cases "m s"; cases "fst (m s)") (auto, (metis fst_conv)+)
  then show ?thesis by (simp add: returns_def)
qed

lemma frame_steps [handler_rules]:
  "frame f (ret x)" "frame f (fail status msg)" "frame f (require b status msg)" "frame f (try_option r status msg)"
  "frame f (not_nil p)" "frame f (try_ct res status msg)" "frame f (try_run run status msg)" "frame f (try_chain ch msg)"
  "frame f (write_body rq body)"
  by (auto simp: frame_def ret_def fail_def require_def try_option_def not_nil_def try_ct_def try_run_def try_chain_def
      write_body_def split: option.splits sum.splits ct_error.splits chain_err.splits)

lemma frame_cache [handler_rules]:
  "frame sv_cache (call li rpc msg)" "frame sv_cache (buildV1SCT E sg leaf)"
  by (auto simp: frame_def call_def buildV1SCT_def sign_digest_def Let_def ret_def fail_def
      split: prod.splits sum.splits option.splits ct_error.splits)

lemma served_steps:
  "served (ret x)" "served (fail status msg)" "served (require b status msg)" "served (try_option r status msg)"
  "served (call li rpc msg)" "served (write_body rq body)"
  by (auto simp: served_def ret_def fail_def require_def try_option_def call_def write_body_def
      split: option.splits prod.splits sum.splits)

lemma served_returns: "served m \<Longrightarrow> returns m"
  by (simp add: served_def returns_def)

lemma returns_steps:
  "returns (not_nil p)" "returns (try_ct res status msg)" "returns (try_chain ch msg)"
  "run \<noteq> None \<Longrightarrow> returns (try_run run status msg)" "returns (buildV1SCT E sg leaf)"
  by (auto simp: returns_def not_nil_def try_ct_def try_run_def try_chain_def buildV1SCT_def Let_def ret_def fail_def
      split: option.splits sum.splits ct_error.splits chain_err.splits prod.splits)

lemma returns_leaf:
  "returns (try_run (unmarshal_all what T_MerkleTreeLeaf of_MerkleTreeLeaf b) status msg)"
  using leaf.unmarshal_all_returns [of what b] by (auto intro: returns_steps)

lemma marshalGetEntriesResponse_eq:
  "marshalGetEntriesResponse leaves s =
     (HOk (map (\<lambda>l. \<lparr>lentry_LeafInput = ll_LeafValue l, lentry_ExtraData = ll_ExtraData l\<rparr>) leaves), s)"
proof (induction leaves)
  case (Cons l leaves)
  obtain res where "unmarshal_all ''MerkleTreeLeaf'' T_MerkleTreeLeaf of_MerkleTreeLeaf (ll_LeafValue l) = Some res"
    "res \<noteq> Inl CtPanic" using leaf.unmarshal_all_returns by blast
  then show ?case using Cons by (auto simp: bind_h_def ret_def split: sum.splits ct_error.splits)
qed simp

lemma frame_entries [handler_rules]:
  "frame f (marshalGetEntriesResponse leaves)" "frame f (parseGetEntriesRange align r mx)" "frame f (buildIndicesForRange a b)"
  by (auto simp: frame_def marshalGetEntriesResponse_eq parseGetEntriesRange_def buildIndicesForRange_def ret_def fail_def Let_def
      split: option.splits)

lemma handlers_frame:
  "frame sv_cache (addChainInternal E li isPrecert r)" "frame sv_cache (getSTHConsistency E li r)"
  "frame sv_cache (getProofByHash E li r)" "frame sv_cache (getEntries E li r)" "frame sv_cache (getRoots li r)"
  "frame sv_cache (getEntryAndProof E li r)"
  by (auto simp: addChainInternal_def Let_def marshalAndWriteAddChainResponse_def getSTHConsistency_def getProofByHash_def
      getEntries_def fetch_by_range_def fetch_by_index_def getRoots_def getEntryAndProof_def
      intro!: handler_rules split: prod.splits list.splits option.splits)

definition not_sth :: "http_body \<Rightarrow> bool" where
  "not_sth b \<longleftrightarrow> (\<forall>rsp. b \<noteq> STHBody rsp)"

lemma yields_write: "P b \<Longrightarrow> yields P (write_body r b)" and yields_fail: "yields P (fail status msg)"
  by (auto simp: yields_def handler_simps)

lemma handlers_not_sth:
  "yields not_sth (addChainInternal E li isPrecert r)" "yields not_sth (getSTHConsistency E li r)"
  "yields not_sth (getProofByHash E li r)" "yields not_sth (getEntries E li r)" "yields not_sth (getRoots li r)"
  "yields not_sth (getEntryAndProof E li r)"
  by (auto simp: addChainInternal_def Let_def marshalAndWriteAddChainResponse_def getSTHConsistency_def getProofByHash_def
      getEntries_def getRoots_def getEntryAndProof_def not_sth_def
      intro!: yields_bind yields_write yields_fail split: prod.splits list.splits option.splits)

section \<open>Routing\<close>

text \<open>A handler of the table belongs to its path, and serves the log.\<close>

lemma Handlers_cases:
  assumes "Handlers E li prefix p = Some a"
  obtains "ah_Info a = li" "ah_Handler a = ctfe_addChain E" "ah_Method a = ''POST''"
  | "ah_Info a = li" "ah_Handler a = ctfe_addPreChain E" "ah_Method a = ''POST''"
  | "ah_Info a = li" "ah_Handler a = getSTH E" "ah_Method a = ''GET''"
  | "ah_Info a = li" "ah_Handler a = getSTHConsistency E" "ah_Method a = ''GET''"
  | "ah_Info a = li" "ah_Handler a = getProofByHash E" "ah_Method a = ''GET''"
  | "ah_Info a = li" "ah_Handler a = getEntries E" "ah_Method a = ''GET''"
  | "ah_Info a = li" "ah_Handler a = getRoots" "ah_Method a = ''GET''"
  | "ah_Info a = li" "ah_Handler a = getEntryAndProof E" "ah_Method a = ''GET''"
  using assms by (auto simp: Handlers_def Let_def split: if_splits)

text \<open>A server that gets requests one after the other; a path without a handler is not found.\<close>

definition serve ::
    "('rp, 'ep, 'rand, 'o) ctfe_env \<Rightarrow> ('b, 'r) logInfo \<Rightarrow> string \<Rightarrow> string \<times> http_request \<Rightarrow> ('b, 'r) server \<Rightarrow> reply \<times> ('b, 'r) server" where
  "serve E li prefix pr s =
     (case Handlers E li prefix (fst pr) of
        None \<Rightarrow> (Reply StatusNotFound (ErrorPage (Some ''404 page not found'')), s)
      | Some a \<Rightarrow> ServeHTTP a (snd pr) s)"

fun serve_all ::
    "('rp, 'ep, 'rand, 'o) ctfe_env \<Rightarrow> ('b, 'r) logInfo \<Rightarrow> string \<Rightarrow> (string \<times> http_request) list \<Rightarrow> ('b, 'r) server \<Rightarrow>
       reply list \<times> ('b, 'r) server" where
  "serve_all E li prefix [] s = ([], s)"
| "serve_all E li prefix (pr # prs) s =
     (let (rep, s') = serve E li prefix pr s; (reps, s'') = serve_all E li prefix prs s' in (rep # reps, s''))"

definition good_reply :: "('rp, 'ep, 'rand, 'o) ctfe_env \<Rightarrow> PublicKey \<Rightarrow> reply \<Rightarrow> bool" where
  "good_reply E pk rep =
     (case rep of
        Reply status (STHBody rsp) \<Rightarrow>
          (\<exists>sth. ToSignedTreeHead rsp = Some (Inr sth) \<and> VerifySTHSignature (ctfe_ops E) pk sth = Inr ())
      | _ \<Rightarrow> True)"

lemma ServeHTTP_keeps:
  assumes "\<And>res s'. ah_Handler a (ah_Info a) r s = (res, s') \<Longrightarrow> cache_ok E sg (sv_cache s') \<and>
      (\<forall>body. res = HOk body \<longrightarrow> good_reply E pk (Reply StatusOK body))"
    and "cache_ok E sg (sv_cache s)" "ServeHTTP a r s = (rep, s')"
  shows "cache_ok E sg (sv_cache s') \<and> good_reply E pk rep"
proof -
  obtain res s1 where h: "ah_Handler a (ah_Info a) r s = (res, s1)" by fastforce
  show ?thesis using assms(1) [OF h] assms(2,3) h
    by (cases res) (auto simp: ServeHTTP_def SendHTTPError_def good_reply_def split: if_splits)
qed

lemma frame_keeps:
  assumes "frame sv_cache m" "yields not_sth m" "cache_ok E sg (sv_cache s)" "m s = (res, s')"
  shows "cache_ok E sg (sv_cache s') \<and> (\<forall>body. res = HOk body \<longrightarrow> good_reply E pk (Reply StatusOK body))"
proof -
  have "sv_cache s' = sv_cache s" using assms(1,4) unfolding frame_def by (metis snd_conv)
  moreover have "good_reply E pk (Reply StatusOK body)" if "res = HOk body" for body
    using assms(2,4) that unfolding yields_def not_sth_def by (cases body) (auto simp: good_reply_def)
  ultimately show ?thesis using assms(3) by simp
qed

lemma serve_keeps:
  assumes "signer_law E (li_signer li)" "li_sthGetter li = LogSTHGetter" "cache_ok E (li_signer li) (sv_cache s)"
    "serve E li prefix pr s = (rep, s')"
  shows "cache_ok E (li_signer li) (sv_cache s') \<and> good_reply E (sg_Public (li_signer li)) rep"
proof (cases "Handlers E li prefix (fst pr)")
  case None
  then show ?thesis using assms by (auto simp: serve_def good_reply_def)
next
  case (Some a)
  have srv: "ServeHTTP a (snd pr) s = (rep, s')" using assms(4) Some by (simp add: serve_def)
  have "cache_ok E (li_signer li) (sv_cache s1) \<and> (\<forall>body. res = HOk body \<longrightarrow> good_reply E (sg_Public (li_signer li)) (Reply StatusOK body))"
    if h: "ah_Handler a (ah_Info a) (snd pr) s = (res, s1)" for res s1
    using Some
  proof (cases rule: Handlers_cases)
    case 1
    then have "addChainInternal E li False (snd pr) s = (res, s1)" using h by (simp add: ctfe_addChain_def)
    then show ?thesis by (rule frame_keeps [OF handlers_frame(1) handlers_not_sth(1) assms(3)])
  next
    case 2
    then have "addChainInternal E li True (snd pr) s = (res, s1)" using h by (simp add: ctfe_addPreChain_def)
    then show ?thesis by (rule frame_keeps [OF handlers_frame(1) handlers_not_sth(1) assms(3)])
  next
    case 3
    then show ?thesis using getSTH_ok [OF assms(1,3,2), of "snd pr" res s1] h by (auto simp: good_reply_def)
  next
    case 4
    then have "getSTHConsistency E li (snd pr) s = (res, s1)" using h by (simp)
    then show ?thesis by (rule frame_keeps [OF handlers_frame(2) handlers_not_sth(2) assms(3)])
  next
    case 5
    then have "getProofByHash E li (snd pr) s = (res, s1)" using h by (simp)
    then show ?thesis by (rule frame_keeps [OF handlers_frame(3) handlers_not_sth(3) assms(3)])
  next
    case 6
    then have "getEntries E li (snd pr) s = (res, s1)" using h by (simp)
    then show ?thesis by (rule frame_keeps [OF handlers_frame(4) handlers_not_sth(4) assms(3)])
  next
    case 7
    then have "getRoots li (snd pr) s = (res, s1)" using h by (simp)
    then show ?thesis by (rule frame_keeps [OF handlers_frame(5) handlers_not_sth(5) assms(3)])
  next
    case 8
    then have "getEntryAndProof E li (snd pr) s = (res, s1)" using h by (simp)
    then show ?thesis by (rule frame_keeps [OF handlers_frame(6) handlers_not_sth(6) assms(3)])
  qed
  then show ?thesis using ServeHTTP_keeps [OF _ assms(3) srv] by blast
qed

text \<open>
  (C6) Every tree head that a log serves verifies. For any sequence of requests of any kind to a log that
  signs its own heads, starting with an empty signature cache, every get-sth response decodes to a tree
  head whose signature the log's key verifies, whether it was signed for that request or came from the
  cache.
\<close>

theorem served_heads_verify:
  assumes "signer_law E (li_signer li)" and "li_sthGetter li = LogSTHGetter"
    and "sc_input (sv_cache s) = []" and "serve_all E li prefix prs s = (reps, s')"
  shows "list_all (good_reply E (sg_Public (li_signer li))) reps"
proof -
  have "cache_ok E (li_signer li) (sv_cache s) \<Longrightarrow> serve_all E li prefix prs s = (reps, s') \<Longrightarrow> ?thesis" for s
  proof (induction prs arbitrary: s reps)
    case (Cons pr prs)
    obtain rep s1 reps1 where "serve E li prefix pr s = (rep, s1)" "serve_all E li prefix prs s1 = (reps1, s')" "reps = rep # reps1"
      using Cons.prems(2) by (auto split: prod.splits)
    then show ?case using Cons.IH [of s1 reps1] serve_keeps [OF assms(1,2) Cons.prems(1)] by auto
  qed simp
  moreover have "cache_ok E (li_signer li) (sv_cache s)" using assms(3) by (simp add: cache_ok_def)
  ultimately show ?thesis using assms(4) by blast
qed

section \<open>Answering\<close>

text \<open>
  What the backend is relied on for: a consistency proof response has a proof.
\<close>

definition rpc_wf :: "'b log_rpc \<Rightarrow> bool" where
  "rpc_wf rpc \<longleftrightarrow> (\<forall>i a b c st root proof st'.
     GetConsistencyProof rpc i a b c st = (Inr (root, proof), st') \<longrightarrow> proof \<noteq> None)"

lemma served_not_nil: "p \<noteq> None \<Longrightarrow> served (not_nil p)"
  by (auto simp: served_def not_nil_def)

lemma served_GetSTH: "served (getSTH E li r)"
proof -
  have "marshal_ct T_DigitallySigned v_DigitallySigned d \<noteq> Inl CtPanic" for d
    by (auto simp: marshal_ct_def marshal_rec_def T_DigitallySigned_def v_DigitallySigned_def T_SignatureAndHashAlgorithm_def
        ct_eval Marshal_eq check_def putCount_def remember_enum_def kind_uint8_def split: if_splits)
  then have "served (try_ct (marshal_ct T_DigitallySigned v_DigitallySigned d) status msg)" for d status msg
    by (auto simp: served_def try_ct_def split: sum.splits ct_error.splits)
  then have "served (writeSTH r sth)" for sth :: SignedTreeHead
    by (auto simp: writeSTH_def intro!: served_bind served_steps)
  then show ?thesis by (auto simp: served_def getSTH_def fail_def split: prod.splits sum.splits)
qed

lemma served_consistency:
  assumes "rpc_wf (li_rpcClient li)"
  shows "served (getSTHConsistency E li r)"
  using assms unfolding getSTHConsistency_def rpc_wf_def
  by (auto simp: handler_simps intro!: served_bind served_steps served_not_nil split: prod.splits) blast

lemma returns_consistency: "returns (getSTHConsistency E li r)"
  unfolding getSTHConsistency_def
  by (auto intro!: returns_bind returns_steps served_steps [THEN served_returns] split: prod.splits)

lemma served_proof: "served (getProofByHash E li r)"
  unfolding getProofByHash_def
  by (auto intro!: served_bind served_steps split: prod.splits list.splits)

lemma served_marshal_entries: "served (marshalGetEntriesResponse leaves)"
  by (simp add: served_def marshalGetEntriesResponse_eq)

lemma returns_range: "returns (parseGetEntriesRange align r mx)"
  by (auto simp: returns_def parseGetEntriesRange_def ret_def fail_def Let_def split: option.splits)

lemma served_range: "mx \<noteq> 0 \<Longrightarrow> served (parseGetEntriesRange align r mx)"
  by (auto simp: served_def parseGetEntriesRange_def ret_def fail_def Let_def split: option.splits)

lemma served_fetch: "served (fetch_by_range E li r start fin)"
  unfolding fetch_by_range_def Let_def by (auto intro!: served_bind served_steps split: prod.splits)

lemma entries_answered:
  assumes "ce_getByRange E"
  shows "returns (getEntries E li r)" "ce_MaxGetEntriesAllowed E \<noteq> 0 \<Longrightarrow> served (getEntries E li r)"
  using assms unfolding getEntries_def
  by (auto intro!: returns_bind served_bind returns_range served_range served_fetch [THEN served_returns] served_fetch
      served_marshal_entries [THEN served_returns] served_marshal_entries served_steps served_steps(6) [THEN served_returns]
      split: prod.splits)

lemma served_entry_and_proof: "served (getEntryAndProof E li r)"
  unfolding getEntryAndProof_def
  by (auto intro!: served_bind served_steps split: prod.splits option.splits)

lemma returns_add_chain: "returns (addChainInternal E li isPrecert r)"
  unfolding addChainInternal_def Let_def marshalAndWriteAddChainResponse_def
  by (intro returns_bind returns_steps returns_leaf served_steps [THEN served_returns])


section \<open>Ranges of entries\<close>

lemma rem_go_pos: "0 \<le> x \<Longrightarrow> 0 < m \<Longrightarrow> rem_go x m = x mod m"
  by (cases "x = 0") (simp_all add: rem_go_def quot_go_def minus_mult_div_eq_mod)

lemma range_ok:
  assumes "parseGetEntriesRange align r mx s = (HOk (start, fin), s')" "0 < mx" "mx < 2 ^ 63"
    "ParseInt (rq_FormValue r ''end'') = Some e" "e < 2 ^ 63 - 1"
  shows "ParseInt (rq_FormValue r ''start'') = Some start \<and> 0 \<le> start \<and> start \<le> fin \<and> fin \<le> e \<and> fin < start + mx \<and>
    (if align \<and> e + 1 \<ge> start + mx then (fin + 1) mod mx = 0 else fin = min e (start + mx - 1))"
proof -
  define e1 where "e1 = (if e - start + 1 > mx then start + mx - 1 else e)"
  have st: "ParseInt (rq_FormValue r ''start'') = Some start" "0 \<le> start" "start \<le> e"
    using assms(1,4) by (auto simp: parseGetEntriesRange_def handler_simps Let_def split: option.splits if_splits)
  have c: "wrap64 (wrap64 (e - start) + 1) = e - start + 1" using st assms(5) by (simp add: wrap64_id)
  have w: "(if e - start + 1 > mx then wrap64 (wrap64 (start + mx) - 1) else e) = e1" using st assms by (auto simp: wrap64_id e1_def)
  have e1: "0 \<le> e1" "e1 \<le> e" "start \<le> e1" "e1 < start + mx" using st assms(2) by (auto simp: e1_def)
  have w1: "wrap64 (e1 + 1) = e1 + 1" using e1 assms(5) by (simp add: wrap64_id)
  have m: "(e1 + 1) mod mx < mx" "0 \<le> (e1 + 1) mod mx" using assms(2) by simp_all
  have fin: "fin = (if align \<and> e - start + 1 \<ge> mx then e1 - (e1 + 1) mod mx else e1)"
  proof (cases "align \<and> e - start + 1 \<ge> mx")
    case True
    have "fin = wrap64 (e1 - (e1 + 1) mod mx)"
      using assms(1,2,4) st c w w1 e1 True by (auto simp: parseGetEntriesRange_def handler_simps Let_def rem_go_pos)
    moreover have "- (2 ^ 63) \<le> e1 - (e1 + 1) mod mx" "e1 - (e1 + 1) mod mx < 2 ^ 63" using e1 m assms(3,5) by linarith+
    ultimately show ?thesis using True by (simp only: wrap64_id if_True simp_thms)
  next
    case False
    then show ?thesis using assms(1,4) st c w by (auto simp: parseGetEntriesRange_def handler_simps Let_def)
  qed
  show ?thesis
  proof (cases "align \<and> e - start + 1 \<ge> mx")
    case True
    then have "e1 = start + mx - 1" by (auto simp: e1_def)
    then have a: "(e1 + 1) mod mx \<le> start mod mx" "start mod mx \<le> start" "start mod mx < mx"
      using assms(2) st(2) by (simp_all add: zmod_le_nonneg_dividend)
    have "fin + 1 = mx * ((e1 + 1) div mx)" using fin True by (simp add: minus_mod_eq_mult_div [symmetric])
    then have "(fin + 1) mod mx = 0" by simp
    then show ?thesis using fin True st a e1 \<open>e1 = start + mx - 1\<close> m by auto
  next
    case False
    then show ?thesis using fin st e1 by (auto simp: e1_def)
  qed
qed

lemma consecutive_indices:
  "consecutive_from a ls \<Longrightarrow> - (2 ^ 63) \<le> a \<Longrightarrow> a + int (length ls) < 2 ^ 63 \<Longrightarrow>
     map ll_LeafIndex ls = [a..a + int (length ls) - 1]"
proof (induction ls arbitrary: a)
  case (Cons l ls)
  then have "wrap64 (a + 1) = a + 1" by (simp add: wrap64_id)
  then have "map ll_LeafIndex ls = [a + 1..a + int (length (l # ls)) - 1]"
    using Cons.IH [of "a + 1"] Cons.prems by simp
  then show ?case using Cons.prems by (simp add: upto_rec1)
qed simp

lemma indices_loop_ok:
  "0 \<le> i \<Longrightarrow> fin < 2 ^ 63 - 1 \<Longrightarrow> indices_loop i fin acc = Some (acc @ [i..fin])"
proof (induction "nat (fin + 1 - i)" arbitrary: i acc)
  case 0
  then show ?case by (subst indices_loop.simps) simp
next
  case (Suc n)
  then have "wrap64 (i + 1) = i + 1" by (simp add: wrap64_id)
  then show ?case using Suc(1) [of "i + 1" "acc @ [i]"] Suc(2-) by (subst indices_loop.simps) (simp add: upto_rec1)
qed

lemma indices_loop_diverges:
  assumes "i < 2 ^ 63"
  shows "indices_loop i (2 ^ 63 - 1) acc = None"
proof (rule ccontr)
  have b: "wrap64 z < 2 ^ 63" for z using pos_mod_bound [of "2 ^ 64" "z + 2 ^ 63"] by (simp add: wrap64_def)
  assume "indices_loop i (2 ^ 63 - 1) acc \<noteq> None"
  then obtain js where "indices_loop i (2 ^ 63 - 1) acc = Some js" by blast
  then have "(2 ^ 63 - 1 :: int) = 2 ^ 63 - 1 \<longrightarrow> i < 2 ^ 63 \<longrightarrow> False"
    by (rule indices_loop.raw_induct [where P = "\<lambda>i fin acc js. fin = 2 ^ 63 - 1 \<longrightarrow> i < 2 ^ 63 \<longrightarrow> False", rotated])
      (use b in \<open>fastforce split: if_splits\<close>)
  then show False using assms by simp
qed

lemma get_entries_result:
  assumes "getEntries E li r s = (HOk body, s')"
    and "0 < ce_MaxGetEntriesAllowed E" and "ce_MaxGetEntriesAllowed E < 2 ^ 63"
    and "ParseInt (rq_FormValue r ''end'') = Some e" and "e < 2 ^ 63 - 1"
  obtains start fin s2 and leaves :: "LogLeaf list" where
    "ParseInt (rq_FormValue r ''start'') = Some start" "0 \<le> start" "start \<le> fin" "fin \<le> e"
    "(if ce_getByRange E then fetch_by_range E li r start fin else fetch_by_index E li r start fin) s = (HOk leaves, s2)"
    "body = EntriesBody (map (\<lambda>l. \<lparr>lentry_LeafInput = ll_LeafValue l, lentry_ExtraData = ll_ExtraData l\<rparr>) leaves)"
    "map ll_LeafIndex leaves = [start..start + int (length leaves) - 1]"
    "int (length leaves) \<le> min (ce_MaxGetEntriesAllowed E) (fin - start + 1)"
proof -
  obtain start fin leaves s1 s2 where
    rng: "parseGetEntriesRange (ce_alignGetEntries E) r (ce_MaxGetEntriesAllowed E) s = (HOk (start, fin), s1)" and
    f: "(if ce_getByRange E then fetch_by_range E li r start fin else fetch_by_index E li r start fin) s1 = (HOk leaves, s2)" and
    b: "body = EntriesBody (map (\<lambda>l. \<lparr>lentry_LeafInput = ll_LeafValue l, lentry_ExtraData = ll_ExtraData l\<rparr>) leaves)"
    using assms(1) by (auto simp: getEntries_def handler_simps marshalGetEntriesResponse_eq)
  note ok = range_ok [OF rng assms(2-5)]
  have s1: "s1 = s" using frame_entries(2) [of "\<lambda>s. s" "ce_alignGetEntries E" r "ce_MaxGetEntriesAllowed E"] rng
    unfolding frame_def by (metis snd_conv)
  have w: "wrap64 (wrap64 (fin + 1) - start) = fin + 1 - start" using ok assms(5) by (simp add: wrap64_id)
  have c: "consecutive_from start leaves \<and> int (length leaves) \<le> fin + 1 - start"
  proof (cases "ce_getByRange E")
    case True
    then show ?thesis using f by (auto simp: fetch_by_range_def handler_simps Let_def w)
  next
    case False
    then obtain lvs where "sortLeafRange lvs start fin = Some leaves"
      using f by (auto simp: fetch_by_index_def handler_simps)
    then show ?thesis by (auto simp: sortLeafRange_def w Let_def split: if_splits)
  qed
  moreover have "start + int (length leaves) < 2 ^ 63" using c ok assms(5) by linarith
  ultimately have "map ll_LeafIndex leaves = [start..start + int (length leaves) - 1]"
    using ok by (intro consecutive_indices) auto
  then show thesis using ok b f [unfolded s1] c by (intro that [of start fin leaves s2]) auto
qed



section \<open>Errors and routing\<close>

text \<open>
  A log that masks internal errors never shows the detail of one: a reply with status 500 is the bare
  error page, on every path and for every request.
\<close>

theorem internal_errors_masked:
  assumes "li_MaskInternalErrors li" and "serve E li prefix pr s = (Reply StatusInternalServerError body, s')"
  shows "body = ErrorPage None"
proof (cases "Handlers E li prefix (fst pr)")
  case None
  then show ?thesis using assms by (simp add: serve_def StatusNotFound_def StatusInternalServerError_def)
next
  case (Some a)
  have "ah_Info a = li" using Some by (cases rule: Handlers_cases)
  then show ?thesis using assms Some
    by (auto simp: serve_def ServeHTTP_def SendHTTPError_def StatusInternalServerError_def StatusOK_def
        split: if_splits prod.splits hres.splits)
qed

text \<open>
  The table of a log has its eight endpoints and no other path, each with its own handler and method; a
  mirror has the six that read the log, and nothing to add to it.
\<close>

theorem Handlers_table:
  "dom (Handlers E li prefix) = (\<lambda>name. url_prefix prefix @ ''/ct/v1/'' @ name) `
     ((if li_IsMirror li then {} else {''add-chain'', ''add-pre-chain''}) \<union>
      {''get-sth'', ''get-sth-consistency'', ''get-proof-by-hash'', ''get-entries'', ''get-roots'', ''get-entry-and-proof''}) \<and>
   map_option (\<lambda>a. (ah_Handler a, ah_Method a)) (Handlers E li prefix (url_prefix prefix @ ''/ct/v1/add-chain'')) =
     (if li_IsMirror li then None else Some (ctfe_addChain E, ''POST'')) \<and>
   map_option (\<lambda>a. (ah_Handler a, ah_Method a)) (Handlers E li prefix (url_prefix prefix @ ''/ct/v1/add-pre-chain'')) =
     (if li_IsMirror li then None else Some (ctfe_addPreChain E, ''POST'')) \<and>
   map_option (\<lambda>a. (ah_Handler a, ah_Method a)) (Handlers E li prefix (url_prefix prefix @ ''/ct/v1/get-sth'')) = Some (getSTH E, ''GET'') \<and>
   map_option (\<lambda>a. (ah_Handler a, ah_Method a)) (Handlers E li prefix (url_prefix prefix @ ''/ct/v1/get-entries'')) = Some (getEntries E, ''GET'')"
  by (auto simp: Handlers_def Let_def dom_def split: if_splits)

section \<open>Witnesses\<close>

text \<open>A small log: three submitted certificates, a backend that keeps a list of leaves, a signer that repeats a byte of the digest.\<close>

definition demo_log_ops :: "(unit, unit, unit) x509_ops" where
  "demo_log_ops = toy_ops\<lparr>hash_sum := (\<lambda>_ b. take 32 (b @ replicate 32 0)), rsa_verify := (\<lambda>_ _ d s. s = take 1 d)\<rparr>"

definition demo_signer :: "nat signer" where
  "demo_signer = \<lparr>sg_Public = PubRSA \<lparr>rsa_N = 35, rsa_E = 5\<rparr>, sg_Sign = (\<lambda>d n. (Some (take 1 d), Suc n))\<rparr>"

definition demo_ctfe :: "(unit, unit, unit, unit) ctfe_env" where
  "demo_ctfe = \<lparr>ce_env = toy_env\<lparr>env_ops := demo_log_ops\<rparr>, ce_codec = demo_codec, ce_ParseCertificate = toy_parser,
     ce_MarshalPKIXPublicKey = (\<lambda>_. Some [7]),
     ce_UnmarshalRoot = (\<lambda>b. if b = [] then None else Some \<lparr>lr_TreeSize = of_nat (length b), lr_RootHash = replicate 32 3, lr_TimestampNanos = 7000000\<rparr>),
     ce_json_chain = (\<lambda>b. if b = [] then None else Some [[1], [3], [4]]), ce_getByRange = True, ce_alignGetEntries = True,
     ce_MaxGetEntriesAllowed = 4\<rparr>"

definition demo_rpc :: "LogLeaf list log_rpc" where
  "demo_rpc = \<lparr>QueueLeaves = (\<lambda>_ ls _ st. (Inr (Some (map Some ls)), st @ ls)),
     GetLatestSignedLogRoot = (\<lambda>_ _ st. (Inr (Some (replicate (Suc (length st)) 0)), st)),
     GetConsistencyProof = (\<lambda>_ _ _ _ st. (Inr (replicate (length st) 0, Some (Some [replicate 32 1])), st)),
     GetInclusionProofByHash = (\<lambda>_ _ _ _ st. (Inr (replicate (length st) 0, [(0, Some [replicate 32 1])]), st)),
     GetLeavesByRange = (\<lambda>_ start count _ st. (Inr (replicate (length st) 0, take (nat count) (drop (nat start) st)), st)),
     GetLeavesByIndex = (\<lambda>_ is _ st. (Inr (replicate (length st) 0, map (\<lambda>i. st ! nat i) (filter (\<lambda>i. nat i < length st) is)), st)),
     rpc_GetEntryAndProof = (\<lambda>_ i _ _ st. (Inr (replicate (length st) 0, Some (st ! nat i), Some None), st))\<rparr>"

definition demo_log :: "(LogLeaf list, nat) logInfo" where
  "demo_log = \<lparr>li_logID = 1, li_validationOpts = toy_validation, li_rpcClient = demo_rpc, li_signer = demo_signer,
     li_sthGetter = LogSTHGetter, li_IsMirror = False, li_MaskInternalErrors = True, li_RemoteQuotaUser = None,
     li_CertificateQuotaUser = None, li_ErrorMapper = None\<rparr>"

definition demo_request :: "string \<Rightarrow> string \<Rightarrow> http_request" where
  "demo_request m v = \<lparr>rq_Method = m, rq_formOk = True, rq_FormValue = (\<lambda>_. v), rq_Body = Some [1], rq_now = 9000000, rq_writeOk = True\<rparr>"

definition demo_server :: "(LogLeaf list, nat) server" where
  "demo_server = \<lparr>sv_backend = [], sv_rand = 0, sv_cache = \<lparr>sc_input = [], sc_sig = zero_DigitallySigned\<rparr>\<rparr>"


lemmas demo_log_defs = demo_ctfe_def demo_log_def demo_signer_def demo_rpc_def demo_request_def demo_server_def

lemmas demo_marshal = marshal_ct_def marshal_rec_def v_MerkleTreeLeaf_def v_ptr_def v_TimestampedEntry_def v_ASN1Cert_def
  v_CertificateChain_def v_slice_def v_DigitallySigned_def v_SignedCertificateTimestamp_def demo_ct ct_type_defs ct_eval codec_eval

abbreviation demo_chain :: "Certificate list" where
  "demo_chain \<equiv> [toy_leaf, crossB, toy_inter, toy_root]"

lemma demo_verifyAddChain:
  "verifyAddChain (ce_env demo_ctfe) (sum256 demo_ctfe) (ce_ParseCertificate demo_ctfe) (li_validationOpts demo_log) [[1], [3], [4]] False
     = Inr demo_chain"
  by code_simp

lemma demo_leaf:
  "MerkleTreeLeafFromChain (sum256 demo_ctfe) (ce_codec demo_ctfe) (map Some demo_chain) X509LogEntryType 9 =
     Inr (CreateX509MerkleTreeLeaf \<lparr>cert_Data = [1]\<rparr> 9)"
  by (simp add: MerkleTreeLeafFromChain_def deref_def toy_leaf_def toy_cert_def)

lemma demo_leaf_bytes:
  "marshal_ct T_MerkleTreeLeaf v_MerkleTreeLeaf (CreateX509MerkleTreeLeaf \<lparr>cert_Data = [1]\<rparr> 9) =
     Inr [0, 0, 0, 0, 0, 0, 0, 0, 0, 9, 0, 0, 0, 0, 1, 1, 0, 0]"
  by (simp add: demo_marshal)

lemma demo_extra_data:
  "ExtraDataForChain \<lparr>cert_Data = [1]\<rparr> [\<lparr>cert_Data = [3]\<rparr>, \<lparr>cert_Data = [4]\<rparr>, \<lparr>cert_Data = [5]\<rparr>] False =
     Inr [0, 0, 12, 0, 0, 1, 3, 0, 0, 1, 4, 0, 0, 1, 5]"
  by (simp add: ExtraDataForChain_def demo_marshal)

lemma demo_raw: "extractRawCerts demo_chain = [\<lparr>cert_Data = [1]\<rparr>, \<lparr>cert_Data = [3]\<rparr>, \<lparr>cert_Data = [4]\<rparr>, \<lparr>cert_Data = [5]\<rparr>]"
  by code_simp

lemma demo_laws: "signer_law demo_ctfe (li_signer demo_log)" "sha256_law demo_ctfe"
    "pool_inv (certPool (cv_trustedRoots (li_validationOpts demo_log)))" "rpc_wf (li_rpcClient demo_log)"
proof -
  show "pool_inv (certPool (cv_trustedRoots (li_validationOpts demo_log)))"
    using pem_inv_foldl [OF pem_inv_new, of "take 1" "[toy_root]"]
    by (simp add: demo_log_def toy_validation_def NewCertValidationOpts_def pem_inv_def)
qed (simp_all add: signer_law_def sha256_law_def sum256_def demo_log_ops_def demo_log_defs toy_ops_def toy_env_def rpc_wf_def min_def)

lemma demo_sct_input:
  "SerializeSCTSignatureInput \<lparr>sct_SCTVersion = V1, sct_LogID = i, sct_Timestamp = 9, sct_Extensions = [], sct_Signature = d\<rparr>
     (leaf_entry (CreateX509MerkleTreeLeaf \<lparr>cert_Data = [1]\<rparr> 9)) = Inr [0, 0, 0, 0, 0, 0, 0, 0, 0, 9, 0, 0, 0, 0, 1, 1, 0, 0]"
  by (simp add: SerializeSCT_Inr sct_input_def demo_ct leaf_entry_def sct_input_layout_x509 be_bytes_numeral)

lemma demo_unmarshal:
  "unmarshal_all what T_MerkleTreeLeaf of_MerkleTreeLeaf [0, 0, 0, 0, 0, 0, 0, 0, 0, 9, 0, 0, 0, 0, 1, 1, 0, 0] =
     Some (Inr (CreateX509MerkleTreeLeaf \<lparr>cert_Data = [1]\<rparr> 9))"
  using demo_leaf_bytes typed_demo(2) by (simp add: leaf.unmarshal_all_iff leaf.marshal_ct_iff typed_leaf_def)

definition demo_added :: "(LogLeaf list, nat) server" where
  "demo_added = demo_server\<lparr>sv_backend := [\<lparr>ll_LeafValue = [0, 0, 0, 0, 0, 0, 0, 0, 0, 9, 0, 0, 0, 0, 1, 1, 0, 0],
     ll_ExtraData = [0, 0, 12, 0, 0, 1, 3, 0, 0, 1, 4, 0, 0, 1, 5], ll_LeafIndex = 0, ll_LeafIdentityHash = 1 # replicate 31 0\<rparr>], sv_rand := 1\<rparr>"

lemma demo_add_chain:
  "addChainInternal demo_ctfe demo_log False (demo_request ''POST'' []) demo_server =
     (HOk (AddChainBody \<lparr>acr_SCTVersion = 0, acr_ID = 7 # replicate 31 0, acr_Timestamp = 9, acr_Extensions = [],
        acr_Signature = [4, 1, 0, 1, 0]\<rparr>), demo_added)"
proof -
  have b: "ParseBodyAsJSONChain (ce_json_chain demo_ctfe) (demo_request ''POST'' []) = Some [[1], [3], [4]]"
    by (simp add: ParseBodyAsJSONChain_def demo_ctfe_def demo_request_def)
  have t: "(word_of_int (quot_go (rq_now (demo_request ''POST'' [])) 1000000) :: u64) = 9"
    by (simp add: demo_request_def quot_go_def)
  have l: "buildLogLeafForAddChain (sum256 demo_ctfe) (CreateX509MerkleTreeLeaf \<lparr>cert_Data = [1]\<rparr> 9) demo_chain False =
      Inr (hd (sv_backend demo_added))"
    unfolding buildLogLeafForAddChain_def demo_raw
    by (simp add: BuildLogLeaf_def demo_leaf_bytes demo_extra_data demo_added_def sum256_def demo_ctfe_def demo_log_ops_def toy_env_def numeral_eq_Suc)
  have q: "call demo_log (QueueLeaves (li_rpcClient demo_log) (li_logID demo_log) [hd (sv_backend demo_added)] c) m demo_server =
      (HOk (Some [Some (hd (sv_backend demo_added))]), demo_server\<lparr>sv_backend := sv_backend demo_added\<rparr>)" for c m
    by (simp add: call_def demo_log_def demo_rpc_def demo_server_def demo_added_def)
  have s: "buildV1SCT demo_ctfe (li_signer demo_log) (CreateX509MerkleTreeLeaf \<lparr>cert_Data = [1]\<rparr> 9) (demo_server\<lparr>sv_backend := sv_backend demo_added\<rparr>) =
      (HOk \<lparr>sct_SCTVersion = V1, sct_LogID = 7 # replicate 31 0, sct_Timestamp = 9, sct_Extensions = [],
         sct_Signature = digitally_signed (sg_Public demo_signer) [0]\<rparr>, demo_added)"
    by (simp add: buildV1SCT_HOk demo_sct_input)
      (simp add: CreateX509MerkleTreeLeaf_def zero_TimestampedEntry_def GetCTLogID_def sum256_def demo_ctfe_def demo_log_def
        demo_log_ops_def demo_signer_def demo_server_def demo_added_def toy_env_def sign_digest_def numeral_eq_Suc)
  have d: "marshal_ct T_DigitallySigned v_DigitallySigned (digitally_signed (sg_Public demo_signer) [0]) = Inr [4, 1, 0, 1, 0]"
    by (simp add: digitally_signed_def demo_signer_def tls_key_def SignatureAlgorithmFromPubKey_def alg_defs demo_marshal)
  have m: "\<exists>b. marshal_ct T_SignedCertificateTimestamp v_SignedCertificateTimestamp \<lparr>sct_SCTVersion = V1, sct_LogID = 7 # replicate 31 0,
      sct_Timestamp = 9, sct_Extensions = [], sct_Signature = digitally_signed (sg_Public demo_signer) [0]\<rparr> = Inr b"
    by (simp add: digitally_signed_def demo_signer_def tls_key_def SignatureAlgorithmFromPubKey_def alg_defs demo_marshal)
  obtain sb where sb: "marshal_ct T_SignedCertificateTimestamp v_SignedCertificateTimestamp \<lparr>sct_SCTVersion = V1,
      sct_LogID = 7 # replicate 31 0, sct_Timestamp = 9, sct_Extensions = [], sct_Signature = digitally_signed (sg_Public demo_signer) [0]\<rparr> = Inr sb"
    using m by blast
  have h: "ll_LeafValue (hd (sv_backend demo_added)) = [0, 0, 0, 0, 0, 0, 0, 0, 0, 9, 0, 0, 0, 0, 1, 1, 0, 0]"
    by (simp add: demo_added_def)
  have w: "marshalAndWriteAddChainResponse demo_ctfe (demo_request ''POST'' []) \<lparr>sct_SCTVersion = V1, sct_LogID = 7 # replicate 31 0,
      sct_Timestamp = 9, sct_Extensions = [], sct_Signature = digitally_signed (sg_Public demo_signer) [0]\<rparr> (li_signer demo_log) st =
      (HOk (AddChainBody \<lparr>acr_SCTVersion = 0, acr_ID = 7 # replicate 31 0, acr_Timestamp = 9, acr_Extensions = [],
         acr_Signature = [4, 1, 0, 1, 0]\<rparr>), st)" for st :: "(LogLeaf list, nat) server"
    by (simp add: marshalAndWriteAddChainResponse_def handler_simps d)
      (simp add: GetCTLogID_def sum256_def demo_ctfe_def demo_log_ops_def toy_env_def demo_request_def V1_def numeral_eq_Suc)
  show ?thesis
    unfolding addChainInternal_def Let_def bind_h_def t b
    by (simp add: try_option_def ret_def try_chain_def try_ct_def try_run_def require_def not_nil_def demo_verifyAddChain [simplified]
        demo_leaf [simplified] l q s sb h w demo_unmarshal)
qed

theorem add_chain_sct_verifies_witness:
  "\<exists>sct logged. ToSignedCertificateTimestamp \<lparr>acr_SCTVersion = 0, acr_ID = 7 # replicate 31 0, acr_Timestamp = 9, acr_Extensions = [],
      acr_Signature = [4, 1, 0, 1, 0]\<rparr> = Some (Inr sct) \<and>
    VerifySCTSignature (ctfe_ops demo_ctfe) (sg_Public (li_signer demo_log)) sct (leaf_entry logged) = Inr ()"
  using add_chain_sct_verifies [OF demo_add_chain demo_laws(1-3)] by blast

lemma demo_paths:
  "Handlers demo_ctfe demo_log ''log'' ''/log/ct/v1/get-sth'' =
     Some \<lparr>ah_Info = demo_log, ah_Handler = getSTH demo_ctfe, ah_Name = GetSTHName, ah_Method = ''GET''\<rparr>"
  "Handlers demo_ctfe demo_log ''log'' ''/log/ct/v1/get-entries'' =
     Some \<lparr>ah_Info = demo_log, ah_Handler = getEntries demo_ctfe, ah_Name = GetEntriesName, ah_Method = ''GET''\<rparr>"
  "Handlers demo_ctfe demo_log ''log'' ''/log/ct/v1/get-roots'' =
     Some \<lparr>ah_Info = demo_log, ah_Handler = getRoots, ah_Name = GetRootsName, ah_Method = ''GET''\<rparr>"
  by (simp_all add: Handlers_def url_prefix_def trim_slashes_def has_prefix_def demo_log_def)

definition demo_sth_response :: GetSTHResponse where
  "demo_sth_response = \<lparr>gsr_TreeSize = 1, gsr_Timestamp = 7, gsr_SHA256RootHash = replicate 32 3, gsr_TreeHeadSignature = [4, 1, 0, 1, 0]\<rparr>"

lemma demo_heads:
  "fst (serve_all demo_ctfe demo_log ''log'' [(''/log/ct/v1/get-sth'', demo_request ''GET'' []),
      (''/log/ct/v1/get-sth'', demo_request ''GET'' [])] demo_server) =
     [Reply 200 (STHBody demo_sth_response), Reply 200 (STHBody demo_sth_response)]"
proof -
  have d: "marshal_ct T_DigitallySigned v_DigitallySigned (digitally_signed (sg_Public demo_signer) [0]) = Inr [4, 1, 0, 1, 0]"
    by (simp add: digitally_signed_def demo_signer_def tls_key_def SignatureAlgorithmFromPubKey_def alg_defs demo_marshal)
  have i: "SerializeSTHSignatureInput (root_sth \<lparr>lr_TreeSize = 1, lr_RootHash = replicate 32 3, lr_TimestampNanos = 7000000\<rparr>) =
      Inr (0 # 1 # be_bytes 8 7 @ be_bytes 8 1 @ replicate 32 3)"
    by (simp add: SerializeSTH_Inr root_sth_def ths_layout)
  have h: "take (Suc 0) (sum256 demo_ctfe (x # xs)) = [x]" for x xs
    by (simp add: sum256_def demo_ctfe_def demo_log_ops_def toy_env_def take_Cons')
  define s1 where "s1 = demo_server\<lparr>sv_rand := 1, sv_cache := \<lparr>sc_input = 0 # 1 # be_bytes 8 7 @ be_bytes 8 1 @ replicate 32 3,
    sc_sig = digitally_signed (sg_Public demo_signer) [0]\<rparr>\<rparr>"
  have r: "getSignedLogRoot demo_ctfe demo_log None s = (Inr \<lparr>lr_TreeSize = 1, lr_RootHash = replicate 32 3, lr_TimestampNanos = 7000000\<rparr>, s)"
    if "s = demo_server \<or> s = s1" for s
    using that by (auto simp: getSignedLogRoot_def demo_log_defs s1_def)
  have t: "signV1TreeHead demo_ctfe (li_signer demo_log) (root_sth \<lparr>lr_TreeSize = 1, lr_RootHash = replicate 32 3, lr_TimestampNanos = 7000000\<rparr>) s =
      (Some ((root_sth \<lparr>lr_TreeSize = 1, lr_RootHash = replicate 32 3, lr_TimestampNanos = 7000000\<rparr>)\<lparr>sth_TreeHeadSignature := digitally_signed (sg_Public demo_signer) [0]\<rparr>), s1)"
    if "s = demo_server \<or> s = s1" for s
    using that
    by (auto simp: signV1TreeHead_def i GetSignature_def SetSignature_def s1_def demo_server_def sign_digest_def demo_log_def demo_signer_def h Let_def)
  have g: "getSTH demo_ctfe demo_log (demo_request ''GET'' []) s = (HOk (STHBody demo_sth_response), s1)" if "s = demo_server \<or> s = s1" for s
    using r [OF that] t [OF that] d
    by (simp add: getSTH_def GetSTH_def demo_log_def writeSTH_def handler_simps digitally_signed_def root_sth_def demo_sth_response_def demo_request_def)
  show ?thesis
    using g by (simp add: serve_def demo_paths ServeHTTP_def StatusOK_def) (simp add: demo_request_def)
qed

theorem served_heads_verify_witness:
  "list_all (good_reply demo_ctfe (sg_Public demo_signer)) [Reply 200 (STHBody demo_sth_response), Reply 200 (STHBody demo_sth_response)]"
  using served_heads_verify [OF demo_laws(1) _ _ prod.collapse [symmetric], of demo_server "''log''"
      "[(''/log/ct/v1/get-sth'', demo_request ''GET'' []), (''/log/ct/v1/get-sth'', demo_request ''GET'' [])]"]
  unfolding demo_heads by (simp add: demo_log_def demo_server_def)


lemma demo_entries:
  "getEntries demo_ctfe demo_log (demo_request ''GET'' ''0'') demo_added =
     (HOk (EntriesBody [\<lparr>lentry_LeafInput = ll_LeafValue (hd (sv_backend demo_added)),
        lentry_ExtraData = ll_ExtraData (hd (sv_backend demo_added))\<rparr>]), demo_added)"
  by (simp add: getEntries_def handler_simps marshalGetEntriesResponse_eq)
    (simp add: demo_ctfe_def demo_request_def parseGetEntriesRange_def ret_def ParseInt_def ParseUint_def has_prefix_def digit_val_def
      wrap64_def fetch_by_range_def handler_simps demo_log_def demo_rpc_def demo_added_def demo_server_def to_uint64_def)



theorem internal_errors_masked_witness:
  "\<exists>body. serve demo_ctfe demo_log ''log'' (''/log/ct/v1/get-roots'', (demo_request ''GET'' [])\<lparr>rq_writeOk := False\<rparr>) demo_server =
     (Reply StatusInternalServerError body, demo_server) \<and> body = ErrorPage None"
proof -
  obtain body where b: "serve demo_ctfe demo_log ''log'' (''/log/ct/v1/get-roots'', (demo_request ''GET'' [])\<lparr>rq_writeOk := False\<rparr>) demo_server =
      (Reply StatusInternalServerError body, demo_server)"
    by (simp add: serve_def demo_paths ServeHTTP_def demo_request_def getRoots_def write_body_def fail_def SendHTTPError_def)
  then show ?thesis using internal_errors_masked [OF _ b] by (simp add: demo_log_def)
qed

end
