(* ===== verification/Log_Client.thy ===== *)
theory Log_Client
  imports CTFE_Serving
begin

text \<open>
  The client of a log: the JSON client with its back-off and retry loop (\<^verbatim>\<open>src/jsonclient/client.go\<close>,
  \<^verbatim>\<open>src/jsonclient/backoff.go\<close>) and the calls of \<^verbatim>\<open>LogClient\<close> (\<^verbatim>\<open>src/client/logclient.go\<close>,
  \<^verbatim>\<open>src/client/getentries.go\<close>). What comes over the network, the readings of the clock and the JSON
  decoder are arguments.
\<close>

section \<open>Back-off\<close>

record backoff =
  bo_multiplier :: nat
  bo_notBefore :: gotime

definition maxMultiplier :: nat where "maxMultiplier = 8"

definition time_Second :: int where "time_Second = 1000000000"

text \<open>
  The three readings of the clock are arguments: for the comparison, for the new deadline and for the result.
\<close>

definition backoff_set :: "backoff \<Rightarrow> int option \<Rightarrow> gotime \<Rightarrow> gotime \<Rightarrow> gotime \<Rightarrow> int \<times> backoff" where
  "backoff_set b override now1 now2 now3 =
     (if bo_notBefore b > now1 then
        let b' = (case override of
                    None \<Rightarrow> b
                  | Some d \<Rightarrow>
                      let notBefore = now2 + d
                      in if notBefore > bo_notBefore b then b\<lparr>bo_notBefore := notBefore\<rparr> else b)
        in (bo_notBefore b' - now3, b')
      else
        (case override of
           Some d \<Rightarrow> (d, b\<lparr>bo_notBefore := now2 + d\<rparr>)
         | None \<Rightarrow>
             let m = (if bo_multiplier b < maxMultiplier then bo_multiplier b + 1 else bo_multiplier b);
                 wait = time_Second * 2 ^ (m - 1)
             in (wait, \<lparr>bo_multiplier = m, bo_notBefore = now2 + wait\<rparr>)))"

definition decreaseMultiplier :: "backoff \<Rightarrow> backoff" where
  "decreaseMultiplier b = (if bo_multiplier b > 0 then b\<lparr>bo_multiplier := bo_multiplier b - 1\<rparr> else b)"

section \<open>Requests\<close>

datatype client_err = ContextCanceled | DeadlineExceeded | RequestFailed | RspError int

text \<open>What a request meets: no response, a response whose body cannot be read, or a response.\<close>

datatype wire = NoResponse client_err | UnreadableBody int | Response int string bytes

record 'a response =
  rsp_StatusCode :: int
  rsp_RetryAfter :: string
  rsp_value :: "'a option"

definition GetAndParse :: "(bytes \<Rightarrow> 'a option) \<Rightarrow> wire \<Rightarrow> client_err + 'a" where
  "GetAndParse json w =
     (case w of
        NoResponse e \<Rightarrow> Inl e
      | UnreadableBody status \<Rightarrow> Inl (RspError status)
      | Response status retryAfter body \<Rightarrow>
          if status \<noteq> StatusOK then Inl (RspError status)
          else (case json body of None \<Rightarrow> Inl (RspError status) | Some x \<Rightarrow> Inr x))"

text \<open>The response value is set for status 200 only.\<close>

definition PostAndParse :: "(bytes \<Rightarrow> 'a option) \<Rightarrow> wire \<Rightarrow> client_err + 'a response" where
  "PostAndParse json w =
     (case w of
        NoResponse e \<Rightarrow> Inl e
      | UnreadableBody status \<Rightarrow> Inl (RspError status)
      | Response status retryAfter body \<Rightarrow>
          if status = StatusOK
          then (case json body of
                  None \<Rightarrow> Inl (RspError status)
                | Some x \<Rightarrow> Inr \<lparr>rsp_StatusCode = status, rsp_RetryAfter = retryAfter, rsp_value = Some x\<rparr>)
          else Inr \<lparr>rsp_StatusCode = status, rsp_RetryAfter = retryAfter, rsp_value = None\<rparr>)"

text \<open>
  One turn of the retry loop meets: the request, readings of the clock, the parse of \<^verbatim>\<open>Retry-After\<close> as a date,
  and how the wait ends (with an error when the context is done).
\<close>

record attempt =
  at_wire :: wire
  at_now :: "gotime \<times> gotime \<times> gotime"
  at_now_date :: gotime
  at_ParseDate :: "string \<Rightarrow> gotime option"
  at_wait :: "client_err option"

definition retry_after :: "attempt \<Rightarrow> string \<Rightarrow> int option" where
  "retry_after a retryAfter =
     (if retryAfter = [] then None
      else case ParseInt retryAfter of
             Some seconds \<Rightarrow> Some (wrap64 (seconds * time_Second))
           | None \<Rightarrow> map_option (\<lambda>date. date - at_now_date a) (at_ParseDate a retryAfter))"

definition wait_turn :: "attempt \<Rightarrow> backoff \<Rightarrow> (client_err + 'a response) option \<times> backoff" where
  "wait_turn a b = (map_option Inl (at_wait a), b)"

text \<open>A turn ends the loop with a result, or asks for another one.\<close>

definition retry_turn :: "(bytes \<Rightarrow> 'a option) \<Rightarrow> attempt \<Rightarrow> backoff \<Rightarrow> (client_err + 'a response) option \<times> backoff" where
  "retry_turn json a b =
     (let set = (\<lambda>override. case at_now a of (t1, t2, t3) \<Rightarrow> snd (backoff_set b override t1 t2 t3)) in
      case PostAndParse json (at_wire a) of
        Inl err \<Rightarrow>
          if err = ContextCanceled \<or> err = DeadlineExceeded then (Some (Inl err), b)
          else wait_turn a (set None)
      | Inr rsp \<Rightarrow>
          if rsp_StatusCode rsp = StatusOK then (Some (Inr rsp), b)
          else if rsp_StatusCode rsp = StatusRequestTimeout then wait_turn a b
          else if rsp_StatusCode rsp = StatusServiceUnavailable then wait_turn a (set (retry_after a (rsp_RetryAfter rsp)))
          else (Some (Inl (RspError (rsp_StatusCode rsp))), b))"

text \<open>The loop; \<open>None\<close> when it goes on forever.\<close>

partial_function (option) PostAndParseWithRetry ::
    "(bytes \<Rightarrow> 'a option) \<Rightarrow> (nat \<Rightarrow> attempt) \<Rightarrow> nat \<Rightarrow> backoff \<Rightarrow> ((client_err + 'a response) \<times> backoff) option" where
  "PostAndParseWithRetry json att n b =
     (case retry_turn json (att n) b of
        (Some res, b') \<Rightarrow> Some (res, b')
      | (None, b') \<Rightarrow> PostAndParseWithRetry json att (Suc n) b')"

section \<open>Calls of the log client\<close>

datatype client_error = ClientErr client_err | CtErr ct_error | BadArgument

definition format_int :: "int \<Rightarrow> string" where
  "format_int i = (if i < 0 then CHR ''-'' # fmt_d (nat (- i)) else fmt_d (nat i))"

text \<open>\<^verbatim>\<open>copy\<close> into an array of 32 bytes.\<close>

definition copy32 :: "bytes \<Rightarrow> bytes" where
  "copy32 b = take 32 (b @ replicate 32 0)"

definition lift_ct :: "(ct_error, 'a) run \<Rightarrow> (client_error, 'a) run" where
  "lift_ct r = map_option (map_sum CtErr id) r"

definition client_VerifySTHSignature ::
    "('rp, 'ep, 'rand) x509_ops \<Rightarrow> PublicKey option \<Rightarrow> SignedTreeHead \<Rightarrow> ct_error + unit" where
  "client_VerifySTHSignature ops verifier sth =
     (case verifier of None \<Rightarrow> Inr () | Some pk \<Rightarrow> VerifySTHSignature ops pk sth)"

definition client_VerifySCTSignature ::
    "('rp, 'ep, 'rand) x509_ops \<Rightarrow> (bytes \<Rightarrow> bytes) \<Rightarrow> 'o tbs_codec \<Rightarrow> x509_parser \<Rightarrow> PublicKey option \<Rightarrow>
       SignedCertificateTimestamp \<Rightarrow> u64 \<Rightarrow> ASN1Cert list \<Rightarrow> ct_error + unit" where
  "client_VerifySCTSignature ops sha256 codec ParseCertificate verifier sct ctype certData =
     (case verifier of
        None \<Rightarrow> Inr ()
      | Some pk \<Rightarrow>
          bind_res (MerkleTreeLeafFromRawChain sha256 codec ParseCertificate certData ctype (sct_Timestamp sct)) (\<lambda>leaf.
            VerifySCTSignature ops pk sct (leaf_entry leaf)))"

text \<open>The retried post is an argument; it takes the chain of the request.\<close>

definition addChainWithRetry ::
    "('rp, 'ep, 'rand) x509_ops \<Rightarrow> (bytes \<Rightarrow> bytes) \<Rightarrow> 'o tbs_codec \<Rightarrow> x509_parser \<Rightarrow> PublicKey option \<Rightarrow>
       u64 \<Rightarrow> (bytes list \<Rightarrow> client_err + AddChainResponse) \<Rightarrow> ASN1Cert list \<Rightarrow> (client_error, SignedCertificateTimestamp) run" where
  "addChainWithRetry ops sha256 codec ParseCertificate verifier ctype post chain =
     (case post (map cert_Data chain) of
        Inl err \<Rightarrow> Some (Inl (ClientErr err))
      | Inr resp \<Rightarrow>
          bind_run (lift_ct (unmarshal_all ''DigitallySigned'' T_DigitallySigned of_DigitallySigned (acr_Signature resp))) (\<lambda>ds.
            case DecodeString (acr_Extensions resp) of
              None \<Rightarrow> Some (Inl (CtErr (BadBase64 ''Extensions'')))
            | Some exts \<Rightarrow>
                let sct = \<lparr>sct_SCTVersion = acr_SCTVersion resp, sct_LogID = copy32 (acr_ID resp),
                      sct_Timestamp = acr_Timestamp resp, sct_Extensions = exts, sct_Signature = ds\<rparr>
                in case client_VerifySCTSignature ops sha256 codec ParseCertificate verifier sct ctype chain of
                     Inl e \<Rightarrow> Some (Inl (CtErr e))
                   | Inr _ \<Rightarrow> Some (Inr sct)))"

definition client_AddChain ::
    "('rp, 'ep, 'rand) x509_ops \<Rightarrow> (bytes \<Rightarrow> bytes) \<Rightarrow> 'o tbs_codec \<Rightarrow> x509_parser \<Rightarrow> PublicKey option \<Rightarrow>
       (bytes list \<Rightarrow> client_err + AddChainResponse) \<Rightarrow> ASN1Cert list \<Rightarrow> (client_error, SignedCertificateTimestamp) run" where
  "client_AddChain ops sha256 codec ParseCertificate verifier post chain =
     addChainWithRetry ops sha256 codec ParseCertificate verifier X509LogEntryType post chain"

definition client_AddPreChain ::
    "('rp, 'ep, 'rand) x509_ops \<Rightarrow> (bytes \<Rightarrow> bytes) \<Rightarrow> 'o tbs_codec \<Rightarrow> x509_parser \<Rightarrow> PublicKey option \<Rightarrow>
       (bytes list \<Rightarrow> client_err + AddChainResponse) \<Rightarrow> ASN1Cert list \<Rightarrow> (client_error, SignedCertificateTimestamp) run" where
  "client_AddPreChain ops sha256 codec ParseCertificate verifier post chain =
     addChainWithRetry ops sha256 codec ParseCertificate verifier PrecertLogEntryType post chain"

text \<open>
  \<^verbatim>\<open>AddJSON\<close> does not look at the status, and takes the text of the extensions as it is. The response is zero
  when the status is not 200.
\<close>

definition AddJSON :: "client_err + AddChainResponse response \<Rightarrow> (client_error, SignedCertificateTimestamp) run" where
  "AddJSON posted =
     (case posted of
        Inl err \<Rightarrow> Some (Inl (ClientErr err))
      | Inr rsp \<Rightarrow>
          let resp = (case rsp_value rsp of
                Some v \<Rightarrow> v
              | None \<Rightarrow> \<lparr>acr_SCTVersion = 0, acr_ID = [], acr_Timestamp = 0, acr_Extensions = [], acr_Signature = []\<rparr>)
          in bind_run (lift_ct (unmarshal_all ''DigitallySigned'' T_DigitallySigned of_DigitallySigned (acr_Signature resp))) (\<lambda>ds.
               Some (Inr \<lparr>sct_SCTVersion = acr_SCTVersion resp, sct_LogID = copy32 (acr_ID resp), sct_Timestamp = acr_Timestamp resp,
                 sct_Extensions = string_bytes (acr_Extensions resp), sct_Signature = ds\<rparr>)))"

definition client_GetSTH ::
    "('rp, 'ep, 'rand) x509_ops \<Rightarrow> PublicKey option \<Rightarrow> client_err + GetSTHResponse \<Rightarrow> (client_error, SignedTreeHead) run" where
  "client_GetSTH ops verifier got =
     (case got of
        Inl err \<Rightarrow> Some (Inl (ClientErr err))
      | Inr resp \<Rightarrow>
          bind_run (lift_ct (ToSignedTreeHead resp)) (\<lambda>sth.
            case client_VerifySTHSignature ops verifier sth of
              Inl e \<Rightarrow> Some (Inl (CtErr e))
            | Inr _ \<Rightarrow> Some (Inr sth)))"

text \<open>The request for entries, by its two parameters.\<close>

definition GetRawEntries ::
    "(string \<Rightarrow> string \<Rightarrow> client_err + LeafEntry list) \<Rightarrow> int \<Rightarrow> int \<Rightarrow> client_error + LeafEntry list" where
  "GetRawEntries get start fin =
     (if fin < 0 then Inl BadArgument
      else if fin < start then Inl BadArgument
      else map_sum ClientErr id (get (format_int start) (format_int fin)))"

fun parse_entries ::
    "x509_parser \<Rightarrow> x509_parser \<Rightarrow> int \<Rightarrow> LeafEntry list \<Rightarrow> (client_error, LogEntry list) run" where
  "parse_entries ParseCertificate ParseTBSCertificate index [] = Some (Inr [])"
| "parse_entries ParseCertificate ParseTBSCertificate index (entry # entries) =
     bind_run (lift_ct (LogEntryFromLeaf ParseCertificate ParseTBSCertificate (word_of_int index) entry)) (\<lambda>(logEntry, err).
       if fatal_ct err then Some (Inl (CtErr (case err of Some e \<Rightarrow> e | None \<Rightarrow> CtPanic)))
       else bind_run (parse_entries ParseCertificate ParseTBSCertificate (wrap64 (index + 1)) entries) (\<lambda>es.
              Some (Inr (logEntry # es))))"

definition client_GetEntries ::
    "x509_parser \<Rightarrow> x509_parser \<Rightarrow> (string \<Rightarrow> string \<Rightarrow> client_err + LeafEntry list) \<Rightarrow> int \<Rightarrow> int \<Rightarrow> (client_error, LogEntry list) run" where
  "client_GetEntries ParseCertificate ParseTBSCertificate get start fin =
     (case GetRawEntries get start fin of
        Inl e \<Rightarrow> Some (Inl e)
      | Inr entries \<Rightarrow> parse_entries ParseCertificate ParseTBSCertificate start entries)"

definition client_GetSTHConsistency ::
    "(string \<Rightarrow> string \<Rightarrow> client_err + bytes list) \<Rightarrow> u64 \<Rightarrow> u64 \<Rightarrow> client_error + bytes list" where
  "client_GetSTHConsistency get first second = map_sum ClientErr id (get (fmt_d (unat first)) (fmt_d (unat second)))"

definition client_GetProofByHash ::
    "(string \<Rightarrow> string \<Rightarrow> client_err + int \<times> bytes list) \<Rightarrow> bytes \<Rightarrow> u64 \<Rightarrow> client_error + int \<times> bytes list" where
  "client_GetProofByHash get hash treeSize = map_sum ClientErr id (get (EncodeToString hash) (fmt_d (unat treeSize)))"

fun decode_roots :: "string list \<Rightarrow> client_error + ASN1Cert list" where
  "decode_roots [] = Inr []"
| "decode_roots (cert64 # rest) =
     (case DecodeString cert64 of
        None \<Rightarrow> Inl (CtErr (BadBase64 ''certificate''))
      | Some cert \<Rightarrow> bind_res (decode_roots rest) (\<lambda>roots. Inr (\<lparr>cert_Data = cert\<rparr> # roots)))"

definition client_GetAcceptedRoots :: "client_err + string list \<Rightarrow> client_error + ASN1Cert list" where
  "client_GetAcceptedRoots got = (case got of Inl err \<Rightarrow> Inl (ClientErr err) | Inr certificates \<Rightarrow> decode_roots certificates)"

definition client_GetEntryAndProof ::
    "(string \<Rightarrow> string \<Rightarrow> client_err + 'a) \<Rightarrow> u64 \<Rightarrow> u64 \<Rightarrow> client_error + 'a" where
  "client_GetEntryAndProof get index treeSize = map_sum ClientErr id (get (fmt_d (unat index)) (fmt_d (unat treeSize)))"

section \<open>Numbers in requests\<close>

lemma parse_digits_append:
  "parse_digits acc (xs @ [c]) = (case parse_digits acc xs of None \<Rightarrow> None
     | Some k \<Rightarrow> (case digit_val c of None \<Rightarrow> None | Some d \<Rightarrow> Some (10 * k + d)))"
  by (induction xs arbitrary: acc) (auto split: option.splits)

lemma digit_char: "d < 10 \<Longrightarrow> digit_val (char_of (48 + d)) = Some d"
  by (simp add: digit_val_def Let_def)

lemma parse_fmt_d: "parse_digits 0 (fmt_d n) = Some n"
proof (induction n rule: fmt_d.induct)
  case (1 n)
  show ?case
  proof (cases "n < 10")
    case True
    then show ?thesis by (subst fmt_d.simps) (simp add: digit_char)
  next
    case False
    then show ?thesis using 1 digit_char [of "n mod 10"] by (subst fmt_d.simps) (simp add: parse_digits_append)
  qed
qed

lemma fmt_d_head: "\<exists>d cs. fmt_d n = char_of (48 + d :: nat) # cs \<and> d < 10"
proof (induction n rule: fmt_d.induct)
  case (1 n)
  then show ?case by (subst fmt_d.simps) force
qed

lemma fmt_d_prefix: "fmt_d n \<noteq> []" "\<not> has_prefix (fmt_d n) ''-''" "\<not> has_prefix (fmt_d n) ''+''"
proof -
  obtain d cs where d: "fmt_d n = char_of (48 + d :: nat) # cs" "d < 10" using fmt_d_head by blast
  have "of_char (char_of (48 + d :: nat)) \<noteq> (of_char (CHR ''-'') :: nat)"
    "of_char (char_of (48 + d :: nat)) \<noteq> (of_char (CHR ''+'') :: nat)" using d(2) by simp_all
  then have "char_of (48 + d :: nat) \<noteq> CHR ''-''" "char_of (48 + d :: nat) \<noteq> CHR ''+''" by (auto simp only:)
  then show "fmt_d n \<noteq> []" "\<not> has_prefix (fmt_d n) ''-''" "\<not> has_prefix (fmt_d n) ''+''"
    using d(1) by (simp_all add: has_prefix_def)
qed

lemma ParseInt_format:
  assumes "- (2 ^ 63) \<le> i" "i < 2 ^ 63"
  shows "ParseInt (format_int i) = Some i"
  using assms fmt_d_prefix by (auto simp: ParseInt_def format_int_def ParseUint_def parse_fmt_d has_prefix_def nat_less_iff nat_le_iff)

section \<open>Retrying\<close>

text \<open>How a turn ends, which does not depend on the back-off.\<close>

definition turn_result :: "(bytes \<Rightarrow> 'a option) \<Rightarrow> attempt \<Rightarrow> (client_err + 'a response) option" where
  "turn_result json a =
     (case PostAndParse json (at_wire a) of
        Inl err \<Rightarrow> if err = ContextCanceled \<or> err = DeadlineExceeded then Some (Inl err) else map_option Inl (at_wait a)
      | Inr rsp \<Rightarrow>
          if rsp_StatusCode rsp = StatusOK then Some (Inr rsp)
          else if rsp_StatusCode rsp \<in> {StatusRequestTimeout, StatusServiceUnavailable} then map_option Inl (at_wait a)
          else Some (Inl (RspError (rsp_StatusCode rsp))))"

lemma retry_turn_result: "fst (retry_turn json a b) = turn_result json a"
  by (auto simp: retry_turn_def turn_result_def wait_turn_def Let_def split: sum.splits)

lemma retry_ends:
  "(\<exists>b'. PostAndParseWithRetry json att n b = Some (res, b')) \<longleftrightarrow>
     (\<exists>k. turn_result json (att (n + k)) = Some res \<and> list_all (\<lambda>j. turn_result json (att (n + j)) = None) [0..<k])"
proof
  assume "\<exists>b'. PostAndParseWithRetry json att n b = Some (res, b')"
  then obtain b' where "PostAndParseWithRetry json att n b = Some (res, b')" by blast
  then have "\<exists>k. turn_result json (att (n + k)) = Some (fst (res, b')) \<and>
      list_all (\<lambda>j. turn_result json (att (n + j)) = None) [0..<k]"
  proof (rule PostAndParseWithRetry.raw_induct [rotated, where P = "\<lambda>json att n b r.
      \<exists>k. turn_result json (att (n + k)) = Some (fst r) \<and> list_all (\<lambda>j. turn_result json (att (n + j)) = None) [0..<k]"])
    fix rec json att n b r
    assume IH: "\<And>json att n b r. rec json att n b = Some r \<Longrightarrow>
        \<exists>k. turn_result json (att (n + k)) = Some (fst r) \<and> list_all (\<lambda>j. turn_result json (att (n + j)) = None) [0..<k]"
      and s: "(case retry_turn json (att n) b of (Some res, b') \<Rightarrow> Some (res, b') | (None, b') \<Rightarrow> rec json att (Suc n) b') = Some r"
    obtain t b1 where t: "retry_turn json (att n) b = (t, b1)" by fastforce
    have tr: "turn_result json (att n) = t" using retry_turn_result [of json "att n" b] t by simp
    show "\<exists>k. turn_result json (att (n + k)) = Some (fst r) \<and> list_all (\<lambda>j. turn_result json (att (n + j)) = None) [0..<k]"
    proof (cases t)
      case None
      then have "rec json att (Suc n) b1 = Some r" using s t by simp
      from IH [OF this] obtain k where k: "turn_result json (att (Suc n + k)) = Some (fst r)"
        "list_all (\<lambda>j. turn_result json (att (Suc n + j)) = None) [0..<k]" by blast
      have "list_all (\<lambda>j. turn_result json (att (n + j)) = None) [0..<Suc k]"
        using k(2) tr None by (auto simp: list_all_iff less_Suc_eq_0_disj simp del: upt_Suc)
      then show ?thesis using k(1) by (intro exI [of _ "Suc k"]) simp
    next
      case (Some x)
      then show ?thesis using s t tr by (intro exI [of _ 0]) auto
    qed
  qed
  then show "\<exists>k. turn_result json (att (n + k)) = Some res \<and> list_all (\<lambda>j. turn_result json (att (n + j)) = None) [0..<k]"
    by simp
next
  assume "\<exists>k. turn_result json (att (n + k)) = Some res \<and> list_all (\<lambda>j. turn_result json (att (n + j)) = None) [0..<k]"
  then obtain k where "turn_result json (att (n + k)) = Some res" "list_all (\<lambda>j. turn_result json (att (n + j)) = None) [0..<k]"
    by blast
  then show "\<exists>b'. PostAndParseWithRetry json att n b = Some (res, b')"
  proof (induction k arbitrary: n b)
    case 0
    then show ?case using retry_turn_result [of json "att n" b]
      by (subst PostAndParseWithRetry.simps) (auto split: prod.splits)
  next
    case (Suc k)
    have all: "turn_result json (att (n + j)) = None" if "j < Suc k" for j
      using Suc.prems(2) that by (simp add: list_all_iff del: upt_Suc)
    have "turn_result json (att n) = None" using all [of 0] by simp
    then obtain b1 where t: "retry_turn json (att n) b = (None, b1)" using retry_turn_result [of json "att n" b] by (metis prod.collapse)
    have "list_all (\<lambda>j. turn_result json (att (Suc n + j)) = None) [0..<k]" using all [of "Suc _"] by (simp add: list_all_iff)
    then show ?case using Suc.IH [of "Suc n" b1] Suc.prems(1) t by (subst PostAndParseWithRetry.simps) simp
  qed
qed

text \<open>
  (C32) A retried post ends with the first attempt that is decisive, and runs on as long as there is none: it
  returns a result exactly when some attempt gives it (a response with status 200, an error of the
  context, or a status other than 200, 408 and 503) and all attempts before were to be retried. A value
  comes with status 200 only.
\<close>

theorem retry_first_decisive:
  "(\<exists>b'. PostAndParseWithRetry json att 0 b = Some (res, b')) =
     (\<exists>k. turn_result json (att k) = Some res \<and> list_all (\<lambda>j. turn_result json (att j) = None) [0..<k]) \<and>
   (PostAndParseWithRetry json att 0 b = None) = (\<forall>k. turn_result json (att k) = None) \<and>
   (case PostAndParseWithRetry json att 0 b of
      Some (Inr rsp, b') \<Rightarrow> rsp_StatusCode rsp = StatusOK \<and> rsp_value rsp \<noteq> None
    | _ \<Rightarrow> True)"
proof (intro conjI)
  note ends = retry_ends [of json att 0 b, simplified]
  show "(\<exists>b'. PostAndParseWithRetry json att 0 b = Some (res, b')) =
     (\<exists>k. turn_result json (att k) = Some res \<and> list_all (\<lambda>j. turn_result json (att j) = None) [0..<k])"
    by (rule ends)
  show "(PostAndParseWithRetry json att 0 b = None) = (\<forall>k. turn_result json (att k) = None)"
  proof (intro iffI allI)
    fix k assume n: "PostAndParseWithRetry json att 0 b = None"
    show "turn_result json (att k) = None"
    proof (induction k rule: less_induct)
      case (less k)
      then have "list_all (\<lambda>j. turn_result json (att j) = None) [0..<k]" by (simp add: list_all_iff)
      then show ?case using n ends by (metis option.distinct(1) not_None_eq)
    qed
  next
    assume "\<forall>k. turn_result json (att k) = None"
    then show "PostAndParseWithRetry json att 0 b = None" using ends by (metis option.distinct(1) not_None_eq prod.exhaust)
  qed
  have "turn_result json a = Some (Inr rsp) \<Longrightarrow> rsp_StatusCode rsp = StatusOK \<and> rsp_value rsp \<noteq> None" for a rsp
    by (auto simp: turn_result_def PostAndParse_def split: wire.splits if_splits option.splits sum.splits)
  then show "case PostAndParseWithRetry json att 0 b of
      Some (Inr rsp, b') \<Rightarrow> rsp_StatusCode rsp = StatusOK \<and> rsp_value rsp \<noteq> None | _ \<Rightarrow> True"
    using ends by (force split: option.splits sum.splits)
qed

text \<open>The back-off: the multiplier stays within its limit, and a wait of its own lasts from 1 to 128 seconds.\<close>

lemma backoff_bounds:
  assumes "bo_multiplier b \<le> maxMultiplier" "backoff_set b override now1 now2 now3 = (wait, b')"
  shows "bo_multiplier b' \<le> maxMultiplier"
    and "bo_notBefore b \<le> now1 \<Longrightarrow> override = None \<Longrightarrow> time_Second \<le> wait \<and> wait \<le> 128 * time_Second \<and> bo_notBefore b' = now2 + wait"
    and "now1 \<le> now2 \<Longrightarrow> pred_option (\<lambda>d. 0 \<le> d) override \<Longrightarrow> bo_notBefore b \<le> bo_notBefore b'"
proof -
  have p: "(1 :: int) \<le> 2 ^ (m - 1)" "(2 :: int) ^ (m - 1) \<le> 2 ^ 7" if "m \<le> 8" for m :: nat
    using that power_increasing [of "m - 1" 7 "2 :: int"] by simp_all
  show "bo_multiplier b' \<le> maxMultiplier" using assms
    by (auto simp: backoff_set_def Let_def maxMultiplier_def split: if_splits option.splits)
  show "time_Second \<le> wait \<and> wait \<le> 128 * time_Second \<and> bo_notBefore b' = now2 + wait" if "bo_notBefore b \<le> now1" "override = None"
    using assms that p [of "bo_multiplier b + 1"] p [of "bo_multiplier b"]
    by (auto simp: backoff_set_def Let_def maxMultiplier_def time_Second_def split: if_splits)
  show "bo_notBefore b \<le> bo_notBefore b'" if "now1 \<le> now2" "pred_option (\<lambda>d. 0 \<le> d) override"
  proof -
    have "0 \<le> time_Second * 2 ^ k" for k by (simp add: time_Second_def)
    from this [of "bo_multiplier b"] this [of "maxMultiplier - 1"] show ?thesis using assms that
      by (auto simp: backoff_set_def Let_def split: if_splits option.splits)
  qed
qed

section \<open>A client and a log\<close>

text \<open>
  What the backend is relied on for when it is given a leaf: the leaf it returns is that of the same
  certificate, possibly queued before with another time. And what the certificate parser is relied on
  for: a parsed certificate keeps its bytes.
\<close>

definition dedup_law :: "'b log_rpc \<Rightarrow> bool" where
  "dedup_law rpc \<longleftrightarrow> (\<forall>i queued c st returned st' cert t.
     QueueLeaves rpc i [queued] c st = (Inr (Some [Some returned]), st') \<and>
     marshal_ct T_MerkleTreeLeaf v_MerkleTreeLeaf (CreateX509MerkleTreeLeaf cert t) = Inr (ll_LeafValue queued) \<longrightarrow>
     (\<exists>t'. marshal_ct T_MerkleTreeLeaf v_MerkleTreeLeaf (CreateX509MerkleTreeLeaf cert t') = Inr (ll_LeafValue returned)))"

definition parser_law :: "x509_parser \<Rightarrow> bool" where
  "parser_law P \<longleftrightarrow> (\<forall>b c. fst (P b) = Some c \<longrightarrow> Raw c = b)"

lemma typed_X509_leaf:
  "length (cert_Data c) < 2 ^ 63 \<Longrightarrow> typed_leaf (CreateX509MerkleTreeLeaf c t)"
  by (cases c) (simp add: typed_leaf_def CreateX509MerkleTreeLeaf_def zero_TimestampedEntry_def ct_type_defs ct_enums v_MerkleTreeLeaf_def
      v_TimestampedEntry_def v_ptr_def v_ASN1Cert_def kind_uint8_def)

lemma parse_chain_parsed:
  "list_all2 (parsed_as P) (map cert_Data chain) cs \<Longrightarrow> parse_chain P i chain = Inr (map Some cs)"
proof (induction chain arbitrary: i cs)
  case (Cons c chain)
  then obtain c' cs' where cs: "cs = c' # cs'" "parsed_as P (cert_Data c) c'" "list_all2 (parsed_as P) (map cert_Data chain) cs'"
    by (auto simp: list_all2_Cons1)
  obtain p err where p: "P (cert_Data c) = (p, err)" by fastforce
  show ?case using Cons.IH [OF cs(3), of "Suc i"] cs(1,2) p by (simp add: parsed_as_def)
qed simp

lemma raw_chain_leaf:
  assumes "list_all2 (parsed_as P) (map cert_Data chain) (c # cs)"
  shows "MerkleTreeLeafFromRawChain sha256 codec P chain X509LogEntryType t = Inr (CreateX509MerkleTreeLeaf \<lparr>cert_Data = Raw c\<rparr> t)"
proof -
  define count where "count = (if 3 > length chain then length chain else 3)"
  have "chain \<noteq> []" using assms by auto
  then have "0 < count" by (auto simp: count_def)
  have "list_all2 (parsed_as P) (map cert_Data (take count chain)) (take count (c # cs))"
    using list_all2_takeI [OF assms] by (simp add: take_map)
  from parse_chain_parsed [OF this, of 0] show ?thesis using \<open>0 < count\<close>
    by (cases count) (simp_all add: MerkleTreeLeafFromRawChain_def Let_def count_def [symmetric] MerkleTreeLeafFromChain_def deref_def)
qed


text \<open>A client call always returns, whatever the response is.\<close>

lemma lift_ct_None: "lift_ct r = None \<longleftrightarrow> r = None"
  by (simp add: lift_ct_def)

lemma bind_run_diverges: "bind_run m f = None \<longleftrightarrow> m = None \<or> (\<exists>x. m = Some (Inr x) \<and> f x = None)"
  by (auto simp: bind_run_def split: option.splits sum.splits)

lemmas run_None = lift_ct_None bind_run_diverges

lemma client_calls_return:
  "addChainWithRetry ops sha256 codec P verifier ctype post chain \<noteq> None" "AddJSON posted \<noteq> None"
  "client_GetSTH ops verifier got \<noteq> None" "client_GetEntries P PT get start fin \<noteq> None"
proof -
  have u: "unmarshal_all ''DigitallySigned'' T_DigitallySigned of_DigitallySigned b \<noteq> None" for b
    using ds.unmarshal_all_returns [of "''DigitallySigned''" b] by auto
  then show "addChainWithRetry ops sha256 codec P verifier ctype post chain \<noteq> None" "AddJSON posted \<noteq> None"
    unfolding addChainWithRetry_def AddJSON_def Let_def
    by (auto simp: run_None simp del: not_None_eq split: sum.splits option.splits)
  have "ToSignedTreeHead resp \<noteq> None" for resp
    using u unfolding ToSignedTreeHead_def by (auto simp: run_None simp del: not_None_eq)
  then show "client_GetSTH ops verifier got \<noteq> None"
    unfolding client_GetSTH_def by (auto simp: run_None simp del: not_None_eq split: sum.splits)
  have "LogEntryFromLeaf P PT index entry \<noteq> None" for index entry
  proof -
    have "unmarshal_all ''MerkleTreeLeaf'' T_MerkleTreeLeaf of_MerkleTreeLeaf (lentry_LeafInput entry) \<noteq> None"
      using leaf.unmarshal_all_returns [of "''MerkleTreeLeaf''" "lentry_LeafInput entry"] by auto
    moreover have "RawLogEntry_switch index entry l \<noteq> None" if "unmarshal_all ''MerkleTreeLeaf'' T_MerkleTreeLeaf of_MerkleTreeLeaf (lentry_LeafInput entry) = Some (Inr l)" for l
      using that by (rule RawLogEntry_leaf) (use RawLogEntry_switch_returns in \<open>metis option.distinct(1)\<close>)
    ultimately show ?thesis
      by (auto simp: LogEntryFromLeaf_def RawLogEntryFromLeaf_def bind_run_def split: option.splits sum.splits)
  qed
  then have "parse_entries P PT index es \<noteq> None" for index es
  proof (induction es arbitrary: index)
    case (Cons e es)
    then show ?case
      by (auto simp: run_None simp del: not_None_eq split: prod.splits if_splits)
  qed simp
  then show "client_GetEntries P PT get start fin \<noteq> None" by (auto simp: client_GetEntries_def split: sum.split)
qed

text \<open>\<^verbatim>\<open>AddJSON\<close> and the add-chain calls read the same response differently.\<close>

theorem AddJSON_keeps_base64:
  "\<exists>sct sct'. AddJSON (Inr \<lparr>rsp_StatusCode = 200, rsp_RetryAfter = [], rsp_value = Some \<lparr>acr_SCTVersion = 0, acr_ID = replicate 32 7,
        acr_Timestamp = 1, acr_Extensions = ''AQ=='', acr_Signature = [4, 3, 0, 0]\<rparr>\<rparr>) = Some (Inr sct) \<and>
     addChainWithRetry demo_log_ops (take 1) demo_codec toy_parser None X509LogEntryType (\<lambda>_. Inr \<lparr>acr_SCTVersion = 0, acr_ID = replicate 32 7,
        acr_Timestamp = 1, acr_Extensions = ''AQ=='', acr_Signature = [4, 3, 0, 0]\<rparr>) [] = Some (Inr sct') \<and>
     sct_Extensions sct' = [1] \<and> sct_Extensions sct = [65, 81, 61, 61]"
proof -
  have d: "DecodeString ''AQ=='' = Some [1]" using DecodeString_EncodeToString [of "[1]"] by (simp add: b64_char_def b64_alphabet_def)
  have "has_type T_DigitallySigned (v_DigitallySigned \<lparr>ds_Algorithm = \<lparr>sha_Hash = 4, sha_Signature = 3\<rparr>, ds_Signature = []\<rparr>)"
    "marshal_ct T_DigitallySigned v_DigitallySigned \<lparr>ds_Algorithm = \<lparr>sha_Hash = 4, sha_Signature = 3\<rparr>, ds_Signature = []\<rparr> = Inr [4, 3, 0, 0]"
    by (simp_all add: T_DigitallySigned_def v_DigitallySigned_def T_SignatureAndHashAlgorithm_def kind_uint8_def demo_marshal)
  then have u: "unmarshal_all ''DigitallySigned'' T_DigitallySigned of_DigitallySigned [4, 3, 0, 0] =
      Some (Inr \<lparr>ds_Algorithm = \<lparr>sha_Hash = 4, sha_Signature = 3\<rparr>, ds_Signature = []\<rparr>)"
    by (simp add: ds.unmarshal_all_iff ds.marshal_ct_iff)
  show ?thesis
    by (simp add: AddJSON_def addChainWithRetry_def client_VerifySCTSignature_def u d lift_ct_def string_bytes_def)
qed

section \<open>Witnesses\<close>


end
