(* ===== verification/Log_Fetcher.thy ===== *)
theory Log_Fetcher
  imports Log_Client "HOL-Library.Multiset"
begin

text \<open>
  The fetcher (\<^verbatim>\<open>src/scanner/fetcher.go\<close>): a generator goroutine that cuts a range of a log into batches, and
  workers that take them from a channel and fetch them, as a step relation over all interleavings. The log
  is any source of entries that answers a request with a non-empty part of the range from its start on;
  the front end of the log is one.
\<close>

section \<open>Options and state\<close>

record FetcherOptions =
  fo_BatchSize :: int
  fo_ParallelFetch :: int
  fo_StartIndex :: int
  fo_EndIndex :: int
  fo_Continuous :: bool

definition DefaultFetcherOptions :: FetcherOptions where
  "DefaultFetcherOptions = \<lparr>fo_BatchSize = 1000, fo_ParallelFetch = 1, fo_StartIndex = 0, fo_EndIndex = 0, fo_Continuous = False\<rparr>"

record Fetcher =
  f_opts :: FetcherOptions
  f_sth :: "SignedTreeHead option"

definition NewFetcher :: "FetcherOptions \<Rightarrow> Fetcher" where
  "NewFetcher opts = \<lparr>f_opts = opts, f_sth = None\<rparr>"

text \<open>The answer of \<^verbatim>\<open>GetSTH\<close> is an argument; it is looked at when no head is cached.\<close>

definition Prepare :: "client_error + SignedTreeHead \<Rightarrow> Fetcher \<Rightarrow> (client_error + SignedTreeHead) \<times> Fetcher" where
  "Prepare got f =
     (case f_sth f of
        Some sth \<Rightarrow> (Inr sth, f)
      | None \<Rightarrow>
          (case got of
             Inl err \<Rightarrow> (Inl err, f)
           | Inr sth \<Rightarrow>
               let size = sint (sth_TreeSize sth);
                   opts = (if fo_EndIndex (f_opts f) = 0 \<or> fo_EndIndex (f_opts f) > size
                           then (f_opts f)\<lparr>fo_EndIndex := size\<rparr> else f_opts f)
               in (Inr sth, \<lparr>f_opts = opts, f_sth = Some sth\<rparr>)))"

text \<open>One attempt to find a bigger head: \<open>None\<close> asks for a retry.\<close>

definition updateSTH :: "bool \<Rightarrow> SignedTreeHead \<Rightarrow> FetcherOptions \<Rightarrow> FetcherOptions option" where
  "updateSTH quick sth opts =
     (let lastSize = (word_of_int (fo_EndIndex opts) :: u64);
          targetSize = lastSize + word_of_int (fo_BatchSize opts)
      in if sth_TreeSize sth \<le> lastSize \<or> quick \<and> sth_TreeSize sth < targetSize then None
         else Some (opts\<lparr>fo_EndIndex := sint (sth_TreeSize sth)\<rparr>))"

definition fetch_min :: "int \<Rightarrow> int \<Rightarrow> int" where
  "fetch_min a b = (if a < b then a else b)"

record EntryBatch =
  eb_Start :: int
  eb_Entries :: "LeafEntry list"

text \<open>A worker waits for a range, fetches the rest of one (both ends inclusive), or has returned.\<close>

datatype worker = Idle | Busy int int | Finished

text \<open>
  The generator has its own copies of the bounds. \<open>fr_stopped\<close> records that the run was stopped or its
  context cancelled.
\<close>

record fetch_run =
  fr_opts :: FetcherOptions
  fr_start :: int
  fr_end :: int
  fr_open :: bool
  fr_workers :: "worker list"
  fr_batches :: "EntryBatch list"
  fr_stopped :: bool

definition start_run :: "FetcherOptions \<Rightarrow> fetch_run" where
  "start_run opts = \<lparr>fr_opts = opts, fr_start = fo_StartIndex opts, fr_end = fo_EndIndex opts, fr_open = True,
     fr_workers = replicate (nat (fo_ParallelFetch opts)) Idle, fr_batches = [], fr_stopped = False\<rparr>"

definition gen_loops :: "fetch_run \<Rightarrow> bool" where
  "gen_loops s \<longleftrightarrow> fr_start s < fr_end s \<or> fo_Continuous (fr_opts s)"

definition batch_end :: "fetch_run \<Rightarrow> int" where
  "batch_end s = wrap64 (fr_start s + fetch_min (wrap64 (fr_end s - fr_start s)) (fo_BatchSize (fr_opts s)))"

text \<open>
  Steps of the generator (\<^verbatim>\<open>genRanges\<close>) and of the workers (\<^verbatim>\<open>runWorker\<close>); a range goes from the one to the
  other over an unbuffered channel.
\<close>

inductive fetch_step :: "(int \<Rightarrow> int \<Rightarrow> LeafEntry list \<Rightarrow> bool) \<Rightarrow> fetch_run \<Rightarrow> fetch_run \<Rightarrow> bool" for get where
  hand_over: "fetch_step get s (s\<lparr>fr_workers := (fr_workers s)[i := Busy (fr_start s) (wrap64 (batch_end s - 1))], fr_start := batch_end s\<rparr>)"
    if "fr_open s" "gen_loops s" "fr_start s \<noteq> fr_end s" "i < length (fr_workers s)" "fr_workers s ! i = Idle"
| bigger_sth: "fetch_step get s (s\<lparr>fr_opts := opts, fr_end := fo_EndIndex opts\<rparr>)"
    if "fr_open s" "gen_loops s" "fr_start s = fr_end s" "updateSTH quick sth (fr_opts s) = Some opts"
| no_bigger_sth: "fetch_step get s (s\<lparr>fr_open := False, fr_stopped := True\<rparr>)"
    if "fr_open s" "gen_loops s" "fr_start s = fr_end s"
| gen_cancelled: "fetch_step get s (s\<lparr>fr_open := False, fr_stopped := True\<rparr>)"
    if "fr_open s" "gen_loops s" "fr_start s \<noteq> fr_end s"
| gen_done: "fetch_step get s (s\<lparr>fr_open := False\<rparr>)"
    if "fr_open s" "\<not> gen_loops s"
| fetch: "fetch_step get s (s\<lparr>fr_workers := (fr_workers s)[i := Busy (wrap64 (a + int (length es))) b],
      fr_batches := fr_batches s @ [\<lparr>eb_Start = a, eb_Entries = es\<rparr>]\<rparr>)"
    if "i < length (fr_workers s)" "fr_workers s ! i = Busy a b" "a \<le> b" "get a b es"
| fetch_fails: "fetch_step get s s"
    if "i < length (fr_workers s)" "fr_workers s ! i = Busy a b" "a \<le> b"
| worker_cancelled: "fetch_step get s (s\<lparr>fr_workers := (fr_workers s)[i := Finished], fr_stopped := True\<rparr>)"
    if "i < length (fr_workers s)" "fr_workers s ! i = Busy a b" "a \<le> b"
| range_done: "fetch_step get s (s\<lparr>fr_workers := (fr_workers s)[i := Idle]\<rparr>)"
    if "i < length (fr_workers s)" "fr_workers s ! i = Busy a b" "\<not> a \<le> b"
| channel_closed: "fetch_step get s (s\<lparr>fr_workers := (fr_workers s)[i := Finished]\<rparr>)"
    if "i < length (fr_workers s)" "fr_workers s ! i = Idle" "\<not> fr_open s"

text \<open>\<^verbatim>\<open>Run\<close> returns when every worker has.\<close>

definition run_returned :: "fetch_run \<Rightarrow> bool" where
  "run_returned s \<longleftrightarrow> list_all (\<lambda>w. w = Finished) (fr_workers s)"

section \<open>Accounting\<close>

text \<open>What was delivered, and what is still to be fetched, as multisets of indices.\<close>

fun worker_load :: "worker \<Rightarrow> int multiset" where
  "worker_load (Busy a b) = mset [a..b]"
| "worker_load _ = {#}"

definition batch_indices :: "EntryBatch \<Rightarrow> int list" where
  "batch_indices b = [eb_Start b..eb_Start b + int (length (eb_Entries b)) - 1]"

definition delivered :: "fetch_run \<Rightarrow> int multiset" where
  "delivered s = sum_list (map (\<lambda>b. mset (batch_indices b)) (fr_batches s))"

definition pending :: "fetch_run \<Rightarrow> int multiset" where
  "pending s = mset [fr_start s..fr_end s - 1] + sum_list (map worker_load (fr_workers s))"

text \<open>The entries that the callback got, each with its index.\<close>

definition delivered_entries :: "fetch_run \<Rightarrow> (int \<times> LeafEntry) multiset" where
  "delivered_entries s = sum_list (map (\<lambda>b. mset (zip (batch_indices b) (eb_Entries b))) (fr_batches s))"

fun worker_ok :: "int \<Rightarrow> worker \<Rightarrow> bool" where
  "worker_ok e (Busy a b) \<longleftrightarrow> 0 \<le> a \<and> a \<le> b + 1 \<and> b < e"
| "worker_ok e _ = True"

definition range_ok_opts :: "FetcherOptions \<Rightarrow> bool" where
  "range_ok_opts opts \<longleftrightarrow> 0 \<le> fo_StartIndex opts \<and> fo_StartIndex opts \<le> fo_EndIndex opts \<and> fo_EndIndex opts < 2 ^ 63 \<and>
     0 < fo_BatchSize opts \<and> fo_BatchSize opts < 2 ^ 63"

definition fetch_inv :: "int \<Rightarrow> fetch_run \<Rightarrow> bool" where
  "fetch_inv first s \<longleftrightarrow>
     0 \<le> first \<and> first \<le> fr_start s \<and> fr_start s \<le> fr_end s \<and> fr_end s < 2 ^ 63 \<and> fo_EndIndex (fr_opts s) = fr_end s \<and>
     0 < fo_BatchSize (fr_opts s) \<and> fo_BatchSize (fr_opts s) < 2 ^ 63 \<and>
     list_all (worker_ok (fr_end s)) (fr_workers s) \<and>
     (\<exists>lost. delivered s + pending s + lost = mset [first..fr_end s - 1] \<and> (\<not> fr_stopped s \<longrightarrow> lost = {#})) \<and>
     (\<not> fr_open s \<and> \<not> fr_stopped s \<longrightarrow> fr_start s = fr_end s)"

text \<open>
  The steps of a run in which the log never reports a size of \<open>2 ^ 63\<close> entries or more, which \<^verbatim>\<open>int64\<close> would make
  negative.
\<close>

definition sane_step :: "(int \<Rightarrow> int \<Rightarrow> LeafEntry list \<Rightarrow> bool) \<Rightarrow> fetch_run \<Rightarrow> fetch_run \<Rightarrow> bool" where
  "sane_step get s t \<longleftrightarrow> fetch_step get s t \<and> 0 \<le> fr_end t"

lemma mset_upto_split: "i \<le> j \<Longrightarrow> j \<le> k + 1 \<Longrightarrow> mset [i..k] = mset [i..j - 1] + mset [j..k]"
  for i j k :: int
  using upto_split1 [of i j k] by (cases "j = k + 1") simp_all

lemma worker_load_update:
  assumes "i < length ws"
  shows "sum_list (map worker_load (ws[i := w])) + worker_load (ws ! i) = sum_list (map worker_load ws) + worker_load w"
  using assms by (rule sum_list_update_add)

lemma updateSTH_bigger:
  assumes "updateSTH quick sth opts = Some opts'" "0 \<le> fo_EndIndex opts" "fo_EndIndex opts < 2 ^ 63" "0 \<le> fo_EndIndex opts'"
  shows "fo_EndIndex opts < fo_EndIndex opts' \<and> fo_EndIndex opts' < 2 ^ 63 \<and> opts' = opts\<lparr>fo_EndIndex := fo_EndIndex opts'\<rparr>"
proof -
  let ?n = "sth_TreeSize sth"
  have n: "fo_EndIndex opts' = sint ?n" "\<not> ?n \<le> word_of_int (fo_EndIndex opts)" "opts' = opts\<lparr>fo_EndIndex := sint ?n\<rparr>"
    using assms(1) by (auto simp: updateSTH_def Let_def split: if_splits)
  have lt: "sint ?n < 2 ^ 63" using sint_lt [of ?n] by simp
  have u: "uint ?n = sint ?n" using assms(4) n(1) lt by (subst uint_sint) (simp add: take_bit_int_eq_self)
  have "uint (word_of_int (fo_EndIndex opts) :: u64) = fo_EndIndex opts"
    using assms(2,3) by (simp add: uint_word_of_int)
  then have "fo_EndIndex opts < sint ?n" using n(2) u by (simp add: word_le_def)
  then show ?thesis using n lt by simp
qed

section \<open>Sources of entries\<close>

text \<open>
  What the fetcher relies on: a request for a range is answered with entries of the log from the start of the
  range on, at least one and no more than it asks for.
\<close>

locale entry_source =
  fixes get :: "int \<Rightarrow> int \<Rightarrow> LeafEntry list \<Rightarrow> bool"
    and entry :: "int \<Rightarrow> LeafEntry"
  assumes get_some: "get a b es \<Longrightarrow> 0 \<le> a \<Longrightarrow> a \<le> b \<Longrightarrow> b < 2 ^ 63 - 1 \<Longrightarrow> 0 < length es \<and> int (length es) \<le> b - a + 1"
    and get_entries: "get a b es \<Longrightarrow> 0 \<le> a \<Longrightarrow> a \<le> b \<Longrightarrow> b < 2 ^ 63 - 1 \<Longrightarrow> es = map entry [a..a + int (length es) - 1]"
begin

definition run_inv :: "int \<Rightarrow> fetch_run \<Rightarrow> bool" where
  "run_inv first s \<longleftrightarrow> fetch_inv first s \<and> list_all (\<lambda>b. eb_Entries b = map entry (batch_indices b)) (fr_batches s) \<and>
     (Finished \<in> set (fr_workers s) \<and> \<not> fr_stopped s \<longrightarrow> \<not> fr_open s)"

lemma worker_at: "fetch_inv first s \<Longrightarrow> i < length (fr_workers s) \<Longrightarrow> worker_ok (fr_end s) (fr_workers s ! i)"
  by (simp add: fetch_inv_def list_all_length)

lemma batch_end_eq:
  assumes "fetch_inv first s" "fr_start s \<noteq> fr_end s"
  shows "batch_end s = fr_start s + min (fr_end s - fr_start s) (fo_BatchSize (fr_opts s))"
    and "fr_start s < batch_end s" and "batch_end s \<le> fr_end s"
proof -
  show e: "batch_end s = fr_start s + min (fr_end s - fr_start s) (fo_BatchSize (fr_opts s))"
    using assms by (auto simp: fetch_inv_def batch_end_def fetch_min_def wrap64_id)
  show "fr_start s < batch_end s" "batch_end s \<le> fr_end s" unfolding e using assms by (auto simp: fetch_inv_def)
qed

lemma inv_update_worker:
  assumes "fetch_inv first s" "i < length (fr_workers s)" "worker_ok (fr_end s) w"
    "fr_workers t = (fr_workers s)[i := w]" "fr_start t = fr_start s" "fr_end t = fr_end s" "fr_opts t = fr_opts s"
    "fr_open t = fr_open s" "fr_stopped s \<longrightarrow> fr_stopped t"
    "delivered t + worker_load w + lost = delivered s + worker_load (fr_workers s ! i)" "\<not> fr_stopped t \<longrightarrow> lost = {#}"
  shows "fetch_inv first t"
proof -
  obtain lost0 where l: "delivered s + pending s + lost0 = mset [first..fr_end s - 1]" "\<not> fr_stopped s \<longrightarrow> lost0 = {#}"
    using assms(1) unfolding fetch_inv_def by blast
  have p: "pending t + worker_load (fr_workers s ! i) = pending s + worker_load w"
    using worker_load_update [OF assms(2), of w] assms(4-6) by (simp add: pending_def ac_simps)
  have "(delivered t + pending t + (lost + lost0)) + worker_load (fr_workers s ! i) =
      (delivered t + worker_load w + lost) + pending s + lost0"
    using p by (simp add: ac_simps)
  also have "\<dots> = mset [first..fr_end s - 1] + worker_load (fr_workers s ! i)"
    unfolding assms(10) l(1) [symmetric] by (simp add: ac_simps)
  finally have "delivered t + pending t + (lost + lost0) = mset [first..fr_end t - 1]" using assms(6) by simp
  moreover have "\<not> fr_stopped t \<longrightarrow> lost + lost0 = {#}" using assms(9,11) l(2) by auto
  moreover have "list_all (worker_ok (fr_end t)) (fr_workers t)"
    using assms(1,3,4,6) by (auto simp: fetch_inv_def intro: list_all_update)
  ultimately show ?thesis using assms(1,5-9) unfolding fetch_inv_def by metis
qed

lemma set_update_cases: "w \<in> set (ws[i := v]) \<Longrightarrow> w = v \<or> w \<in> set ws"
  using set_update_subset_insert [of ws i v] by auto

lemma step_inv:
  assumes "fetch_step get s t" "0 \<le> fr_end t" "run_inv first s"
  shows "run_inv first t"
  using assms
proof (induction rule: fetch_step.cases)
  case (hand_over s i)
  then have inv: "fetch_inv first s" by (simp add: run_inv_def)
  note be = batch_end_eq [OF inv hand_over(5)]
  have w: "wrap64 (batch_end s - 1) = batch_end s - 1" using inv be by (intro wrap64_id) (auto simp: fetch_inv_def)
  let ?ws = "(fr_workers s)[i := Busy (fr_start s) (batch_end s - 1)]"
  have "sum_list (map worker_load ?ws) = sum_list (map worker_load (fr_workers s)) + mset [fr_start s..batch_end s - 1]"
    using worker_load_update [OF hand_over(6), of "Busy (fr_start s) (batch_end s - 1)"] hand_over(7) by simp
  moreover have "mset [fr_start s..fr_end s - 1] = mset [fr_start s..batch_end s - 1] + mset [batch_end s..fr_end s - 1]"
    using be by (intro mset_upto_split) auto
  ultimately have "pending t = pending s" "delivered t = delivered s" unfolding hand_over(2) w by (simp_all add: pending_def delivered_def)
  moreover have "list_all (worker_ok (fr_end s)) ?ws"
    using inv be by (intro list_all_update) (auto simp: fetch_inv_def)
  moreover have "Finished \<in> set ?ws \<Longrightarrow> Finished \<in> set (fr_workers s)" by (auto dest: set_update_cases)
  ultimately show ?case using hand_over(1,3) hand_over(2) [unfolded w] hand_over.prems inv be
    by (auto simp: run_inv_def fetch_inv_def)
next
  case (bigger_sth s quick sth opts)
  then have inv: "fetch_inv first s" by (simp add: run_inv_def)
  have e: "fo_EndIndex (fr_opts s) = fr_end s" "0 \<le> fr_end s" "fr_end s < 2 ^ 63" using inv by (auto simp: fetch_inv_def)
  have g: "fr_end s < fo_EndIndex opts" "fo_EndIndex opts < 2 ^ 63" "opts = (fr_opts s)\<lparr>fo_EndIndex := fo_EndIndex opts\<rparr>"
    using updateSTH_bigger [OF bigger_sth(6)] e bigger_sth.prems(1) bigger_sth(2) by auto
  have b: "fo_BatchSize opts = fo_BatchSize (fr_opts s)" using g(3) by (metis FetcherOptions.select_convs(1) FetcherOptions.update_convs(4) FetcherOptions.surjective)
  obtain lost where l: "delivered s + pending s + lost = mset [first..fr_end s - 1]" "\<not> fr_stopped s \<longrightarrow> lost = {#}"
    using inv unfolding fetch_inv_def by blast
  have "mset [first..fo_EndIndex opts - 1] = mset [first..fr_end s - 1] + mset [fr_end s..fo_EndIndex opts - 1]"
    using inv g by (intro mset_upto_split) (auto simp: fetch_inv_def)
  moreover have "pending t = pending s + mset [fr_end s..fo_EndIndex opts - 1]" "delivered t = delivered s"
    using bigger_sth(2,5) by (simp_all add: pending_def delivered_def)
  ultimately have "delivered t + pending t + lost = mset [first..fo_EndIndex opts - 1]"
    using l(1) by (simp add: ac_simps)
  moreover have "list_all (worker_ok (fo_EndIndex opts)) (fr_workers s)"
  proof -
    have "worker_ok (fr_end s) w \<Longrightarrow> worker_ok (fo_EndIndex opts) w" for w using g(1) by (cases w) auto
    then show ?thesis using inv by (auto simp: fetch_inv_def list_all_iff)
  qed
  ultimately show ?case using bigger_sth(1-5) bigger_sth.prems inv g b l(2) by (auto simp: run_inv_def fetch_inv_def)
next
  case (no_bigger_sth s)
  then show ?case by (auto simp: run_inv_def fetch_inv_def pending_def delivered_def)
next
  case (gen_cancelled s)
  then show ?case by (auto simp: run_inv_def fetch_inv_def pending_def delivered_def)
next
  case (gen_done s)
  then show ?case by (auto simp: run_inv_def fetch_inv_def pending_def delivered_def gen_loops_def)
next
  case (fetch i s a b es)
  then have inv: "fetch_inv first s" by (simp add: run_inv_def)
  have ok: "0 \<le> a" "b < fr_end s" "fr_end s < 2 ^ 63" using worker_at [OF inv fetch(3)] fetch(4) inv by (auto simp: fetch_inv_def)
  note es = get_some [OF fetch(6) ok(1) fetch(5)] get_entries [OF fetch(6) ok(1) fetch(5)]
  have len: "0 < length es" "int (length es) \<le> b - a + 1" "es = map entry [a..a + int (length es) - 1]" using es ok by auto
  have w: "wrap64 (a + int (length es)) = a + int (length es)" using len ok by (intro wrap64_id) auto
  have "mset [a..b] = mset [a..a + int (length es) - 1] + mset [a + int (length es)..b]"
    using len by (intro mset_upto_split) auto
  then have "fetch_inv first t"
    using len ok fetch(2,4) w by (intro inv_update_worker [OF inv fetch(3), of "Busy (a + int (length es)) b" t "{#}"]) (auto simp: delivered_def batch_indices_def)
  moreover have "Finished \<in> set ((fr_workers s)[i := Busy (wrap64 (a + int (length es))) b]) \<Longrightarrow> Finished \<in> set (fr_workers s)"
    by (auto dest: set_update_cases)
  ultimately show ?case using fetch(1,2) fetch.prems(2) len(3)
    by (auto simp: run_inv_def batch_indices_def)
next
  case (fetch_fails i s a b)
  then show ?case by simp
next
  case (worker_cancelled i s a b)
  then have inv: "fetch_inv first s" by (simp add: run_inv_def)
  have "fetch_inv first t"
    using worker_cancelled(2,4) by (intro inv_update_worker [OF inv worker_cancelled(3), of Finished t "mset [a..b]"]) (auto simp: delivered_def)
  then show ?case using worker_cancelled(1,2) worker_cancelled.prems(2) by (auto simp: run_inv_def)
next
  case (range_done i s a b)
  then have inv: "fetch_inv first s" by (simp add: run_inv_def)
  have "fetch_inv first t"
    using range_done(2,4,5) by (intro inv_update_worker [OF inv range_done(3), of Idle t "{#}"]) (auto simp: delivered_def)
  moreover have "Finished \<in> set ((fr_workers s)[i := Idle]) \<Longrightarrow> Finished \<in> set (fr_workers s)" by (auto dest: set_update_cases)
  ultimately show ?case using range_done(1,2) range_done.prems(2) by (auto simp: run_inv_def)
next
  case (channel_closed i s)
  then have inv: "fetch_inv first s" by (simp add: run_inv_def)
  have "fetch_inv first t"
    using channel_closed(2,4) by (intro inv_update_worker [OF inv channel_closed(3), of Finished t "{#}"]) (auto simp: delivered_def)
  then show ?case using channel_closed(1,2,5) channel_closed.prems(2) by (auto simp: run_inv_def)
qed

lemma start_inv: "range_ok_opts opts \<Longrightarrow> run_inv (fo_StartIndex opts) (start_run opts)"
proof -
  have "sum_list (replicate n {#}) = ({#} :: int multiset)" for n by (induction n) simp_all
  then show "range_ok_opts opts \<Longrightarrow> run_inv (fo_StartIndex opts) (start_run opts)"
    by (auto simp: run_inv_def fetch_inv_def start_run_def range_ok_opts_def delivered_def pending_def list_all_iff)
qed

lemma reaches_inv: "(sane_step get)\<^sup>*\<^sup>* s t \<Longrightarrow> run_inv first s \<Longrightarrow> run_inv first t"
  by (induction rule: rtranclp_induct) (auto simp: sane_step_def intro: step_inv)

lemma workers_kept: "fetch_step g s t \<Longrightarrow> length (fr_workers t) = length (fr_workers s)"
  by (induction rule: fetch_step.induct) simp_all

lemma reaches_workers: "(sane_step g)\<^sup>*\<^sup>* s t \<Longrightarrow> length (fr_workers t) = length (fr_workers s)"
  by (induction rule: rtranclp_induct) (auto simp: sane_step_def dest: workers_kept)

text \<open>Indices are delivered at most once, each with its entry; after a complete run, exactly once.\<close>

lemma entries_of_batches:
  "list_all (\<lambda>b. eb_Entries b = map entry (batch_indices b)) bs \<Longrightarrow>
     sum_list (map (\<lambda>b. mset (zip (batch_indices b) (eb_Entries b))) bs) =
     image_mset (\<lambda>i. (i, entry i)) (sum_list (map (\<lambda>b. mset (batch_indices b)) bs))"
proof (induction bs)
  case (Cons b bs)
  have "zip xs (map entry xs) = map (\<lambda>i. (i, entry i)) xs" for xs by (induction xs) simp_all
  then have "mset (zip (batch_indices b) (eb_Entries b)) = image_mset (\<lambda>i. (i, entry i)) (mset (batch_indices b))"
    using Cons.prems by simp
  then show ?case using Cons by simp
qed simp

lemma inv_entries: "run_inv first s \<Longrightarrow> delivered_entries s = image_mset (\<lambda>i. (i, entry i)) (delivered s)"
  unfolding delivered_entries_def delivered_def by (rule entries_of_batches) (simp add: run_inv_def)

lemma delivered_once:
  assumes "run_inv first s"
  shows "delivered_entries s \<subseteq># mset (map (\<lambda>i. (i, entry i)) [first..fr_end s - 1])"
proof -
  obtain lost where "delivered s + (pending s + lost) = mset [first..fr_end s - 1]"
    using assms unfolding run_inv_def fetch_inv_def by (metis add.assoc)
  then have "delivered s \<subseteq># mset [first..fr_end s - 1]" by (metis mset_subset_eq_add_left)
  then show ?thesis using inv_entries [OF assms] by (simp add: image_mset_subseteq_mono)
qed

lemma none_loaded: "list_all (\<lambda>w. w = Finished) ws \<Longrightarrow> sum_list (map worker_load ws) = {#}"
  by (induction ws) simp_all

lemma delivered_all:
  assumes "run_inv first s" "run_returned s" "fr_workers s \<noteq> []" "\<not> fr_stopped s"
  shows "delivered_entries s = mset (map (\<lambda>i. (i, entry i)) [first..fr_end s - 1])"
proof -
  have "Finished \<in> set (fr_workers s)" using assms(2,3) by (cases "fr_workers s") (auto simp: run_returned_def)
  then have "fr_start s = fr_end s" using assms(1,4) by (auto simp: run_inv_def fetch_inv_def)
  moreover have "sum_list (map worker_load (fr_workers s)) = {#}"
    using assms(2) none_loaded [of "fr_workers s"] by (simp add: run_returned_def)
  ultimately have "pending s = {#}" by (simp add: pending_def)
  then have "delivered s = mset [first..fr_end s - 1]" using assms(1,4) by (auto simp: run_inv_def fetch_inv_def)
  then show ?thesis using inv_entries [OF assms(1)] by simp
qed

text \<open>
  A measure that every step but a failed fetch makes smaller, for a fetcher that is not continuous.
\<close>

fun worker_work :: "worker \<Rightarrow> nat" where
  "worker_work Idle = 1"
| "worker_work (Busy a b) = 2 * nat (b + 1 - a) + 2"
| "worker_work Finished = 0"

definition fetch_work :: "fetch_run \<Rightarrow> nat" where
  "fetch_work s = (if fr_open s then 1 else 0) + 4 * nat (fr_end s - fr_start s) + sum_list (map worker_work (fr_workers s))"

lemma work_update:
  "i < length ws \<Longrightarrow> sum_list (map worker_work (ws[i := w])) + worker_work (ws ! i) = sum_list (map worker_work ws) + worker_work w"
  by (rule sum_list_update_add)

lemma step_work:
  assumes "fetch_step get s t" "run_inv first s" "\<not> fo_Continuous (fr_opts s)" "t \<noteq> s"
  shows "fetch_work t < fetch_work s"
  using assms
proof (induction rule: fetch_step.cases)
  case (hand_over s i)
  then have inv: "fetch_inv first s" by (simp add: run_inv_def)
  note be = batch_end_eq [OF inv hand_over(5)]
  have "wrap64 (batch_end s - 1) = batch_end s - 1" using inv be by (intro wrap64_id) (auto simp: fetch_inv_def)
  then show ?case
    using work_update [OF hand_over(6), of "Busy (fr_start s) (batch_end s - 1)"] hand_over(1,2,7) be(2,3)
    by (simp add: fetch_work_def)
next
  case (fetch i s a b es)
  then have inv: "fetch_inv first s" by (simp add: run_inv_def)
  have ok: "0 \<le> a" "b < fr_end s" "fr_end s < 2 ^ 63" using worker_at [OF inv fetch(3)] fetch(4) inv by (auto simp: fetch_inv_def)
  have len: "0 < length es" "int (length es) \<le> b - a + 1" using get_some [OF fetch(6) ok(1) fetch(5)] ok by auto
  have w: "wrap64 (a + int (length es)) = a + int (length es)" using len ok by (intro wrap64_id) auto
  have "nat (b + 1 - (a + int (length es))) < nat (b + 1 - a)" using len by linarith
  then have "sum_list (map worker_work ((fr_workers s)[i := Busy (a + int (length es)) b])) < sum_list (map worker_work (fr_workers s))"
    using work_update [OF fetch(3), of "Busy (a + int (length es)) b", unfolded fetch(4) worker_work.simps] by linarith
  then show ?case using fetch(1,2) w by (simp add: fetch_work_def)
next
  case (worker_cancelled i s a b)
  then show ?case using work_update [OF worker_cancelled(3), of Finished] by (simp add: fetch_work_def)
next
  case (range_done i s a b)
  then show ?case using work_update [OF range_done(3), of Idle] by (simp add: fetch_work_def)
next
  case (channel_closed i s)
  then show ?case using work_update [OF channel_closed(3), of Finished] by (simp add: fetch_work_def)
qed (simp_all add: fetch_work_def gen_loops_def)

text \<open>No deadlock: while the run has not returned, some step is possible that neither fails nor cancels.\<close>

lemma progress:
  assumes "run_inv first s" "\<not> fr_stopped s" "\<not> fo_Continuous (fr_opts s)" "\<not> run_returned s"
    and answers: "\<And>a b. 0 \<le> a \<Longrightarrow> a \<le> b \<Longrightarrow> b < fr_end s \<Longrightarrow> \<exists>es. get a b es"
  shows "\<exists>t. fetch_step get s t \<and> t \<noteq> s \<and> \<not> fr_stopped t \<and> fr_opts t = fr_opts s \<and> fr_end t = fr_end s"
proof -
  have inv: "fetch_inv first s" using assms(1) by (simp add: run_inv_def)
  obtain i where i: "i < length (fr_workers s)" "fr_workers s ! i \<noteq> Finished"
    using assms(4) by (auto simp: run_returned_def list_all_length)
  have ne: "(fr_workers s)[i := w] \<noteq> fr_workers s" if "w \<noteq> fr_workers s ! i" for w
    using i(1) that by (metis nth_list_update_eq)
  show ?thesis
  proof (cases "fr_workers s ! i")
    case Idle
    show ?thesis
    proof (cases "fr_open s")
      case True
      show ?thesis
      proof (cases "fr_start s < fr_end s")
        case False
        then have "\<not> gen_loops s" using assms(3) by (simp add: gen_loops_def)
        then have "fetch_step get s (s\<lparr>fr_open := False\<rparr>)" by (rule fetch_step.gen_done [OF True])
        moreover have "s\<lparr>fr_open := False\<rparr> \<noteq> s" using True by (metis fetch_run.select_convs(4) fetch_run.surjective fetch_run.update_convs(4))
        ultimately show ?thesis using assms(2) by (intro exI [of _ "s\<lparr>fr_open := False\<rparr>"]) simp
      next
        case lt: True
        let ?t = "s\<lparr>fr_workers := (fr_workers s)[i := Busy (fr_start s) (wrap64 (batch_end s - 1))], fr_start := batch_end s\<rparr>"
        have "fetch_step get s ?t" using lt True i Idle by (intro fetch_step.hand_over) (auto simp: gen_loops_def)
        moreover have "fr_workers ?t \<noteq> fr_workers s" using ne Idle by simp
        then have "?t \<noteq> s" by metis
        ultimately show ?thesis using assms(2) by (intro exI [of _ ?t]) simp
      qed
    next
      case False
      let ?t = "s\<lparr>fr_workers := (fr_workers s)[i := Finished]\<rparr>"
      have "fetch_step get s ?t" using i Idle False by (intro fetch_step.channel_closed)
      moreover have "fr_workers ?t \<noteq> fr_workers s" using ne Idle by simp
      then have "?t \<noteq> s" by metis
      ultimately show ?thesis using assms(2) by (intro exI [of _ ?t]) simp
    qed
  next
    case (Busy a b)
    have ok: "0 \<le> a" "b < fr_end s" "fr_end s < 2 ^ 63" using worker_at [OF inv i(1)] Busy inv by (auto simp: fetch_inv_def)
    show ?thesis
    proof (cases "a \<le> b")
      case True
      obtain es where es: "get a b es" using answers [OF ok(1) True ok(2)] by blast
      let ?t = "s\<lparr>fr_workers := (fr_workers s)[i := Busy (wrap64 (a + int (length es))) b],
        fr_batches := fr_batches s @ [\<lparr>eb_Start = a, eb_Entries = es\<rparr>]\<rparr>"
      have "fetch_step get s ?t" using i(1) Busy True es by (rule fetch_step.fetch)
      moreover have "fr_batches ?t \<noteq> fr_batches s" by simp
      then have "?t \<noteq> s" by metis
      ultimately show ?thesis using assms(2) by (intro exI [of _ ?t]) simp
    next
      case False
      let ?t = "s\<lparr>fr_workers := (fr_workers s)[i := Idle]\<rparr>"
      have "fetch_step get s ?t" using i(1) Busy False by (rule fetch_step.range_done)
      moreover have "fr_workers ?t \<noteq> fr_workers s" using ne Busy by simp
      then have "?t \<noteq> s" by metis
      ultimately show ?thesis using assms(2) by (intro exI [of _ ?t]) simp
    qed
  qed (use i in simp)
qed

lemma completes:
  assumes "run_inv first s" "\<not> fr_stopped s" "\<not> fo_Continuous (fr_opts s)" "fr_workers s \<noteq> []"
    and "\<And>a b. 0 \<le> a \<Longrightarrow> a \<le> b \<Longrightarrow> b < fr_end s \<Longrightarrow> \<exists>es. get a b es"
  shows "\<exists>t. (sane_step get)\<^sup>*\<^sup>* s t \<and> run_returned t \<and> \<not> fr_stopped t \<and> fr_end t = fr_end s"
  using assms
proof (induction "fetch_work s" arbitrary: s rule: less_induct)
  case less
  show ?case
  proof (cases "run_returned s")
    case False
    obtain u where u: "fetch_step get s u" "u \<noteq> s" "\<not> fr_stopped u" "fr_opts u = fr_opts s" "fr_end u = fr_end s"
      using progress [OF less.prems(1-3) False less.prems(5)] by blast
    have sane: "sane_step get s u" using u less.prems(1) by (auto simp: sane_step_def run_inv_def fetch_inv_def)
    have "run_inv first u" using step_inv [OF u(1) _ less.prems(1)] sane by (simp add: sane_step_def)
    moreover have "fr_workers u \<noteq> []" using workers_kept [OF u(1)] less.prems(4) by auto
    ultimately obtain t where "(sane_step get)\<^sup>*\<^sup>* u t" "run_returned t" "\<not> fr_stopped t" "fr_end t = fr_end u"
      using less.hyps [OF step_work [OF u(1) less.prems(1,3) u(2)]] u(3-5) less.prems(3,5) by metis
    then show ?thesis using sane u(5) by (metis converse_rtranclp_into_rtranclp)
  qed (use less.prems in blast)
qed

end

section \<open>The front end of a log as a source\<close>

definition entries_request :: "string \<Rightarrow> string \<Rightarrow> http_request" where
  "entries_request x y = \<lparr>rq_Method = ''GET'', rq_formOk = True,
     rq_FormValue = (\<lambda>k. if k = ''start'' then x else if k = ''end'' then y else []), rq_Body = None, rq_now = 0, rq_writeOk = True\<rparr>"

text \<open>What a client gets from the front end in a given state.\<close>

definition log_get ::
    "('rp, 'ep, 'rand, 'o) ctfe_env \<Rightarrow> ('b, 'r) logInfo \<Rightarrow> ('b, 'r) server \<Rightarrow> string \<Rightarrow> string \<Rightarrow> client_err + LeafEntry list" where
  "log_get E li s x y =
     (case fst (getEntries E li (entries_request x y) s) of
        HOk (EntriesBody es) \<Rightarrow> Inr es
      | HErr status _ \<Rightarrow> Inl (RspError status)
      | _ \<Rightarrow> Inl RequestFailed)"

abbreviation leaf_to_entry :: "LogLeaf \<Rightarrow> LeafEntry" where
  "leaf_to_entry l \<equiv> \<lparr>lentry_LeafInput = ll_LeafValue l, lentry_ExtraData = ll_ExtraData l\<rparr>"

text \<open>
  What the backend is relied on for, in a state in which it holds the entries \<open>L\<close>: its leaves are those of their
  indices, and there is at least one unless the request starts beyond the tree.
\<close>

definition honest_backend :: "('rp, 'ep, 'rand, 'o) ctfe_env \<Rightarrow> 'b log_rpc \<Rightarrow> (int \<Rightarrow> LeafEntry) \<Rightarrow> 'b \<Rightarrow> bool" where
  "honest_backend E rpc L st \<longleftrightarrow>
     (\<forall>i start count c root leaves st'. 0 \<le> start \<and> start < 2 ^ 63 \<and>
        GetLeavesByRange rpc i start count c st = (Inr (root, leaves), st') \<longrightarrow>
          list_all (\<lambda>l. leaf_to_entry l = L (ll_LeafIndex l)) leaves \<and>
          (leaves \<noteq> [] \<or> count \<le> 0 \<or> pred_option (\<lambda>cr. lr_TreeSize cr \<le> to_uint64 start) (ce_UnmarshalRoot E root))) \<and>
     (\<forall>i start js c root leaves st'. 0 \<le> start \<and> start < 2 ^ 63 \<and>
        GetLeavesByIndex rpc i (start # js) c st = (Inr (root, leaves), st') \<longrightarrow>
          list_all (\<lambda>l. leaf_to_entry l = L (ll_LeafIndex l)) leaves \<and>
          (leaves \<noteq> [] \<or> pred_option (\<lambda>cr. lr_TreeSize cr \<le> to_uint64 start) (ce_UnmarshalRoot E root)))"

text \<open>The answers that a fetcher may get over the log client, at any moment at which the backend holds \<open>L\<close>.\<close>

definition served_entries ::
    "('rp, 'ep, 'rand, 'o) ctfe_env \<Rightarrow> ('b, 'r) logInfo \<Rightarrow> (int \<Rightarrow> LeafEntry) \<Rightarrow> int \<Rightarrow> int \<Rightarrow> LeafEntry list \<Rightarrow> bool" where
  "served_entries E li L a b es \<longleftrightarrow> 0 < ce_MaxGetEntriesAllowed E \<and> ce_MaxGetEntriesAllowed E < 2 ^ 63 \<and>
     (\<exists>s. honest_backend E (li_rpcClient li) L (sv_backend s) \<and> GetRawEntries (log_get E li s) a b = Inr es)"

lemma fetched_leaves:
  assumes "(if ce_getByRange E then fetch_by_range E li r start fin else fetch_by_index E li r start fin) s = (HOk leaves, s2)"
    and "honest_backend E (li_rpcClient li) L (sv_backend s)" "0 \<le> start" "start \<le> fin" "fin < 2 ^ 63 - 1"
  shows "leaves \<noteq> [] \<and> list_all (\<lambda>l. leaf_to_entry l = L (ll_LeafIndex l)) leaves"
proof (cases "ce_getByRange E")
  case True
  have w: "wrap64 (wrap64 (fin + 1) - start) = fin + 1 - start" using assms by (simp add: wrap64_id)
  obtain root b cr where c: "GetLeavesByRange (li_rpcClient li) (li_logID li) start (fin + 1 - start) (chargeUser li r) (sv_backend s) = (Inr (root, leaves), b)"
    and cr: "ce_UnmarshalRoot E root = Some cr" "\<not> lr_TreeSize cr \<le> to_uint64 start"
    using assms(1) True by (auto simp: fetch_by_range_def handler_simps Let_def w)
  have "start < 2 ^ 63" using assms(4,5) by simp
  then have "list_all (\<lambda>l. leaf_to_entry l = L (ll_LeafIndex l)) leaves \<and>
      (leaves \<noteq> [] \<or> fin + 1 - start \<le> 0 \<or> pred_option (\<lambda>cr. lr_TreeSize cr \<le> to_uint64 start) (ce_UnmarshalRoot E root))"
    using assms(2,3) c unfolding honest_backend_def by blast
  then show ?thesis using cr assms(4) by auto
next
  case False
  have i: "buildIndicesForRange start fin s = (HOk [start..fin], s)"
    using assms indices_loop_ok [of start fin "[]"] by (simp add: buildIndicesForRange_def wrap64_id)
  have js: "[start..fin] = start # [start + 1..fin]" using assms(4) by (rule upto_rec1)
  obtain root b cr lvs where c: "GetLeavesByIndex (li_rpcClient li) (li_logID li) (start # [start + 1..fin]) (chargeUser li r) (sv_backend s) = (Inr (root, lvs), b)"
    and cr: "ce_UnmarshalRoot E root = Some cr" "\<not> lr_TreeSize cr \<le> to_uint64 start" and so: "sortLeafRange lvs start fin = Some leaves"
    using assms(1) False by (auto simp: fetch_by_index_def handler_simps i js [symmetric])
  have "start < 2 ^ 63" using assms(4,5) by simp
  then have "list_all (\<lambda>l. leaf_to_entry l = L (ll_LeafIndex l)) lvs \<and>
      (lvs \<noteq> [] \<or> pred_option (\<lambda>cr. lr_TreeSize cr \<le> to_uint64 start) (ce_UnmarshalRoot E root))"
    using assms(2,3) c unfolding honest_backend_def by blast
  moreover have "set leaves = set lvs" using so by (auto simp: sortLeafRange_def Let_def split: if_splits)
  ultimately show ?thesis using cr by (auto simp: list_all_iff)
qed

lemma served_entries_ok:
  assumes "served_entries E li L a b es" "0 \<le> a" "a \<le> b" "b < 2 ^ 63 - 1"
  shows "0 < length es \<and> int (length es) \<le> b - a + 1 \<and> es = map L [a..a + int (length es) - 1]"
proof -
  obtain s where h: "honest_backend E (li_rpcClient li) L (sv_backend s)" and g: "GetRawEntries (log_get E li s) a b = Inr es"
    and mx: "0 < ce_MaxGetEntriesAllowed E" "ce_MaxGetEntriesAllowed E < 2 ^ 63"
    using assms(1) unfolding served_entries_def by blast
  let ?r = "entries_request (format_int a) (format_int b)"
  obtain res s' where res: "getEntries E li ?r s = (res, s')" by fastforce
  have "res = HOk (EntriesBody es)"
    using g assms(2,3) res by (auto simp: GetRawEntries_def log_get_def split: if_splits hres.splits http_body.splits)
  then have ge: "getEntries E li ?r s = (HOk (EntriesBody es), s')" using res by simp
  have p: "ParseInt (rq_FormValue ?r ''start'') = Some a" "ParseInt (rq_FormValue ?r ''end'') = Some b"
    using ParseInt_format assms by (simp_all add: entries_request_def)
  obtain start fin s2 and leaves :: "LogLeaf list" where
    l: "ParseInt (rq_FormValue ?r ''start'') = Some start" "0 \<le> start" "start \<le> fin" "fin \<le> b"
      "(if ce_getByRange E then fetch_by_range E li ?r start fin else fetch_by_index E li ?r start fin) s = (HOk leaves, s2)"
      "EntriesBody es = EntriesBody (map leaf_to_entry leaves)"
      "map ll_LeafIndex leaves = [start..start + int (length leaves) - 1]"
      "int (length leaves) \<le> min (ce_MaxGetEntriesAllowed E) (fin - start + 1)"
    by (rule get_entries_result [OF ge mx p(2) assms(4)])
  have "start = a" using l(1) p(1) by simp
  have f: "leaves \<noteq> []" "list_all (\<lambda>l. leaf_to_entry l = L (ll_LeafIndex l)) leaves"
    using fetched_leaves [OF l(5) h l(2,3)] l(4) assms(4) by auto
  have "map leaf_to_entry leaves = map L (map ll_LeafIndex leaves)" using f(2) by (simp add: list_all_iff)
  then have "es = map L [a..a + int (length es) - 1]" using l(6,7) \<open>start = a\<close> by (metis http_body.inject(5) length_map)
  then show ?thesis using f(1) l(4,6,8) \<open>start = a\<close> by auto
qed

interpretation ctfe_source: entry_source "served_entries E li L" L for E li L
  by unfold_locales (use served_entries_ok in blast)+

text \<open>
  (C9) Nothing is fetched twice, and nothing is missed. In every state that a fetcher can reach against a log,
  with any number of workers in any interleaving and with any failures, each index is delivered at most once, with
  the log's entry for it. When the run returns without having been stopped, every index of the range was
  delivered, exactly once.
\<close>

theorem fetcher_exactly_once:
  assumes "range_ok_opts opts" and "(sane_step (served_entries E li L))\<^sup>*\<^sup>* (start_run opts) s"
  shows "delivered_entries s \<subseteq># mset (map (\<lambda>i. (i, L i)) [fo_StartIndex opts..fr_end s - 1]) \<and>
    (run_returned s \<and> 0 < fo_ParallelFetch opts \<and> \<not> fr_stopped s \<longrightarrow>
       delivered_entries s = mset (map (\<lambda>i. (i, L i)) [fo_StartIndex opts..fr_end s - 1]))"
proof -
  note inv = ctfe_source.reaches_inv [OF assms(2) ctfe_source.start_inv [OF assms(1)]]
  have "0 < fo_ParallelFetch opts \<Longrightarrow> fr_workers s \<noteq> []"
    using ctfe_source.reaches_workers [OF assms(2)] by (auto simp: start_run_def)
  then show ?thesis using ctfe_source.delivered_once [OF inv] ctfe_source.delivered_all [OF inv] by blast
qed

lemma not_continuous:
  "(sane_step get)\<^sup>*\<^sup>* s t \<Longrightarrow> \<not> fo_Continuous (fr_opts s) \<Longrightarrow> fr_opts t = fr_opts s \<and> fr_end t = fr_end s"
proof (induction rule: rtranclp_induct)
  case (step t u)
  then show ?case by (auto simp: sane_step_def gen_loops_def elim!: fetch_step.cases)
qed simp


text \<open>A log with one entry, fetched by one worker.\<close>

definition demo_log_entry :: LeafEntry where
  "demo_log_entry = leaf_to_entry (hd (sv_backend demo_added))"

definition demo_fetch_opts :: FetcherOptions where
  "demo_fetch_opts = DefaultFetcherOptions\<lparr>fo_EndIndex := 1\<rparr>"

lemma demo_honest: "honest_backend demo_ctfe (li_rpcClient demo_log) (\<lambda>_. demo_log_entry) (sv_backend demo_added)"
proof -
  have "to_uint64 i = word_of_int i" for i by (simp add: to_uint64_def)
  then have u: "0 < i \<Longrightarrow> i < 2 ^ 63 \<Longrightarrow> 1 \<le> to_uint64 i" for i
    by (simp add: word_le_def uint_word_of_int)
  have "take (nat count) (drop (nat start) [l]) = (if 0 < count \<and> start \<le> 0 then [l] else [])" for count start and l :: LogLeaf
    by (auto simp: take_Cons' drop_Cons')
  then show ?thesis
    using u unfolding honest_backend_def demo_log_entry_def
    by (auto simp: demo_log_def demo_rpc_def demo_ctfe_def demo_added_def demo_server_def list_all_iff nth_Cons' split: if_splits)
qed

lemma demo_served: "served_entries demo_ctfe demo_log (\<lambda>_. demo_log_entry) 0 0 [demo_log_entry]"
proof -
  have f: "format_int 0 = ''0''" by code_simp
  have "getEntries demo_ctfe demo_log (entries_request ''0'' ''0'') demo_added = (HOk (EntriesBody [demo_log_entry]), demo_added)"
    by (simp add: getEntries_def handler_simps marshalGetEntriesResponse_eq demo_log_entry_def)
      (simp add: demo_ctfe_def entries_request_def parseGetEntriesRange_def ret_def ParseInt_def ParseUint_def has_prefix_def digit_val_def
      wrap64_def fetch_by_range_def handler_simps demo_log_def demo_rpc_def demo_added_def demo_server_def to_uint64_def)
  then have "GetRawEntries (log_get demo_ctfe demo_log demo_added) 0 0 = Inr [demo_log_entry]"
    by (simp add: GetRawEntries_def log_get_def f)
  then show ?thesis using demo_honest unfolding served_entries_def by (auto simp: demo_ctfe_def)
qed

lemma demo_fetch_run:
  "(sane_step (served_entries demo_ctfe demo_log (\<lambda>_. demo_log_entry)))\<^sup>*\<^sup>* (start_run demo_fetch_opts)
     \<lparr>fr_opts = demo_fetch_opts, fr_start = 1, fr_end = 1, fr_open = False, fr_workers = [Finished],
       fr_batches = [\<lparr>eb_Start = 0, eb_Entries = [demo_log_entry]\<rparr>], fr_stopped = False\<rparr>"
    (is "?R\<^sup>*\<^sup>* _ _")
proof -
  let ?s = "\<lambda>n f w bs. \<lparr>fr_opts = demo_fetch_opts, fr_start = n, fr_end = 1, fr_open = f, fr_workers = [w], fr_batches = bs, fr_stopped = False\<rparr>"
  let ?b = "[\<lparr>eb_Start = 0, eb_Entries = [demo_log_entry]\<rparr>]"
  have s: "start_run demo_fetch_opts = ?s 0 True Idle []" by (simp add: start_run_def demo_fetch_opts_def DefaultFetcherOptions_def)
  have 1: "?R (?s 0 True Idle []) (?s 1 True (Busy 0 0) [])"
    using fetch_step.hand_over [of "?s 0 True Idle []" 0 "served_entries demo_ctfe demo_log (\<lambda>_. demo_log_entry)"]
    by (simp add: sane_step_def gen_loops_def batch_end_def fetch_min_def demo_fetch_opts_def DefaultFetcherOptions_def wrap64_def)
  have 2: "?R (?s 1 True (Busy 0 0) []) (?s 1 True (Busy 1 0) ?b)"
    using fetch_step.fetch [of 0 "?s 1 True (Busy 0 0) []" 0 0 "served_entries demo_ctfe demo_log (\<lambda>_. demo_log_entry)" "[demo_log_entry]"]
      demo_served by (simp add: sane_step_def wrap64_def)
  have 3: "?R (?s 1 True (Busy 1 0) ?b) (?s 1 True Idle ?b)"
    using fetch_step.range_done [of 0 "?s 1 True (Busy 1 0) ?b"] by (simp add: sane_step_def)
  have 4: "?R (?s 1 True Idle ?b) (?s 1 False Idle ?b)"
    using fetch_step.gen_done [of "?s 1 True Idle ?b"] by (simp add: sane_step_def gen_loops_def demo_fetch_opts_def DefaultFetcherOptions_def)
  have 5: "?R (?s 1 False Idle ?b) (?s 1 False Finished ?b)"
    using fetch_step.channel_closed [of 0 "?s 1 False Idle ?b"] by (simp add: sane_step_def)
  show ?thesis unfolding s
    by (rule converse_rtranclp_into_rtranclp [of ?R, OF 1], rule converse_rtranclp_into_rtranclp [of ?R, OF 2],
        rule converse_rtranclp_into_rtranclp [of ?R, OF 3], rule converse_rtranclp_into_rtranclp [of ?R, OF 4], rule r_into_rtranclp [of ?R, OF 5])
qed

theorem fetcher_exactly_once_witness:
  "delivered_entries \<lparr>fr_opts = demo_fetch_opts, fr_start = 1, fr_end = 1, fr_open = False, fr_workers = [Finished],
     fr_batches = [\<lparr>eb_Start = 0, eb_Entries = [demo_log_entry]\<rparr>], fr_stopped = False\<rparr> = {#(0, demo_log_entry)#}"
  using fetcher_exactly_once [OF _ demo_fetch_run]
  by (simp add: range_ok_opts_def demo_fetch_opts_def DefaultFetcherOptions_def run_returned_def)


end
