(* ===== verification/CT_Policy.thy ===== *)
theory CT_Policy
  imports CTFE_Log "HOL-Library.AList" "HOL-Library.Multiset"
begin

text \<open>
  Lists of logs (\<^verbatim>\<open>src/loglist2/loglist2.go\<close>, \<^verbatim>\<open>src/loglist2/logfilter.go\<close>) and the policies that say
  how many SCTs of which logs a certificate needs (\<^verbatim>\<open>src/ctpolicy\<close>). A set of strings is a list without
  repetitions, a map with strings as keys is an association list; the order in which Go iterates over a
  map is an argument wherever a result can depend on it.
\<close>

section \<open>Lists of logs\<close>

record LogStates =
  ls_Pending :: "gotime option"
  ls_Qualified :: "gotime option"
  ls_Usable :: "gotime option"
  ls_ReadOnly :: "(gotime \<times> bytes \<times> int) option"
  ls_Retired :: "gotime option"
  ls_Rejected :: "gotime option"

datatype LogStatus =
    UndefinedLogStatus | PendingLogStatus | QualifiedLogStatus | UsableLogStatus
  | ReadOnlyLogStatus | RetiredLogStatus | RejectedLogStatus

definition LogStates_LogStatus :: "LogStates option \<Rightarrow> LogStatus" where
  "LogStates_LogStatus st =
     (case st of
        None \<Rightarrow> UndefinedLogStatus
      | Some ls \<Rightarrow>
          if ls_Pending ls \<noteq> None then PendingLogStatus
          else if ls_Qualified ls \<noteq> None then QualifiedLogStatus
          else if ls_Usable ls \<noteq> None then UsableLogStatus
          else if ls_ReadOnly ls \<noteq> None then ReadOnlyLogStatus
          else if ls_Retired ls \<noteq> None then RetiredLogStatus
          else if ls_Rejected ls \<noteq> None then RejectedLogStatus
          else UndefinedLogStatus)"

definition LogStates_Active :: "LogStates option \<Rightarrow> gotime option \<times> (gotime \<times> bytes \<times> int) option" where
  "LogStates_Active st =
     (case st of
        None \<Rightarrow> (None, None)
      | Some ls \<Rightarrow>
          if ls_Pending ls \<noteq> None then (ls_Pending ls, None)
          else if ls_Qualified ls \<noteq> None then (ls_Qualified ls, None)
          else if ls_Usable ls \<noteq> None then (ls_Usable ls, None)
          else if ls_ReadOnly ls \<noteq> None then (None, ls_ReadOnly ls)
          else if ls_Retired ls \<noteq> None then (ls_Retired ls, None)
          else if ls_Rejected ls \<noteq> None then (ls_Rejected ls, None)
          else (None, None))"

record Log =
  log_Description :: string
  log_LogID :: bytes
  log_Key :: bytes
  log_URL :: string
  log_DNS :: string
  log_MMD :: int
  log_State :: "LogStates option"
  log_TemporalInterval :: "(gotime \<times> gotime) option"
  log_Type :: string

record Operator =
  op_Name :: string
  op_Email :: "string list"
  op_Logs :: "Log list"

record LogList =
  ll_Operators :: "Operator list"

definition str_contains :: "string \<Rightarrow> string \<Rightarrow> bool" where
  "str_contains s sub \<longleftrightarrow> list_ex (\<lambda>i. has_prefix (drop i s) sub) [0..<Suc (length s)]"

definition GoogleOperated :: "Operator \<Rightarrow> bool" where
  "GoogleOperated op = list_ex (\<lambda>email. str_contains email ''google-ct-logs@googlegroups'') (op_Email op)"

text \<open>The JSON decoder is an argument.\<close>

definition NewFromSignedJSON ::
    "('rp, 'ep, 'rand) x509_ops \<Rightarrow> (bytes \<Rightarrow> LogList option) \<Rightarrow> bytes \<Rightarrow> bytes \<Rightarrow> PublicKey \<Rightarrow> LogList option" where
  "NewFromSignedJSON ops json llData rawSig pubKey =
     (let check = (\<lambda>sigAlgo.
        case VerifySignature (crypto_ops.truncate ops) (tls_key pubKey) llData
               \<lparr>ds_Algorithm = \<lparr>sha_Hash = SHA256, sha_Signature = sigAlgo\<rparr>, ds_Signature = rawSig\<rparr> of
          Inl _ \<Rightarrow> None
        | Inr _ \<Rightarrow> json llData)
      in case pubKey of PubRSA _ \<Rightarrow> check RSA | PubECDSA _ \<Rightarrow> check ECDSA | _ \<Rightarrow> None)"

definition all_logs :: "LogList \<Rightarrow> Log list" where
  "all_logs ll = concat (map op_Logs (ll_Operators ll))"

definition FindLogByURL :: "LogList \<Rightarrow> string \<Rightarrow> Log option" where
  "FindLogByURL ll url = find (\<lambda>log. trim_slashes (log_URL log) = trim_slashes url) (all_logs ll)"

definition FindLogByKeyHash :: "LogList \<Rightarrow> bytes \<Rightarrow> Log option" where
  "FindLogByKeyHash ll keyhash = find (\<lambda>log. log_LogID log = keyhash) (all_logs ll)"

definition FindLogByKey :: "LogList \<Rightarrow> bytes \<Rightarrow> Log option" where
  "FindLogByKey ll key = find (\<lambda>log. log_Key log = key) (all_logs ll)"

section \<open>Filters\<close>

text \<open>The loops of the filters: the logs that are kept, without operators that have none left.\<close>

fun select_logs :: "(Log \<Rightarrow> bool) \<Rightarrow> Operator list \<Rightarrow> Operator list" where
  "select_logs keep [] = []"
| "select_logs keep (op # ops) =
     (let activeOp = op\<lparr>op_Logs := filter keep (op_Logs op)\<rparr>
      in if op_Logs activeOp \<noteq> [] then activeOp # select_logs keep ops else select_logs keep ops)"

definition SelectByStatus :: "LogList \<Rightarrow> LogStatus list \<Rightarrow> LogList" where
  "SelectByStatus ll lstats =
     \<lparr>ll_Operators = select_logs (\<lambda>l. list_ex (\<lambda>lstat. LogStates_LogStatus (log_State l) = lstat) lstats) (ll_Operators ll)\<rparr>"

definition TemporallyCompatible :: "LogList \<Rightarrow> Certificate option \<Rightarrow> LogList" where
  "TemporallyCompatible ll cert =
     (case cert of
        None \<Rightarrow> \<lparr>ll_Operators = []\<rparr>
      | Some c \<Rightarrow>
          \<lparr>ll_Operators = select_logs (\<lambda>l. case log_TemporalInterval l of
               None \<Rightarrow> True
             | Some (start, fin) \<Rightarrow> NotAfter c < fin \<and> (NotAfter c > start \<or> NotAfter c = start)) (ll_Operators ll)\<rparr>)"

type_synonym LogRoots = "string \<rightharpoonup> PEMCertPool"

definition RootCompatible :: "(bytes \<Rightarrow> bytes) \<Rightarrow> LogList \<Rightarrow> Certificate option \<Rightarrow> LogRoots \<Rightarrow> LogList" where
  "RootCompatible sha256 ll certRoot roots =
     (if (case certRoot of None \<Rightarrow> False | Some c \<Rightarrow> \<not> IsCA c) then \<lparr>ll_Operators = []\<rparr>
      else \<lparr>ll_Operators = select_logs (\<lambda>l. case roots (log_URL l) of
               None \<Rightarrow> True
             | Some pool \<Rightarrow> (case certRoot of None \<Rightarrow> False | Some c \<Rightarrow> Included sha256 pool c)) (ll_Operators ll)\<rparr>)"

definition Compatible :: "(bytes \<Rightarrow> bytes) \<Rightarrow> LogList \<Rightarrow> Certificate option \<Rightarrow> Certificate option \<Rightarrow> LogRoots \<Rightarrow> LogList" where
  "Compatible sha256 ll cert certRoot roots = RootCompatible sha256 (TemporallyCompatible ll cert) certRoot roots"

section \<open>Groups of logs\<close>

text \<open>The operations of \<^verbatim>\<open>float32\<close> that the weights need.\<close>

record 'f float32 =
  f_zero :: 'f
  f_one :: 'f
  f_add :: "'f \<Rightarrow> 'f \<Rightarrow> 'f"
  f_sub :: "'f \<Rightarrow> 'f \<Rightarrow> 'f"
  f_mul :: "'f \<Rightarrow> 'f \<Rightarrow> 'f"
  f_less :: "'f \<Rightarrow> 'f \<Rightarrow> bool"
  f_eq :: "'f \<Rightarrow> 'f \<Rightarrow> bool"

type_synonym 'f weights = "(string \<times> 'f) list"

record 'f LogGroupInfo =
  gi_Name :: string
  gi_LogURLs :: "string list"
  gi_MinInclusions :: int
  gi_IsBase :: bool
  gi_LogWeights :: "'f weights"

definition BaseName :: string where "BaseName = ''All-logs''"

datatype policy_err = NegativeInclusions | TooFewLogs int nat string | NegativeWeight string | CannotReachMinimum | NotInGroup string

text \<open>The number is assigned even when it is bigger than the group.\<close>

definition setMinInclusions :: "'f LogGroupInfo \<Rightarrow> int \<Rightarrow> policy_err option \<times> 'f LogGroupInfo" where
  "setMinInclusions grp i =
     (if i < 0 then (Some NegativeInclusions, grp)
      else
        let grp' = grp\<lparr>gi_MinInclusions := i\<rparr>
        in (if i > int (length (gi_LogURLs grp)) then Some (TooFewLogs i (length (gi_LogURLs grp)) (gi_Name grp)) else None, grp'))"

definition add_member :: "'f float32 \<Rightarrow> 'f LogGroupInfo \<Rightarrow> Log \<Rightarrow> 'f LogGroupInfo" where
  "add_member F grp l =
     grp\<lparr>gi_LogURLs := (if log_URL l \<in> set (gi_LogURLs grp) then gi_LogURLs grp else gi_LogURLs grp @ [log_URL l]),
           gi_LogWeights := AList.update (log_URL l) (f_one F) (gi_LogWeights grp)\<rparr>"

definition populate :: "'f float32 \<Rightarrow> 'f LogGroupInfo \<Rightarrow> LogList \<Rightarrow> (Operator \<Rightarrow> bool) \<Rightarrow> 'f LogGroupInfo" where
  "populate F grp ll included =
     foldl (\<lambda>g op. if included op then foldl (add_member F) g (op_Logs op) else g)
       (grp\<lparr>gi_LogURLs := [], gi_LogWeights := []\<rparr>) (ll_Operators ll)"

text \<open>The loop ends at the first positive weight that reaches the minimum.\<close>

fun inclusion_loop :: "'f float32 \<Rightarrow> 'f LogGroupInfo \<Rightarrow> 'f weights \<Rightarrow> int \<Rightarrow> bool" where
  "inclusion_loop F grp [] nonZeroNum = False"
| "inclusion_loop F grp ((logURL, w) # ws) nonZeroNum =
     (if logURL \<in> set (gi_LogURLs grp) \<and> f_less F (f_zero F) w then
        if nonZeroNum + 1 \<ge> gi_MinInclusions grp then True else inclusion_loop F grp ws (nonZeroNum + 1)
      else inclusion_loop F grp ws nonZeroNum)"

definition satisfyMinimalInclusion :: "'f float32 \<Rightarrow> 'f LogGroupInfo \<Rightarrow> 'f weights \<Rightarrow> bool" where
  "satisfyMinimalInclusion F grp weights = inclusion_loop F grp weights 0"

definition SetLogWeights :: "'f float32 \<Rightarrow> 'f LogGroupInfo \<Rightarrow> 'f weights \<Rightarrow> policy_err + 'f LogGroupInfo" where
  "SetLogWeights F grp weights =
     (case find (\<lambda>(logURL, w). f_less F w (f_zero F)) weights of
        Some (logURL, w) \<Rightarrow> Inl (NegativeWeight logURL)
      | None \<Rightarrow>
          if \<not> satisfyMinimalInclusion F grp weights then Inl CannotReachMinimum
          else
            let reset = foldl (\<lambda>m logURL. AList.update logURL (f_zero F) m) (gi_LogWeights grp) (gi_LogURLs grp);
                ws = foldl (\<lambda>m (logURL, w). if logURL \<in> set (gi_LogURLs grp) then AList.update logURL w m else m) reset weights
            in Inr (grp\<lparr>gi_LogWeights := ws\<rparr>))"

definition SetLogWeight :: "'f float32 \<Rightarrow> 'f LogGroupInfo \<Rightarrow> string \<Rightarrow> 'f \<Rightarrow> policy_err + 'f LogGroupInfo" where
  "SetLogWeight F grp logURL w =
     (if logURL \<notin> set (gi_LogURLs grp) then Inl (NotInGroup logURL)
      else if f_less F w (f_zero F) then Inl (NegativeWeight logURL)
      else
        let newWeights = AList.update logURL w (gi_LogWeights grp)
        in if \<not> satisfyMinimalInclusion F grp newWeights then Inl CannotReachMinimum
           else Inr (grp\<lparr>gi_LogWeights := newWeights\<rparr>))"

text \<open>The two loops over the weights get them in orders of their own; \<open>r\<close> is the random number.\<close>

fun sample_loop :: "'f float32 \<Rightarrow> 'f weights \<Rightarrow> 'f \<Rightarrow> string option" where
  "sample_loop F [] r = None"
| "sample_loop F ((itemName, w) # ws) r =
     (if f_eq F w (f_zero F) then sample_loop F ws r
      else
        let r' = f_sub F r w
        in if f_less F r' (f_zero F) then Some itemName else sample_loop F ws r')"

definition weightedRandomSample :: "'f float32 \<Rightarrow> 'f weights \<Rightarrow> 'f weights \<Rightarrow> 'f \<Rightarrow> string option" where
  "weightedRandomSample F ws1 ws2 r =
     (if list_ex (\<lambda>(itemName, w). f_less F w (f_zero F)) ws1 then None
      else sample_loop F ws2 (f_mul F r (foldl (\<lambda>s (itemName, w). f_add F s w) (f_zero F) ws1)))"

text \<open>What the sampling of one turn meets: the two orders of the map and the random number.\<close>

type_synonym 'f draw = "('f weights \<Rightarrow> 'f weights) \<times> ('f weights \<Rightarrow> 'f weights) \<times> 'f"

fun session_loop :: "'f float32 \<Rightarrow> 'f draw list \<Rightarrow> 'f weights \<Rightarrow> string list" where
  "session_loop F [] unProcessed = []"
| "session_loop F ((o1, o2, r) # draws) unProcessed =
     (case weightedRandomSample F (o1 unProcessed) (o2 unProcessed) r of
        None \<Rightarrow> []
      | Some sampleLog \<Rightarrow> sampleLog # session_loop F draws (AList.delete sampleLog unProcessed))"

text \<open>One draw for each log of the group.\<close>

definition GetSubmissionSession :: "'f float32 \<Rightarrow> (nat \<Rightarrow> 'f draw) \<Rightarrow> 'f LogGroupInfo \<Rightarrow> string list" where
  "GetSubmissionSession F draws grp =
     (if gi_LogURLs grp = [] then []
      else session_loop F (map draws [0..<length (gi_LogURLs grp)]) (gi_LogWeights grp))"

section \<open>Policies\<close>

text \<open>A set of groups; the name of a group is its key.\<close>

type_synonym 'f LogPolicyData = "'f LogGroupInfo list"

definition TotalLogs :: "'f LogPolicyData \<Rightarrow> nat" where
  "TotalLogs groups =
     (case find gi_IsBase groups of
        Some g \<Rightarrow> length (gi_LogURLs g)
      | None \<Rightarrow> length (remdups (concat (map gi_LogURLs groups))))"

definition new_group :: "string \<Rightarrow> bool \<Rightarrow> 'f LogGroupInfo" where
  "new_group name base = \<lparr>gi_Name = name, gi_LogURLs = [], gi_MinInclusions = 0, gi_IsBase = base, gi_LogWeights = []\<rparr>"

definition BaseGroupFor :: "'f float32 \<Rightarrow> LogList \<Rightarrow> int \<Rightarrow> policy_err option \<times> 'f LogGroupInfo" where
  "BaseGroupFor F approved incCount = setMinInclusions (populate F (new_group BaseName True) approved (\<lambda>op. True)) incCount"

text \<open>The civil date of a time, in UTC: days are counted from 1 March of the year 0.\<close>

definition civil_from_days :: "int \<Rightarrow> int \<times> int \<times> int" where
  "civil_from_days days =
     (let z = days + 719468;
          era = z div 146097;
          doe = z mod 146097;
          yoe = (doe - doe div 1460 + doe div 36524 - doe div 146096) div 365;
          doy = doe - (365 * yoe + yoe div 4 - yoe div 100);
          mp = (5 * doy + 2) div 153;
          d = doy - (153 * mp + 2) div 5 + 1;
          mo = (if mp < 10 then mp + 3 else mp - 9)
      in (yoe + era * 400 + (if mo \<le> 2 then 1 else 0), mo, d))"

definition time_Date :: "gotime \<Rightarrow> int \<times> int \<times> int" where
  "time_Date t = civil_from_days (t div (86400 * 1000000000))"

definition lifetimeInMonths :: "Certificate \<Rightarrow> int" where
  "lifetimeInMonths cert =
     (case (time_Date (NotBefore cert), time_Date (NotAfter cert)) of
        ((startYear, startMonth, startDay), (endYear, endMonth, endDay)) \<Rightarrow>
          let months = (endYear - startYear) * 12 + (endMonth - startMonth)
          in if endDay < startDay then months - 1 else months)"

definition inclusion_count :: "int \<Rightarrow> int" where
  "inclusion_count m = (if m < 15 then 2 else if m \<le> 27 then 3 else if m \<le> 39 then 4 else 5)"

definition Chrome_LogsByGroup :: "'f float32 \<Rightarrow> Certificate \<Rightarrow> LogList \<Rightarrow> policy_err + 'f LogPolicyData" where
  "Chrome_LogsByGroup F cert approved =
     (case setMinInclusions (populate F (new_group ''Google-operated'' False) approved GoogleOperated) 1 of
        (Some err, _) \<Rightarrow> Inl err
      | (None, googGroup) \<Rightarrow>
          (case setMinInclusions (populate F (new_group ''Non-Google-operated'' False) approved (\<lambda>op. \<not> GoogleOperated op)) 1 of
             (Some err, _) \<Rightarrow> Inl err
           | (None, nonGoogGroup) \<Rightarrow>
               (case BaseGroupFor F approved (inclusion_count (lifetimeInMonths cert)) of
                  (Some err, _) \<Rightarrow> Inl err
                | (None, baseGroup) \<Rightarrow> Inr [googGroup, nonGoogGroup, baseGroup])))"

definition Apple_LogsByGroup :: "'f float32 \<Rightarrow> Certificate \<Rightarrow> LogList \<Rightarrow> policy_err + 'f LogPolicyData" where
  "Apple_LogsByGroup F cert approved =
     (case BaseGroupFor F approved (inclusion_count (lifetimeInMonths cert)) of
        (Some err, _) \<Rightarrow> Inl err
      | (None, baseGroup) \<Rightarrow> Inr [baseGroup])"

text \<open>The map from logs to the groups that they are in.\<close>

definition add_group :: "string \<Rightarrow> (string \<times> string list) list \<Rightarrow> string \<Rightarrow> (string \<times> string list) list" where
  "add_group groupname result logURL =
     (let seen = (case map_of result logURL of None \<Rightarrow> [] | Some gs \<Rightarrow> gs)
      in AList.update logURL (if groupname \<in> set seen then seen else seen @ [groupname]) result)"

definition GroupByLogs :: "'f LogPolicyData \<Rightarrow> (string \<times> string list) list" where
  "GroupByLogs lg = foldl (\<lambda>result g. foldl (add_group (gi_Name g)) result (gi_LogURLs g)) [] lg"

section \<open>Lemmas\<close>

lemma all_logs_select: "all_logs \<lparr>ll_Operators = select_logs keep ops\<rparr> = filter keep (all_logs \<lparr>ll_Operators = ops\<rparr>)"
  by (induction ops) (auto simp: all_logs_def Let_def)

lemma select_logs_op:
  "op' \<in> set (select_logs keep ops) \<longleftrightarrow> (\<exists>op\<in>set ops. op' = op\<lparr>op_Logs := filter keep (op_Logs op)\<rparr> \<and> op_Logs op' \<noteq> [])"
  by (induction ops) (auto simp: Let_def)

text \<open>What a log that passed the filters satisfies, with its operator.\<close>

definition temporal_ok :: "Certificate \<Rightarrow> Log \<Rightarrow> bool" where
  "temporal_ok c l \<longleftrightarrow> (case log_TemporalInterval l of None \<Rightarrow> True | Some (start, fin) \<Rightarrow> start \<le> NotAfter c \<and> NotAfter c < fin)"

definition root_ok :: "(bytes \<Rightarrow> bytes) \<Rightarrow> LogRoots \<Rightarrow> Certificate option \<Rightarrow> Log \<Rightarrow> bool" where
  "root_ok sha256 roots certRoot l \<longleftrightarrow>
     (case roots (log_URL l) of None \<Rightarrow> True | Some pool \<Rightarrow> (case certRoot of None \<Rightarrow> False | Some c \<Rightarrow> Included sha256 pool c))"

lemma SelectByStatus_log:
  assumes "op' \<in> set (ll_Operators (SelectByStatus ll lstats))" "l \<in> set (op_Logs op')"
  shows "\<exists>op\<in>set (ll_Operators ll). op_Email op = op_Email op' \<and> l \<in> set (op_Logs op) \<and> LogStates_LogStatus (log_State l) \<in> set lstats"
  using assms by (auto simp: SelectByStatus_def select_logs_op list_ex_iff)

lemma Compatible_log:
  assumes "op' \<in> set (ll_Operators (Compatible sha256 ll (Some cert) certRoot roots))" "l \<in> set (op_Logs op')"
  shows "\<exists>op\<in>set (ll_Operators ll). op_Email op = op_Email op' \<and> l \<in> set (op_Logs op) \<and> temporal_ok cert l \<and> root_ok sha256 roots certRoot l"
  using assms
  by (fastforce simp: Compatible_def RootCompatible_def TemporallyCompatible_def select_logs_op temporal_ok_def root_ok_def
      split: if_splits option.splits prod.splits)

lemma GoogleOperated_Email: "op_Email op = op_Email op' \<Longrightarrow> GoogleOperated op = GoogleOperated op'"
  by (simp add: GoogleOperated_def)

subsection \<open>Groups\<close>

text \<open>The members of a group are without repetitions, and just they have weights.\<close>

definition group_inv :: "'f LogGroupInfo \<Rightarrow> bool" where
  "group_inv g \<longleftrightarrow> distinct (gi_LogURLs g) \<and> distinct (map fst (gi_LogWeights g)) \<and> set (map fst (gi_LogWeights g)) = set (gi_LogURLs g)"

lemma add_members:
  "group_inv g \<Longrightarrow> group_inv (foldl (add_member F) g ls) \<and>
     set (gi_LogURLs (foldl (add_member F) g ls)) = set (gi_LogURLs g) \<union> log_URL ` set ls \<and>
     gi_Name (foldl (add_member F) g ls) = gi_Name g \<and> gi_MinInclusions (foldl (add_member F) g ls) = gi_MinInclusions g \<and>
     gi_IsBase (foldl (add_member F) g ls) = gi_IsBase g"
proof (induction ls arbitrary: g)
  case (Cons l ls)
  have "group_inv (add_member F g l)"
    using Cons.prems by (auto simp: group_inv_def add_member_def distinct_update dom_update)
  then show ?case using Cons.IH [of "add_member F g l"] by (auto simp: add_member_def)
qed simp

definition member_urls :: "LogList \<Rightarrow> (Operator \<Rightarrow> bool) \<Rightarrow> string set" where
  "member_urls ll included = {log_URL l |l op. op \<in> set (ll_Operators ll) \<and> included op \<and> l \<in> set (op_Logs op)}"

lemma populate_props:
  "group_inv (populate F g ll included) \<and> set (gi_LogURLs (populate F g ll included)) = member_urls ll included \<and>
   gi_Name (populate F g ll included) = gi_Name g \<and> gi_MinInclusions (populate F g ll included) = gi_MinInclusions g \<and>
   gi_IsBase (populate F g ll included) = gi_IsBase g"
proof -
  have "group_inv h \<Longrightarrow> (let p = foldl (\<lambda>g op. if included op then foldl (add_member F) g (op_Logs op) else g) h ops in
      group_inv p \<and> set (gi_LogURLs p) = set (gi_LogURLs h) \<union> {log_URL l |l op. op \<in> set ops \<and> included op \<and> l \<in> set (op_Logs op)} \<and>
      gi_Name p = gi_Name h \<and> gi_MinInclusions p = gi_MinInclusions h \<and> gi_IsBase p = gi_IsBase h)" for h ops
  proof (induction ops arbitrary: h)
    case (Cons op ops)
    show ?case
      using Cons.IH [of "foldl (add_member F) h (op_Logs op)"] Cons.IH [of h] Cons.prems add_members [of h F "op_Logs op"]
      by (auto simp: Let_def)
  qed simp
  from this [of "g\<lparr>gi_LogURLs := [], gi_LogWeights := []\<rparr>" "ll_Operators ll"] show ?thesis
    unfolding populate_def member_urls_def Let_def by (simp add: group_inv_def)
qed

lemma setMinInclusions_ok:
  "setMinInclusions g i = (None, g') \<longleftrightarrow> 0 \<le> i \<and> i \<le> int (length (gi_LogURLs g)) \<and> g' = g\<lparr>gi_MinInclusions := i\<rparr>"
  by (auto simp: setMinInclusions_def Let_def)

text \<open>A group of a policy.\<close>

definition policy_group :: "LogList \<Rightarrow> 'f LogGroupInfo \<Rightarrow> string \<Rightarrow> (Operator \<Rightarrow> bool) \<Rightarrow> int \<Rightarrow> bool" where
  "policy_group ll g name included n \<longleftrightarrow> group_inv g \<and> gi_Name g = name \<and> set (gi_LogURLs g) = member_urls ll included \<and> gi_MinInclusions g = n"

lemma policy_groupI:
  assumes "setMinInclusions (populate F (new_group name base) ll included) n = (None, g)"
  shows "policy_group ll g name included n"
proof -
  have "g = (populate F (new_group name base) ll included)\<lparr>gi_MinInclusions := n\<rparr>" using assms by (simp add: setMinInclusions_ok)
  then show ?thesis
    using populate_props [of F "new_group name base" ll included] by (simp add: policy_group_def group_inv_def new_group_def)
qed

lemma Chrome_groups:
  assumes "Chrome_LogsByGroup F cert ll = Inr groups"
  obtains goog nongoog base where "groups = [goog, nongoog, base]"
    "policy_group ll goog ''Google-operated'' GoogleOperated 1"
    "policy_group ll nongoog ''Non-Google-operated'' (\<lambda>op. \<not> GoogleOperated op) 1"
    "policy_group ll base BaseName (\<lambda>op. True) (inclusion_count (lifetimeInMonths cert))"
  using assms
  by (auto simp: Chrome_LogsByGroup_def BaseGroupFor_def split: prod.splits option.splits dest!: policy_groupI intro: that)

text \<open>The names of the groups of a log.\<close>

lemma add_group_names:
  "set (case map_of (add_group name res u) v of None \<Rightarrow> [] | Some gs \<Rightarrow> gs) =
     set (case map_of res v of None \<Rightarrow> [] | Some gs \<Rightarrow> gs) \<union> (if v = u then {name} else {})"
  by (auto simp: add_group_def Let_def update_conv' split: option.splits if_splits)

lemma add_groups_names:
  "set (case map_of (foldl (add_group name) res us) v of None \<Rightarrow> [] | Some gs \<Rightarrow> gs) =
     set (case map_of res v of None \<Rightarrow> [] | Some gs \<Rightarrow> gs) \<union> (if v \<in> set us then {name} else {})"
proof (induction us arbitrary: res)
  case (Cons u us)
  then show ?case using add_group_names [of name res u v] by auto
qed simp

lemma GroupByLogs_names:
  "set (case map_of (GroupByLogs lg) v of None \<Rightarrow> [] | Some gs \<Rightarrow> gs) = {gi_Name g |g. g \<in> set lg \<and> v \<in> set (gi_LogURLs g)}"
proof -
  have "set (case map_of (foldl (\<lambda>result g. foldl (add_group (gi_Name g)) result (gi_LogURLs g)) res lg) v of None \<Rightarrow> [] | Some gs \<Rightarrow> gs) =
      set (case map_of res v of None \<Rightarrow> [] | Some gs \<Rightarrow> gs) \<union> {gi_Name g |g. g \<in> set lg \<and> v \<in> set (gi_LogURLs g)}" for res
  proof (induction lg arbitrary: res)
    case (Cons g lg)
    then show ?case using add_groups_names [of "gi_Name g" res "gi_LogURLs g" v] by auto
  qed simp
  from this [of "[]"] show ?thesis by (simp add: GroupByLogs_def)
qed

lemma add_group_distinct:
  "list_all (\<lambda>(v, gs). distinct gs) res \<Longrightarrow> list_all (\<lambda>(v, gs). distinct gs) (add_group name res u)"
proof -
  assume d: "list_all (\<lambda>(v, gs). distinct gs) res"
  have "distinct (case map_of res u of None \<Rightarrow> [] | Some gs \<Rightarrow> gs)"
    using d by (auto simp: list_all_iff split: option.splits dest!: map_of_SomeD)
  moreover have "distinct gs \<Longrightarrow> list_all (\<lambda>(v, gs). distinct gs) r \<Longrightarrow> list_all (\<lambda>(v, gs). distinct gs) (AList.update u gs r)"
    for gs :: "string list" and r :: "(string \<times> string list) list"
    by (induction r) auto
  ultimately show ?thesis using d unfolding add_group_def Let_def by simp
qed

lemma GroupByLogs_distinct: "list_all (\<lambda>(v, gs). distinct gs) (GroupByLogs lg)"
proof -
  have one: "list_all (\<lambda>(v, gs). distinct gs) res \<Longrightarrow> list_all (\<lambda>(v, gs). distinct gs) (foldl (add_group name) res us)" for res us name
  proof (induction us arbitrary: res)
    case (Cons u us)
    show ?case using Cons.IH [OF add_group_distinct [OF Cons.prems]] by simp
  qed simp
  have "list_all (\<lambda>(v, gs). distinct gs) res \<Longrightarrow>
      list_all (\<lambda>(v, gs). distinct gs) (foldl (\<lambda>result g. foldl (add_group (gi_Name g)) result (gi_LogURLs g)) res lg)" for res
  proof (induction lg arbitrary: res)
    case (Cons g lg)
    show ?case using Cons.IH [OF one [OF Cons.prems]] by simp
  qed simp
  then show ?thesis unfolding GroupByLogs_def by simp
qed

subsection \<open>Sessions\<close>

definition draw_law :: "(nat \<Rightarrow> 'f draw) \<Rightarrow> bool" where
  "draw_law draws \<longleftrightarrow> (\<forall>n ws. case draws n of (o1, o2, r) \<Rightarrow> mset (o1 ws) = mset ws \<and> mset (o2 ws) = mset ws)"

lemma sample_loop_in: "sample_loop F ws r = Some x \<Longrightarrow> x \<in> fst ` set ws"
  by (induction F ws r rule: sample_loop.induct) (auto simp: Let_def split: if_splits)

lemma session_loop_ok:
  assumes "\<forall>(o1, o2, r)\<in>set draws. \<forall>ws. mset (o1 ws) = mset ws \<and> mset (o2 ws) = mset ws"
  shows "distinct (session_loop F draws ws) \<and> set (session_loop F draws ws) \<subseteq> fst ` set ws"
  using assms
proof (induction F draws ws rule: session_loop.induct)
  case (2 F o1 o2 r draws ws)
  show ?case
  proof (cases "weightedRandomSample F (o1 ws) (o2 ws) r")
    case (Some x)
    have "mset (o2 ws) = mset ws" using 2(2) by simp
    then have "set (o2 ws) = set ws" by (metis set_mset_mset)
    then have "x \<in> fst ` set ws" using Some sample_loop_in unfolding weightedRandomSample_def by (metis option.distinct(1))
    moreover have "x \<notin> fst ` set (AList.delete x ws)" "fst ` set (AList.delete x ws) \<subseteq> fst ` set ws"
      by (auto simp: AList.delete_eq)
    ultimately show ?thesis using 2(1) [OF Some] 2(2) Some by auto
  qed simp
qed simp

lemma GetSubmissionSession_ok:
  assumes "draw_law draws" "group_inv g"
  shows "distinct (GetSubmissionSession F draws g) \<and> set (GetSubmissionSession F draws g) \<subseteq> set (gi_LogURLs g)"
proof -
  have "\<forall>(o1, o2, r)\<in>set (map draws [0..<n]). \<forall>ws. mset (o1 ws) = mset ws \<and> mset (o2 ws) = mset ws" for n
    using assms(1) unfolding draw_law_def by (auto split: prod.splits) (metis (no_types, lifting))+
  from session_loop_ok [OF this, of F "length (gi_LogURLs g)" "gi_LogWeights g"] show ?thesis
    using assms(2) by (simp add: GetSubmissionSession_def group_inv_def)
qed

subsection \<open>Weights\<close>

definition positive_logs :: "'f float32 \<Rightarrow> 'f LogGroupInfo \<Rightarrow> 'f weights \<Rightarrow> string set" where
  "positive_logs F g ws = {u \<in> set (gi_LogURLs g). \<exists>w. map_of ws u = Some w \<and> f_less F (f_zero F) w}"

lemma inclusion_loop_iff:
  "inclusion_loop F g ws n \<longleftrightarrow>
     (let c = length (filter (\<lambda>(u, w). u \<in> set (gi_LogURLs g) \<and> f_less F (f_zero F) w) ws) in 0 < c \<and> gi_MinInclusions g \<le> n + int c)"
  by (induction F g ws n rule: inclusion_loop.induct) (auto simp: Let_def)

lemma positive_logs_card:
  assumes "distinct (map fst ws)"
  shows "card (positive_logs F g ws) = length (filter (\<lambda>(u, w). u \<in> set (gi_LogURLs g) \<and> f_less F (f_zero F) w) ws)" (is "_ = length ?f")
proof -
  have "positive_logs F g ws = fst ` set ?f"
    using assms by (auto simp: positive_logs_def image_iff map_of_eq_Some_iff)
  also have "card \<dots> = length (map fst ?f)"
    using distinct_card [of "map fst ?f"] assms by (simp add: distinct_map inj_on_subset [of fst "set ws"] Collect_conj_eq)
  finally show ?thesis by simp
qed

lemma satisfy_iff:
  "distinct (map fst ws) \<Longrightarrow> satisfyMinimalInclusion F g ws \<longleftrightarrow>
     positive_logs F g ws \<noteq> {} \<and> gi_MinInclusions g \<le> int (card (positive_logs F g ws))"
proof -
  assume d: "distinct (map fst ws)"
  have "finite (positive_logs F g ws)" by (simp add: positive_logs_def)
  then show ?thesis
    unfolding satisfyMinimalInclusion_def inclusion_loop_iff positive_logs_card [OF d, symmetric] Let_def by (simp add: card_gt_0_iff)
qed

lemma reset_weights:
  "map_of (foldl (\<lambda>m u. AList.update u z m) ws urls) v = (if v \<in> set urls then Some z else map_of ws v)"
  by (induction urls arbitrary: ws) (auto simp: update_conv')

lemma assign_weights:
  "distinct (map fst weights) \<Longrightarrow>
   map_of (foldl (\<lambda>m (u, w). if u \<in> S then AList.update u w m else m) ws weights) v =
     (if v \<in> S \<and> map_of weights v \<noteq> None then map_of weights v else map_of ws v)"
proof (induction weights arbitrary: ws)
  case (Cons p weights)
  obtain u w where p: "p = (u, w)" by fastforce
  have "map_of weights u = None" using Cons.prems p by (auto simp: map_of_eq_None_iff)
  then show ?case using Cons p by (auto simp: update_conv')
qed simp

lemma update_weights_keys:
  "distinct (map fst ws) \<Longrightarrow> distinct (map fst (foldl (\<lambda>m (u, w). if u \<in> S then AList.update u w m else m) ws weights))"
  by (induction weights arbitrary: ws) (auto simp: distinct_update)

lemma reset_keys: "distinct (map fst ws) \<Longrightarrow> distinct (map fst (foldl (\<lambda>m u. AList.update u z m) ws urls))"
  by (induction urls arbitrary: ws) (auto simp: distinct_update)

lemma keys_dom: "set (map fst ws) = dom (map_of ws)"
  by (simp add: dom_map_of_conv_image_fst)

text \<open>
  Weights that were accepted leave a group able to reach its minimum: the members of the group still are those
  with weights, and at least as many as it needs have a positive one.
\<close>

theorem weights_keep_minimum:
  assumes "group_inv g" and "distinct (map fst weights)"
    and "SetLogWeights F g weights = Inr g' \<or> SetLogWeight F g logURL w = Inr g'"
  shows "group_inv g' \<and> gi_LogURLs g' = gi_LogURLs g \<and> gi_MinInclusions g' = gi_MinInclusions g \<and>
    gi_MinInclusions g' \<le> int (card (positive_logs F g' (gi_LogWeights g')))"
  using assms(3)
proof
  assume s: "SetLogWeights F g weights = Inr g'"
  let ?r = "foldl (\<lambda>m u. AList.update u (f_zero F) m) (gi_LogWeights g) (gi_LogURLs g)"
  let ?ws = "foldl (\<lambda>m (u, w). if u \<in> set (gi_LogURLs g) then AList.update u w m else m) ?r weights"
  have g': "g' = g\<lparr>gi_LogWeights := ?ws\<rparr>" and sat: "satisfyMinimalInclusion F g weights"
    using s by (auto simp: SetLogWeights_def Let_def split: option.splits if_splits)
  have m: "map_of ?ws v = (if v \<in> set (gi_LogURLs g) \<and> map_of weights v \<noteq> None then map_of weights v
      else if v \<in> set (gi_LogURLs g) then Some (f_zero F) else map_of (gi_LogWeights g) v)" for v
    by (simp add: assign_weights [OF assms(2)] reset_weights)
  have dom: "set (map fst ?ws) = set (gi_LogURLs g)"
    unfolding keys_dom using assms(1) unfolding group_inv_def keys_dom by (auto simp: m dom_def split: if_splits)
  have "positive_logs F g weights \<subseteq> positive_logs F g' ?ws" by (auto simp: positive_logs_def m g')
  then have "card (positive_logs F g weights) \<le> card (positive_logs F g' ?ws)"
    by (intro card_mono) (simp_all add: positive_logs_def)
  then have "gi_MinInclusions g \<le> int (card (positive_logs F g' ?ws))" using sat satisfy_iff [OF assms(2)] by fastforce
  moreover have "distinct (map fst ?ws)" using assms(1) by (intro update_weights_keys reset_keys) (simp add: group_inv_def)
  ultimately show ?thesis using assms(1) dom unfolding group_inv_def by (simp add: g')
next
  assume s: "SetLogWeight F g logURL w = Inr g'"
  let ?ws = "AList.update logURL w (gi_LogWeights g)"
  have g': "g' = g\<lparr>gi_LogWeights := ?ws\<rparr>" and sat: "satisfyMinimalInclusion F g ?ws" and m: "logURL \<in> set (gi_LogURLs g)"
    using s by (auto simp: SetLogWeight_def Let_def split: if_splits)
  have d: "distinct (map fst ?ws)" using assms(1) by (simp add: group_inv_def distinct_update)
  have "positive_logs F g' ?ws = positive_logs F g ?ws" by (simp add: positive_logs_def g')
  then show ?thesis using assms(1) sat satisfy_iff [OF d] m d unfolding group_inv_def by (auto simp: g' dom_update)
qed

end
