(* ===== verification/Submission.thy ===== *)
theory Submission
  imports CT_Policy Log_Client
begin

text \<open>
  Submission of a certificate to as many logs as its policy asks for (\<^verbatim>\<open>src/submission/races.go\<close>,
  \<^verbatim>\<open>src/submission/distributor.go\<close>). Each group of logs has a race, each race a goroutine for every log
  of its session; they share one state under a mutex, and a collector waits for the races. All of it is a
  step relation over every interleaving, with the time at which goroutines may start.
\<close>

section \<open>The shared state\<close>

record submissionResult =
  res_sct :: "SignedCertificateTimestamp option"
  res_err :: "client_error option"

text \<open>A goroutine is named by its race and its place in the session; so is its \<^verbatim>\<open>cancel\<close> function.\<close>

type_synonym job_id = "nat \<times> nat"

record safeSubmissionState =
  logToGroups :: "(string \<times> string list) list"
  groupNeeds :: "string \<rightharpoonup> int"
  results :: "(string \<times> submissionResult) list"
  cancels :: "string \<rightharpoonup> job_id"

definition newSafeSubmissionState :: "'f LogPolicyData \<Rightarrow> safeSubmissionState" where
  "newSafeSubmissionState groups =
     \<lparr>logToGroups = GroupByLogs groups,
      groupNeeds = foldl (\<lambda>needs g. needs(gi_Name g \<mapsto> gi_MinInclusions g)) Map.empty groups,
      results = [], cancels = Map.empty\<rparr>"

definition groups_of :: "safeSubmissionState \<Rightarrow> string \<Rightarrow> string list" where
  "groups_of sub logURL = (case map_of (logToGroups sub) logURL of None \<Rightarrow> [] | Some gs \<Rightarrow> gs)"

text \<open>Reading a missing key of a map gives zero.\<close>

definition needs_of :: "safeSubmissionState \<Rightarrow> string \<Rightarrow> int" where
  "needs_of sub g = (case groupNeeds sub g of None \<Rightarrow> 0 | Some n \<Rightarrow> n)"

definition is_awaited :: "safeSubmissionState \<Rightarrow> string list \<Rightarrow> bool" where
  "is_awaited sub groupSet = list_ex (\<lambda>g. needs_of sub g > 0) groupSet"

definition request :: "safeSubmissionState \<Rightarrow> string \<Rightarrow> job_id \<Rightarrow> bool \<times> safeSubmissionState" where
  "request sub logURL cancel =
     (if map_of (results sub) logURL \<noteq> None then (False, sub)
      else
        let sub = sub\<lparr>results := AList.update logURL \<lparr>res_sct = None, res_err = None\<rparr> (results sub)\<rparr>
        in if \<not> is_awaited sub (groups_of sub logURL) then (False, sub)
           else (True, sub\<lparr>cancels := (cancels sub)(logURL \<mapsto> cancel)\<rparr>))"

text \<open>One turn of the loop over the groups of a log.\<close>

definition take_sct :: "string \<Rightarrow> submissionResult \<Rightarrow> safeSubmissionState \<Rightarrow> string \<Rightarrow> safeSubmissionState" where
  "take_sct logURL res sub groupName =
     (let sub = (if needs_of sub groupName > 0 then sub\<lparr>results := AList.update logURL res (results sub)\<rparr> else sub)
      in sub\<lparr>groupNeeds := (groupNeeds sub)(groupName \<mapsto> needs_of sub groupName - 1)\<rparr>)"

text \<open>The loop that cancels what is not awaited any more, with the goroutines whose contexts it cancels.\<close>

fun cancel_loop :: "safeSubmissionState \<Rightarrow> (string \<times> string list) list \<Rightarrow> job_id list \<times> safeSubmissionState" where
  "cancel_loop sub [] = ([], sub)"
| "cancel_loop sub ((logURL, groupSet) # rest) =
     (case (is_awaited sub groupSet, cancels sub logURL) of
        (False, Some c) \<Rightarrow> (case cancel_loop (sub\<lparr>cancels := (cancels sub)(logURL := None)\<rparr>) rest of (cs, sub') \<Rightarrow> (c # cs, sub'))
      | _ \<Rightarrow> cancel_loop sub rest)"

definition setResult ::
    "safeSubmissionState \<Rightarrow> string \<Rightarrow> SignedCertificateTimestamp option \<Rightarrow> client_error option \<Rightarrow> job_id list \<times> safeSubmissionState" where
  "setResult sub logURL sct err =
     (case sct of
        None \<Rightarrow> ([], sub\<lparr>results := AList.update logURL \<lparr>res_sct = sct, res_err = err\<rparr> (results sub)\<rparr>)
      | Some _ \<Rightarrow>
          let sub = foldl (take_sct logURL \<lparr>res_sct = sct, res_err = err\<rparr>) sub (groups_of sub logURL)
          in cancel_loop sub (logToGroups sub))"

definition groupComplete :: "safeSubmissionState \<Rightarrow> string \<Rightarrow> bool" where
  "groupComplete sub groupName = (case groupNeeds sub groupName of None \<Rightarrow> True | Some needs \<Rightarrow> needs \<le> 0)"

record AssignedSCT =
  as_LogURL :: string
  as_SCT :: SignedCertificateTimestamp

definition collectSCTs :: "safeSubmissionState \<Rightarrow> AssignedSCT list" where
  "collectSCTs sub =
     concat (map (\<lambda>(logURL, r). case res_sct r of None \<Rightarrow> [] | Some sct \<Rightarrow> [\<lparr>as_LogURL = logURL, as_SCT = sct\<rparr>]) (results sub))"

section \<open>Races\<close>

definition PostBatchInterval :: int where "PostBatchInterval = time_Second"

definition postInterval :: "nat \<Rightarrow> int \<Rightarrow> int \<Rightarrow> int" where
  "postInterval idx parallelStart dur = (if int idx < parallelStart then 0 else (int idx + 1 - parallelStart) * dur)"

definition parallelNums :: "'f LogPolicyData \<Rightarrow> string \<rightharpoonup> int" where
  "parallelNums groups =
     (let nums = foldl (\<lambda>m g. m(gi_Name g \<mapsto> gi_MinInclusions g)) Map.empty groups;
          subsetSum = sum_list (map gi_MinInclusions (filter (\<lambda>g. \<not> gi_IsBase g) groups))
      in case nums BaseName of
           None \<Rightarrow> nums
         | Some n \<Rightarrow> nums(BaseName \<mapsto> (if n \<ge> subsetSum then n - subsetSum else 0)))"

text \<open>
  A goroutine waits for its timer, is past the test of its group, has its request under way, or has counted
  itself.
\<close>

datatype job = Waiting | Requesting | Submitting | Counted

text \<open>The race of a group; \<open>rc_state\<close> is the outcome that it sent to the collector.\<close>

record race =
  rc_Name :: string
  rc_session :: "string list"
  rc_parallelStart :: int
  rc_jobs :: "job list"
  rc_received :: nat
  rc_state :: "bool option"
  rc_taken :: bool

text \<open>\<open>gr_requests\<close> records the calls of the submitter.\<close>

record get_run =
  gr_sub :: safeSubmissionState
  gr_races :: "race list"
  gr_cancelled :: "job_id list"
  gr_clock :: int
  gr_ctxDone :: bool
  gr_groupComplete :: "(string \<times> bool) list"
  gr_result :: "(AssignedSCT list \<times> string list) option"
  gr_requests :: "string list"

text \<open>The groups that failed are what the error names.\<close>

definition completenessError :: "(string \<times> bool) list \<Rightarrow> string list" where
  "completenessError complete = map fst (filter (\<lambda>(name, success). \<not> success) complete)"

definition start_race :: "(string \<rightharpoonup> int) \<Rightarrow> (string \<Rightarrow> string list) \<Rightarrow> 'f LogGroupInfo \<Rightarrow> race" where
  "start_race nums sessions g =
     \<lparr>rc_Name = gi_Name g, rc_session = sessions (gi_Name g),
      rc_parallelStart = (case nums (gi_Name g) of None \<Rightarrow> 0 | Some n \<Rightarrow> n),
      rc_jobs = replicate (length (sessions (gi_Name g))) Waiting, rc_received = 0, rc_state = None, rc_taken = False\<rparr>"

definition start_get :: "'f LogPolicyData \<Rightarrow> (string \<Rightarrow> string list) \<Rightarrow> get_run" where
  "start_get groups sessions =
     \<lparr>gr_sub = newSafeSubmissionState groups, gr_races = map (start_race (parallelNums groups) sessions) groups,
      gr_cancelled = [], gr_clock = 0, gr_ctxDone = False,
      gr_groupComplete = map (\<lambda>g. (gi_Name g, False)) groups, gr_result = None, gr_requests = []\<rparr>"

definition set_job :: "get_run \<Rightarrow> nat \<Rightarrow> nat \<Rightarrow> job \<Rightarrow> get_run" where
  "set_job s r i j = s\<lparr>gr_races := (gr_races s)[r := (gr_races s ! r)\<lparr>rc_jobs := (rc_jobs (gr_races s ! r))[i := j]\<rparr>]\<rparr>"

definition job_at :: "get_run \<Rightarrow> nat \<Rightarrow> nat \<Rightarrow> job \<Rightarrow> bool" where
  "job_at s r i j \<longleftrightarrow> r < length (gr_races s) \<and> i < length (rc_jobs (gr_races s ! r)) \<and> rc_jobs (gr_races s ! r) ! i = j"

abbreviation job_url :: "get_run \<Rightarrow> nat \<Rightarrow> nat \<Rightarrow> string" where
  "job_url s r i \<equiv> rc_session (gr_races s ! r) ! i"

definition counted :: "race \<Rightarrow> nat" where
  "counted rc = length (filter (\<lambda>j. j = Counted) (rc_jobs rc))"

definition set_race :: "get_run \<Rightarrow> nat \<Rightarrow> race \<Rightarrow> get_run" where
  "set_race s r rc = s\<lparr>gr_races := (gr_races s)[r := rc]\<rparr>"

text \<open>
  A receive from the counter and the test after it are one step: until the test nobody else sees the receive.
  The submitter may give any of the answers that \<open>submit\<close> allows for a log.
\<close>

inductive get_step :: "(string \<Rightarrow> client_error + SignedCertificateTimestamp \<Rightarrow> bool) \<Rightarrow> get_run \<Rightarrow> get_run \<Rightarrow> bool" for submit where
  tick: "get_step submit s (s\<lparr>gr_clock := t\<rparr>)"
    if "gr_clock s < t"
| context_done: "get_step submit s (s\<lparr>gr_ctxDone := True\<rparr>)"
    if "\<not> gr_ctxDone s"
| give_up: "get_step submit s (set_job s r i Counted)"
    if "job_at s r i Waiting" "gr_ctxDone s \<or> (r, i) \<in> set (gr_cancelled s)"
| not_needed: "get_step submit s ((set_job s r i Counted)\<lparr>gr_cancelled := (r, i) # gr_cancelled s\<rparr>)"
    if "job_at s r i Waiting" "postInterval i (rc_parallelStart (gr_races s ! r)) PostBatchInterval \<le> gr_clock s"
      "groupComplete (gr_sub s) (rc_Name (gr_races s ! r))"
| needed: "get_step submit s (set_job s r i Requesting)"
    if "job_at s r i Waiting" "postInterval i (rc_parallelStart (gr_races s ! r)) PostBatchInterval \<le> gr_clock s"
      "\<not> groupComplete (gr_sub s) (rc_Name (gr_races s ! r))"
| first_request: "get_step submit s ((set_job s r i Submitting)\<lparr>gr_sub := sub, gr_requests := gr_requests s @ [job_url s r i]\<rparr>)"
    if "job_at s r i Requesting" "request (gr_sub s) (job_url s r i) (r, i) = (True, sub)"
| other_request: "get_step submit s ((set_job s r i Counted)\<lparr>gr_sub := sub\<rparr>)"
    if "job_at s r i Requesting" "request (gr_sub s) (job_url s r i) (r, i) = (False, sub)"
| got_sct: "get_step submit s ((set_job s r i Counted)\<lparr>gr_sub := sub, gr_cancelled := cs @ gr_cancelled s\<rparr>)"
    if "job_at s r i Submitting" "submit (job_url s r i) (Inr sct)"
      "setResult (gr_sub s) (job_url s r i) (Some sct) None = (cs, sub)"
| got_error: "get_step submit s ((set_job s r i Counted)\<lparr>gr_sub := sub, gr_cancelled := cs @ gr_cancelled s\<rparr>)"
    if "job_at s r i Submitting" "submit (job_url s r i) (Inl e)"
      "setResult (gr_sub s) (job_url s r i) None (Some e) = (cs, sub)"
| count: "get_step submit s (set_race s r (rc\<lparr>rc_received := rc_received rc + 1,
      rc_state := (if groupComplete (gr_sub s) (rc_Name rc) then Some True else None)\<rparr>))"
    if "r < length (gr_races s)" "rc = gr_races s ! r" "rc_state rc = None" "rc_received rc < counted rc"
| race_ends: "get_step submit s (set_race s r (rc\<lparr>rc_state := Some (groupComplete (gr_sub s) (rc_Name rc))\<rparr>))"
    if "r < length (gr_races s)" "rc = gr_races s ! r" "rc_state rc = None" "rc_received rc = length (rc_session rc) \<or> gr_ctxDone s"
| take_event: "get_step submit s ((set_race s r (rc\<lparr>rc_taken := True\<rparr>))
      \<lparr>gr_groupComplete := AList.update (rc_Name rc) success (gr_groupComplete s)\<rparr>)"
    if "gr_result s = None" "r < length (gr_races s)" "rc = gr_races s ! r" "rc_state rc = Some success" "\<not> rc_taken rc"
| collect: "get_step submit s (s\<lparr>gr_result := Some (collectSCTs (gr_sub s), completenessError (gr_groupComplete s))\<rparr>)"
    if "gr_result s = None" "list_all rc_taken (gr_races s) \<or> gr_ctxDone s"

section \<open>The shared state keeps count\<close>

text \<open>The logs with an SCT among the results, and how many of them are members of a group.\<close>

definition recorded :: "safeSubmissionState \<Rightarrow> string set" where
  "recorded sub = {u. \<exists>r. map_of (results sub) u = Some r \<and> res_sct r \<noteq> None}"

definition got_scts :: "safeSubmissionState \<Rightarrow> 'f LogGroupInfo \<Rightarrow> nat" where
  "got_scts sub g = card (set (gi_LogURLs g) \<inter> recorded sub)"

definition member_logs :: "'f LogPolicyData \<Rightarrow> string set" where
  "member_logs groups = (\<Union>g\<in>set groups. set (gi_LogURLs g))"

text \<open>While a group needs SCTs, it needs what is missing to its minimum; once it does not, it has its minimum.\<close>

definition sub_inv :: "'f LogPolicyData \<Rightarrow> safeSubmissionState \<Rightarrow> bool" where
  "sub_inv groups sub \<longleftrightarrow> logToGroups sub = GroupByLogs groups \<and> distinct (map fst (results sub)) \<and>
     recorded sub \<subseteq> member_logs groups \<and>
     (\<forall>g\<in>set groups. \<exists>n. groupNeeds sub (gi_Name g) = Some n \<and>
        (if 0 < n then n = gi_MinInclusions g - int (got_scts sub g) else gi_MinInclusions g \<le> int (got_scts sub g)))"

lemma sub_inv_complete:
  "sub_inv groups sub \<Longrightarrow> g \<in> set groups \<Longrightarrow> groupComplete sub (gi_Name g) \<Longrightarrow> gi_MinInclusions g \<le> int (got_scts sub g)"
  by (fastforce simp: sub_inv_def groupComplete_def split: if_splits)

lemma update_twice: "AList.update k v (AList.update k v al) = AList.update k v al"
  by (induction al) auto

lemma foldl_needs:
  fixes groups :: "'f LogPolicyData"
  shows "distinct (map gi_Name groups) \<Longrightarrow> g \<in> set groups \<Longrightarrow>
     foldl (\<lambda>needs g. needs(gi_Name g \<mapsto> gi_MinInclusions g)) m groups (gi_Name g) = Some (gi_MinInclusions g)"
proof (induction groups arbitrary: m)
  case (Cons h groups)
  have keep: "n \<notin> gi_Name ` set gs \<Longrightarrow> foldl (\<lambda>needs g. needs(gi_Name g \<mapsto> gi_MinInclusions g)) m gs n = m n" for n m and gs :: "'f LogPolicyData"
    by (induction gs arbitrary: m) auto
  show ?case
  proof (cases "g = h")
    case True
    then show ?thesis using Cons.prems(1) keep [of "gi_Name h" groups] by (simp del: fun_upd_apply add: fun_upd_same)
  next
    case False
    then show ?thesis using Cons by (simp del: fun_upd_apply)
  qed
qed simp

lemma new_inv:
  assumes "distinct (map gi_Name groups)" "list_all (\<lambda>g. 0 \<le> gi_MinInclusions g) groups"
  shows "sub_inv groups (newSafeSubmissionState groups)"
  using assms foldl_needs [OF assms(1)]
  by (auto simp: sub_inv_def newSafeSubmissionState_def got_scts_def recorded_def list_all_iff)

lemma groups_of_names:
  assumes "sub_inv groups sub"
  shows "set (groups_of sub u) = {gi_Name g |g. g \<in> set groups \<and> u \<in> set (gi_LogURLs g)}" and "distinct (groups_of sub u)"
proof -
  have "logToGroups sub = GroupByLogs groups" using assms by (simp add: sub_inv_def)
  then show "set (groups_of sub u) = {gi_Name g |g. g \<in> set groups \<and> u \<in> set (gi_LogURLs g)}" "distinct (groups_of sub u)"
    using GroupByLogs_names [of groups u] GroupByLogs_distinct [of groups]
    by (auto simp: groups_of_def list_all_iff split: option.splits dest!: map_of_SomeD)
qed

text \<open>The effect of the loop over the groups of a log.\<close>

lemma take_scts:
  "distinct gs \<Longrightarrow> foldl (take_sct u r) sub gs =
     sub\<lparr>groupNeeds := (\<lambda>g. if g \<in> set gs then Some (needs_of sub g - 1) else groupNeeds sub g),
         results := (if is_awaited sub gs then AList.update u r (results sub) else results sub)\<rparr>"
proof (induction gs arbitrary: sub)
  case (Cons g gs)
  let ?s = "take_sct u r sub g"
  have n: "needs_of ?s h = (if h = g then needs_of sub g - 1 else needs_of sub h)" for h
    by (simp add: take_sct_def needs_of_def Let_def)
  have a: "is_awaited ?s gs = is_awaited sub gs"
    using Cons.prems unfolding is_awaited_def n by (auto simp: list_ex_iff)
  have e: "foldl (take_sct u r) ?s gs = ?s\<lparr>groupNeeds := (\<lambda>g. if g \<in> set gs then Some (needs_of ?s g - 1) else groupNeeds ?s g),
      results := (if is_awaited ?s gs then AList.update u r (results ?s) else results ?s)\<rparr>"
    using Cons.prems by (intro Cons.IH) simp
  have "(\<lambda>h. if h \<in> set gs then Some (needs_of ?s h - 1) else groupNeeds ?s h) =
      (\<lambda>h. if h \<in> set (g # gs) then Some (needs_of sub h - 1) else groupNeeds sub h)"
    using Cons.prems by (auto simp: fun_eq_iff take_sct_def needs_of_def Let_def split: option.splits)
  moreover have "(if is_awaited ?s gs then AList.update u r (results ?s) else results ?s) =
      (if is_awaited sub (g # gs) then AList.update u r (results sub) else results sub)"
    unfolding a by (simp add: take_sct_def Let_def is_awaited_def update_twice)
  moreover have "?s\<lparr>groupNeeds := x, results := y\<rparr> = sub\<lparr>groupNeeds := x, results := y\<rparr>" for x y
    by (simp add: take_sct_def Let_def)
  ultimately show ?case using e by simp
qed (simp add: is_awaited_def)

lemma cancel_loop_keeps: "cancel_loop sub ls = (cs, sub') \<Longrightarrow> \<exists>c. sub' = sub\<lparr>cancels := c\<rparr>"
proof (induction sub ls arbitrary: cs rule: cancel_loop.induct)
  case (1 sub)
  then have "sub' = sub\<lparr>cancels := cancels sub\<rparr>" by simp
  then show ?case by blast
next
  case (2 sub u gs rest)
  then show ?case by (force split: bool.splits option.splits prod.splits)
qed

lemma setResult_sct:
  assumes "sub_inv groups sub" "setResult sub u (Some sct) err = (cs, sub')"
  obtains c where "sub' = sub\<lparr>groupNeeds := (\<lambda>g. if g \<in> set (groups_of sub u) then Some (needs_of sub g - 1) else groupNeeds sub g),
      results := (if is_awaited sub (groups_of sub u) then AList.update u \<lparr>res_sct = Some sct, res_err = err\<rparr> (results sub) else results sub),
      cancels := c\<rparr>"
  using assms(2) cancel_loop_keeps that
  unfolding setResult_def take_scts [OF groups_of_names(2) [OF assms(1)]] Let_def by fastforce

lemma recorded_update:
  "recorded (sub\<lparr>results := AList.update u r (results sub)\<rparr>) = (if res_sct r = None then recorded sub - {u} else insert u (recorded sub))"
  by (auto simp: recorded_def update_conv')

lemma name_inj:
  fixes groups :: "'f LogPolicyData"
  shows "distinct (map gi_Name groups) \<Longrightarrow> g \<in> set groups \<Longrightarrow> h \<in> set groups \<Longrightarrow> gi_Name g = gi_Name h \<Longrightarrow> g = h"
  by (auto simp: distinct_map inj_on_def)

lemma setResult_inv:
  assumes "sub_inv groups sub" "distinct (map gi_Name groups)" "u \<notin> recorded sub" "setResult sub u (Some sct) err = (cs, sub')"
  shows "sub_inv groups sub'" and "recorded sub' = recorded sub \<or> recorded sub' = insert u (recorded sub)"
proof -
  let ?r = "\<lparr>res_sct = Some sct, res_err = err\<rparr>"
  obtain c where sub': "sub' = sub\<lparr>groupNeeds := (\<lambda>g. if g \<in> set (groups_of sub u) then Some (needs_of sub g - 1) else groupNeeds sub g),
      results := (if is_awaited sub (groups_of sub u) then AList.update u ?r (results sub) else results sub), cancels := c\<rparr>"
    using setResult_sct [OF assms(1,4)] .
  have rec: "recorded sub' = (if is_awaited sub (groups_of sub u) then insert u (recorded sub) else recorded sub)"
    unfolding sub' by (auto simp: recorded_def update_conv')
  then show "recorded sub' = recorded sub \<or> recorded sub' = insert u (recorded sub)" by simp
  have "\<exists>n. groupNeeds sub' (gi_Name g) = Some n \<and>
      (if 0 < n then n = gi_MinInclusions g - int (got_scts sub' g) else gi_MinInclusions g \<le> int (got_scts sub' g))" if g: "g \<in> set groups" for g
  proof -
    obtain n where n: "groupNeeds sub (gi_Name g) = Some n"
        "if 0 < n then n = gi_MinInclusions g - int (got_scts sub g) else gi_MinInclusions g \<le> int (got_scts sub g)"
      using assms(1) g by (auto simp: sub_inv_def)
    have mem: "gi_Name g \<in> set (groups_of sub u) \<longleftrightarrow> u \<in> set (gi_LogURLs g)"
      using groups_of_names(1) [OF assms(1)] g name_inj [OF assms(2)] by auto
    have le: "got_scts sub g \<le> got_scts sub' g" unfolding got_scts_def using rec by (intro card_mono) auto
    show ?thesis
    proof (cases "u \<in> set (gi_LogURLs g)")
      case True
      then have need: "groupNeeds sub' (gi_Name g) = Some (n - 1)" using mem n(1) unfolding sub' by (simp add: needs_of_def)
      show ?thesis
      proof (cases "0 < n")
        case pos: True
        then have "is_awaited sub (groups_of sub u)" using mem True n(1) by (auto simp: is_awaited_def list_ex_iff needs_of_def intro: bexI [of _ "gi_Name g"])
        then have "set (gi_LogURLs g) \<inter> recorded sub' = insert u (set (gi_LogURLs g) \<inter> recorded sub)" using rec True by auto
        then have "got_scts sub' g = Suc (got_scts sub g)" using assms(3) by (simp add: got_scts_def)
        then show ?thesis using need n(2) pos by auto
      next
        case False
        then show ?thesis using need n(2) le by auto
      qed
    next
      case False
      then have "groupNeeds sub' (gi_Name g) = Some n" using mem n(1) unfolding sub' by simp
      moreover have "set (gi_LogURLs g) \<inter> recorded sub' = set (gi_LogURLs g) \<inter> recorded sub" using rec False by auto
      ultimately show ?thesis using n(2) by (simp add: got_scts_def split: if_splits)
    qed
  qed
  moreover have "recorded sub' \<subseteq> member_logs groups"
  proof -
    have "u \<in> member_logs groups" if "is_awaited sub (groups_of sub u)"
      using that groups_of_names(1) [OF assms(1), of u] by (fastforce simp: is_awaited_def list_ex_iff member_logs_def)
    then show ?thesis using rec assms(1) by (auto simp: sub_inv_def)
  qed
  ultimately show "sub_inv groups sub'" using assms(1) unfolding sub_inv_def by (simp add: sub' distinct_update)
qed

lemma sub_inv_cong:
  assumes "sub_inv groups sub" "logToGroups sub' = logToGroups sub" "groupNeeds sub' = groupNeeds sub" "recorded sub' = recorded sub"
    "distinct (map fst (results sub'))"
  shows "sub_inv groups sub'"
proof -
  have e: "got_scts sub' = (got_scts sub :: 'a LogGroupInfo \<Rightarrow> nat)" by (simp add: fun_eq_iff got_scts_def assms(4))
  show ?thesis using assms unfolding sub_inv_def e by (simp split del: if_split)
qed

lemma request_cases:
  assumes "request sub u c = (b, sub')"
  obtains "map_of (results sub) u \<noteq> None" "\<not> b" "sub' = sub"
  | k where "map_of (results sub) u = None"
      "sub' = sub\<lparr>results := AList.update u \<lparr>res_sct = None, res_err = None\<rparr> (results sub), cancels := k\<rparr>"
proof (cases "map_of (results sub) u")
  case None
  let ?s = "sub\<lparr>results := AList.update u \<lparr>res_sct = None, res_err = None\<rparr> (results sub)\<rparr>"
  have "sub' = ?s\<lparr>cancels := cancels ?s\<rparr> \<or> sub' = ?s\<lparr>cancels := (cancels ?s)(u \<mapsto> c)\<rparr>"
    using assms None by (auto simp: request_def Let_def split: if_splits)
  then show ?thesis using that(2) None by blast
next
  case (Some x)
  then have "\<not> b" "sub' = sub" using assms by (auto simp: request_def)
  then show ?thesis using that(1) Some by simp
qed

text \<open>What a result may be.\<close>

definition answered :: "(string \<Rightarrow> client_error + SignedCertificateTimestamp \<Rightarrow> bool) \<Rightarrow> safeSubmissionState \<Rightarrow> bool" where
  "answered submit sub \<longleftrightarrow> list_all (\<lambda>(u, r). \<forall>sct. res_sct r = Some sct \<longrightarrow> submit u (Inr sct)) (results sub)"

lemma list_all_AList_update: "list_all P al \<Longrightarrow> P (k, v) \<Longrightarrow> list_all P (AList.update k v al)"
  by (induction al) auto

lemma request_inv:
  assumes "request sub u c = (b, sub')" "sub_inv groups sub" "answered submit sub"
  shows "sub_inv groups sub'" "answered submit sub'" "recorded sub' = recorded sub" "groupNeeds sub' = groupNeeds sub"
    and "set (map fst (results sub')) = insert u (set (map fst (results sub)))" and "b \<Longrightarrow> u \<notin> set (map fst (results sub))"
proof -
  note res = assms(1)
  show r: "recorded sub' = recorded sub" and n: "groupNeeds sub' = groupNeeds sub"
    by (cases rule: request_cases [OF res]; auto simp: recorded_def update_conv')+
  show "answered submit sub'"
    using assms(3) by (cases rule: request_cases [OF res]) (auto simp: answered_def intro: list_all_AList_update)
  have "distinct (map fst (results sub'))" "logToGroups sub' = logToGroups sub"
    using assms(2) by (cases rule: request_cases [OF res]; auto simp: sub_inv_def distinct_update)+
  then show "sub_inv groups sub'" using sub_inv_cong [OF assms(2) _ n r] by simp
  show "set (map fst (results sub')) = insert u (set (map fst (results sub)))"
    by (cases rule: request_cases [OF res]) (auto simp: dom_update map_of_eq_None_iff dest!: map_of_SomeD intro: rev_image_eqI)
  show "b \<Longrightarrow> u \<notin> set (map fst (results sub))" using assms(1) by (auto simp: request_def map_of_eq_None_iff split: if_splits)
qed

lemma setResult_all:
  assumes "setResult sub u sct err = (cs, sub')" "sub_inv groups sub" "distinct (map gi_Name groups)" "u \<notin> recorded sub"
    "answered submit sub" "\<And>x. sct = Some x \<Longrightarrow> submit u (Inr x)" "u \<in> set (map fst (results sub))"
  shows "sub_inv groups sub'" "answered submit sub'" "recorded sub' \<subseteq> insert u (recorded sub)"
    "set (map fst (results sub')) = set (map fst (results sub))" "groupComplete sub n \<Longrightarrow> groupComplete sub' n"
proof -
  have "sub_inv groups sub' \<and> answered submit sub' \<and> recorded sub' \<subseteq> insert u (recorded sub) \<and>
      set (map fst (results sub')) = set (map fst (results sub)) \<and> (groupComplete sub n \<longrightarrow> groupComplete sub' n)"
  proof (cases sct)
    case None
    then have s: "sub' = sub\<lparr>results := AList.update u \<lparr>res_sct = None, res_err = err\<rparr> (results sub)\<rparr>"
      using assms(1) by (simp add: setResult_def)
    have r: "recorded sub' = recorded sub" using assms(4) by (auto simp: s recorded_def update_conv')
    have "sub_inv groups sub'"
      using assms(2) by (intro sub_inv_cong [OF assms(2) _ _ r]) (simp_all add: s sub_inv_def distinct_update)
    moreover have "answered submit sub'" using assms(5) by (auto simp: s answered_def intro: list_all_AList_update)
    ultimately show ?thesis using r assms(7) by (auto simp: s dom_update groupComplete_def)
  next
    case (Some x)
    obtain c where s: "sub' = sub\<lparr>groupNeeds := (\<lambda>g. if g \<in> set (groups_of sub u) then Some (needs_of sub g - 1) else groupNeeds sub g),
        results := (if is_awaited sub (groups_of sub u) then AList.update u \<lparr>res_sct = Some x, res_err = err\<rparr> (results sub) else results sub),
        cancels := c\<rparr>"
      using setResult_sct [OF assms(2) assms(1) [unfolded Some]] .
    have "answered submit sub'"
      using assms(5) assms(6) [OF Some] by (auto simp: s answered_def intro: list_all_AList_update)
    moreover have "set (map fst (results sub')) = set (map fst (results sub))" using assms(7) by (auto simp: s dom_update)
    moreover have "groupComplete sub n \<longrightarrow> groupComplete sub' n"
      by (auto simp: s groupComplete_def needs_of_def split: option.splits)
    ultimately show ?thesis using setResult_inv [OF assms(2-4) assms(1) [unfolded Some]] by auto
  qed
  then show "sub_inv groups sub'" "answered submit sub'" "recorded sub' \<subseteq> insert u (recorded sub)"
    "set (map fst (results sub')) = set (map fst (results sub))" "groupComplete sub n \<Longrightarrow> groupComplete sub' n" by auto
qed

section \<open>Invariants of the races\<close>

lemma job_at_set:
  "job_at s r i x \<Longrightarrow> job_at (set_job s r i j) r' i' k \<longleftrightarrow> (if r' = r \<and> i' = i then k = j else job_at s r' i' k)"
  by (auto simp: job_at_def set_job_def nth_list_update)

lemma job_url_set: "job_at s r i x \<Longrightarrow> job_url (set_job s r i j) r' i' = job_url s r' i'"
  by (cases "r' = r") (auto simp: job_at_def set_job_def)

lemma set_job_more [simp]:
  "gr_sub (set_job s r i j) = gr_sub s" "gr_requests (set_job s r i j) = gr_requests s" "gr_groupComplete (set_job s r i j) = gr_groupComplete s"
  "gr_result (set_job s r i j) = gr_result s" "gr_ctxDone (set_job s r i j) = gr_ctxDone s" "gr_clock (set_job s r i j) = gr_clock s"
  by (simp_all add: set_job_def)

text \<open>One request under way for a log at a time, for a log without an SCT; no log is requested twice.\<close>

definition jobs_inv :: "get_run \<Rightarrow> bool" where
  "jobs_inv s \<longleftrightarrow> distinct (gr_requests s) \<and> set (gr_requests s) \<subseteq> set (map fst (results (gr_sub s))) \<and>
     (\<forall>r i. job_at s r i Submitting \<longrightarrow> job_url s r i \<in> set (gr_requests s) \<and> job_url s r i \<notin> recorded (gr_sub s)) \<and>
     (\<forall>r i r' i'. job_at s r i Submitting \<and> job_at s r' i' Submitting \<and> job_url s r i = job_url s r' i' \<longrightarrow> r = r' \<and> i = i')"

text \<open>A race that reported success, and a group that is marked complete, is complete.\<close>

definition races_inv :: "'f LogPolicyData \<Rightarrow> get_run \<Rightarrow> bool" where
  "races_inv groups s \<longleftrightarrow> map rc_Name (gr_races s) = map gi_Name groups \<and> map fst (gr_groupComplete s) = map gi_Name groups \<and>
     list_all (\<lambda>rc. rc_state rc = Some True \<longrightarrow> groupComplete (gr_sub s) (rc_Name rc)) (gr_races s) \<and>
     list_all (\<lambda>(n, b). b \<longrightarrow> groupComplete (gr_sub s) n) (gr_groupComplete s)"

definition policy_met :: "'f LogPolicyData \<Rightarrow> AssignedSCT list \<Rightarrow> bool" where
  "policy_met groups scts \<longleftrightarrow> list_all (\<lambda>g. gi_MinInclusions g \<le> int (card (set (gi_LogURLs g) \<inter> as_LogURL ` set scts))) groups"

definition result_inv ::
    "(string \<Rightarrow> client_error + SignedCertificateTimestamp \<Rightarrow> bool) \<Rightarrow> 'f LogPolicyData \<Rightarrow> get_run \<Rightarrow> bool" where
  "result_inv submit groups s \<longleftrightarrow>
     (case gr_result s of
        None \<Rightarrow> True
      | Some (scts, failed) \<Rightarrow> distinct (map as_LogURL scts) \<and> as_LogURL ` set scts \<subseteq> member_logs groups \<and> list_all (\<lambda>a. submit (as_LogURL a) (Inr (as_SCT a))) scts \<and>
          (failed = [] \<longrightarrow> policy_met groups scts))"

definition get_inv ::
    "(string \<Rightarrow> client_error + SignedCertificateTimestamp \<Rightarrow> bool) \<Rightarrow> 'f LogPolicyData \<Rightarrow> get_run \<Rightarrow> bool" where
  "get_inv submit groups s \<longleftrightarrow> sub_inv groups (gr_sub s) \<and> answered submit (gr_sub s) \<and> jobs_inv s \<and> races_inv groups s \<and> result_inv submit groups s"

lemma collected_sct: "a \<in> set (collectSCTs sub) \<longleftrightarrow> (\<exists>r. (as_LogURL a, r) \<in> set (results sub) \<and> res_sct r = Some (as_SCT a))"
proof -
  have "a \<in> set (concat (map (\<lambda>(u, r). case res_sct r of None \<Rightarrow> [] | Some sct \<Rightarrow> [\<lparr>as_LogURL = u, as_SCT = sct\<rparr>]) rs)) \<longleftrightarrow>
      (\<exists>r. (as_LogURL a, r) \<in> set rs \<and> res_sct r = Some (as_SCT a))" for rs
  proof (induction rs)
    case (Cons p rs)
    obtain u r where p: "p = (u, r)" by fastforce
    show ?case
    proof (cases "res_sct r")
      case None
      then show ?thesis using Cons p by auto
    next
      case (Some x)
      then show ?thesis using Cons p by (cases a) auto
    qed
  qed simp
  then show ?thesis unfolding collectSCTs_def .
qed

lemma collected_urls: "as_LogURL ` set (collectSCTs sub) = {u. \<exists>r. (u, r) \<in> set (results sub) \<and> res_sct r \<noteq> None}" (is "?l = ?r")
proof
  show "?l \<subseteq> ?r" using collected_sct by fastforce
  show "?r \<subseteq> ?l"
  proof
    fix u assume "u \<in> ?r"
    then obtain r sct where r: "(u, r) \<in> set (results sub)" "res_sct r = Some sct" by auto
    then have "\<lparr>as_LogURL = u, as_SCT = sct\<rparr> \<in> set (collectSCTs sub)" by (auto simp: collected_sct)
    then show "u \<in> ?l" by (metis AssignedSCT.select_convs(1) imageI)
  qed
qed

lemma collected_recorded: "distinct (map fst (results sub)) \<Longrightarrow> as_LogURL ` set (collectSCTs sub) = recorded sub"
  unfolding collected_urls by (auto simp: recorded_def)

lemma collect_distinct: "distinct (map fst (results sub)) \<Longrightarrow> distinct (map as_LogURL (collectSCTs sub))"
proof -
  have "distinct (map fst rs) \<Longrightarrow> distinct (map as_LogURL (concat (map (\<lambda>(u, r). case res_sct r of None \<Rightarrow> []
      | Some sct \<Rightarrow> [\<lparr>as_LogURL = u, as_SCT = sct\<rparr>]) rs)))" for rs
  proof (induction rs)
    case (Cons p rs)
    obtain u r where p: "p = (u, r)" by fastforce
    have "u \<notin> as_LogURL ` set (concat (map (\<lambda>(u, r). case res_sct r of None \<Rightarrow> [] | Some sct \<Rightarrow> [\<lparr>as_LogURL = u, as_SCT = sct\<rparr>]) rs))"
      using Cons.prems p by (auto split: option.splits) (metis fst_conv image_eqI)
    then show ?case using Cons p by (auto split: option.splits)
  qed simp
  then show "distinct (map fst (results sub)) \<Longrightarrow> ?thesis" unfolding collectSCTs_def .
qed

lemma job_at_races: "gr_races t = gr_races s \<Longrightarrow> job_at t = job_at s"
  by (simp add: fun_eq_iff job_at_def)

lemma jobs_inv_keep:
  assumes "jobs_inv s" "gr_requests t = gr_requests s" "set (map fst (results (gr_sub s))) \<subseteq> set (map fst (results (gr_sub t)))"
    "\<And>r i. job_at t r i Submitting \<Longrightarrow> job_at s r i Submitting \<and> job_url t r i = job_url s r i \<and> job_url s r i \<notin> recorded (gr_sub t)"
  shows "jobs_inv t"
  unfolding jobs_inv_def
proof (intro conjI allI impI)
  note inv = assms(1) [unfolded jobs_inv_def]
  show "distinct (gr_requests t)" "set (gr_requests t) \<subseteq> set (map fst (results (gr_sub t)))" using inv assms(2,3) by auto
  show "job_url t r i \<in> set (gr_requests t)" if "job_at t r i Submitting" for r i using assms(4) [OF that] assms(2) inv by auto
  show "job_url t r i \<notin> recorded (gr_sub t)" if "job_at t r i Submitting" for r i using assms(4) [OF that] by auto
  fix r i r' i' assume two: "job_at t r i Submitting \<and> job_at t r' i' Submitting \<and> job_url t r i = job_url t r' i'"
  then have "job_at s r i Submitting \<and> job_at s r' i' Submitting \<and> job_url s r i = job_url s r' i'"
    using assms(4) [of r i] assms(4) [of r' i'] by auto
  then show "r = r'" "i = i'" using inv by blast+
qed

lemma jobs_inv_same:
  assumes "gr_races t = gr_races s" "gr_requests t = gr_requests s" "gr_sub t = gr_sub s"
  shows "jobs_inv t = jobs_inv s"
  unfolding jobs_inv_def job_at_races [OF assms(1)] assms ..

lemma races_inv_keep:
  assumes "races_inv groups s" "map (\<lambda>rc. (rc_Name rc, rc_state rc)) (gr_races t) = map (\<lambda>rc. (rc_Name rc, rc_state rc)) (gr_races s)"
    "gr_groupComplete t = gr_groupComplete s" "\<And>n. groupComplete (gr_sub s) n \<Longrightarrow> groupComplete (gr_sub t) n"
  shows "races_inv groups t"
proof -
  have "map rc_Name (gr_races t) = map rc_Name (gr_races s)" using arg_cong [OF assms(2), of "map fst"] by (simp add: comp_def)
  moreover have "list_all (\<lambda>rc. rc_state rc = Some True \<longrightarrow> groupComplete (gr_sub t) (rc_Name rc)) (gr_races t)"
  proof -
    have "list_all (\<lambda>(n, st). st = Some True \<longrightarrow> groupComplete (gr_sub t) n) (map (\<lambda>rc. (rc_Name rc, rc_state rc)) (gr_races s))"
      using assms(1,4) by (auto simp: races_inv_def list_all_iff)
    then show ?thesis unfolding assms(2) [symmetric] by (auto simp: list_all_iff)
  qed
  ultimately show ?thesis using assms by (auto simp: races_inv_def list_all_iff)
qed

lemma set_job_states:
  "map (\<lambda>rc. (rc_Name rc, rc_state rc)) (gr_races (set_job s r i j)) = map (\<lambda>rc. (rc_Name rc, rc_state rc)) (gr_races s)"
  by (simp add: set_job_def map_update_same)

text \<open>A step of a goroutine that is not to a new request.\<close>

lemma job_step_inv:
  assumes inv: "get_inv submit groups s" and at: "job_at s r i x" and "j \<noteq> Submitting"
    and t: "gr_races t = gr_races (set_job s r i j)" "gr_requests t = gr_requests s" "gr_groupComplete t = gr_groupComplete s" "gr_result t = gr_result s"
    and sub: "sub_inv groups (gr_sub t)" "answered submit (gr_sub t)" "\<And>n. groupComplete (gr_sub s) n \<Longrightarrow> groupComplete (gr_sub t) n"
      "set (map fst (results (gr_sub s))) \<subseteq> set (map fst (results (gr_sub t)))"
    and rec: "recorded (gr_sub t) \<subseteq> recorded (gr_sub s) \<or> x = Submitting \<and> recorded (gr_sub t) \<subseteq> insert (job_url s r i) (recorded (gr_sub s))"
  shows "get_inv submit groups t"
proof -
  have url: "job_url t r' i' = job_url s r' i'" for r' i' using job_url_set [OF at, of j] by (simp add: t(1))
  have at': "job_at t r' i' k \<longleftrightarrow> (if r' = r \<and> i' = i then k = j else job_at s r' i' k)" for r' i' k
    using job_at_set [OF at] job_at_races [OF t(1)] by simp
  have "jobs_inv t"
  proof (rule jobs_inv_keep [OF _ t(2) sub(4)])
    show js: "jobs_inv s" using inv by (simp add: get_inv_def)
    fix r' i' assume "job_at t r' i' Submitting"
    then have ne: "(r', i') \<noteq> (r, i)" and s: "job_at s r' i' Submitting" using at' assms(3) by (auto split: if_splits)
    have "job_url s r' i' \<notin> recorded (gr_sub s)" using js s by (auto simp: jobs_inv_def)
    moreover have "job_url s r' i' \<noteq> job_url s r i" if "x = Submitting"
      using js s at ne that unfolding jobs_inv_def by blast
    ultimately have "job_url s r' i' \<notin> recorded (gr_sub t)" using rec by auto
    then show "job_at s r' i' Submitting \<and> job_url t r' i' = job_url s r' i' \<and> job_url s r' i' \<notin> recorded (gr_sub t)" using s url by blast
  qed
  moreover have "races_inv groups t"
    using inv by (intro races_inv_keep [OF _ _ t(3) sub(3)]) (simp_all add: get_inv_def t(1) set_job_states)
  ultimately show ?thesis using inv sub(1,2) t(4) by (simp add: get_inv_def result_inv_def)
qed

lemma get_inv_sub:
  "get_inv submit groups s \<Longrightarrow> sub_inv groups (gr_sub s)" "get_inv submit groups s \<Longrightarrow> answered submit (gr_sub s)"
  by (simp_all add: get_inv_def)

lemma request_step_inv:
  assumes inv: "get_inv submit groups s" and at: "job_at s r i Requesting"
    and req: "request (gr_sub s) (job_url s r i) (r, i) = (True, sub)"
  shows "get_inv submit groups ((set_job s r i Submitting)\<lparr>gr_sub := sub, gr_requests := gr_requests s @ [job_url s r i]\<rparr>)" (is "get_inv _ _ ?t")
proof -
  note q = request_inv [OF req get_inv_sub [OF inv]]
  have url: "job_url ?t r' i' = job_url s r' i'" for r' i' using job_url_set [OF at, of Submitting] by simp
  have at': "job_at ?t r' i' k \<longleftrightarrow> (if r' = r \<and> i' = i then k = Submitting else job_at s r' i' k)" for r' i' k
    using job_at_set [OF at] job_at_races [of ?t "set_job s r i Submitting"] by simp
  have js: "jobs_inv s" using inv by (simp add: get_inv_def)
  have fresh: "job_url s r i \<notin> set (map fst (results (gr_sub s)))" using q(6) by simp
  then have new: "job_url s r i \<notin> set (gr_requests s)" using js by (auto simp: jobs_inv_def)
  have un: "job_url s r i \<notin> recorded (gr_sub s)" using fresh by (auto simp: recorded_def dest!: map_of_SomeD intro: rev_image_eqI)
  have "jobs_inv ?t"
    unfolding jobs_inv_def
  proof (intro conjI allI impI)
    show "distinct (gr_requests ?t)" using js new by (simp add: jobs_inv_def)
    show "set (gr_requests ?t) \<subseteq> set (map fst (results (gr_sub ?t)))" using js q(5) by (auto simp: jobs_inv_def)
    show "job_url ?t r' i' \<in> set (gr_requests ?t)" if "job_at ?t r' i' Submitting" for r' i'
      using that js unfolding url at' by (auto simp: jobs_inv_def split: if_splits)
    show "job_url ?t r' i' \<notin> recorded (gr_sub ?t)" if "job_at ?t r' i' Submitting" for r' i'
      using that js un q(3) unfolding url at' by (auto simp: jobs_inv_def split: if_splits)
    fix r1 i1 r2 i2 assume two: "job_at ?t r1 i1 Submitting \<and> job_at ?t r2 i2 Submitting \<and> job_url ?t r1 i1 = job_url ?t r2 i2"
    have old: "job_url s r' i' \<noteq> job_url s r i" if "job_at s r' i' Submitting" for r' i'
      using js that new unfolding jobs_inv_def by metis
    have "(r1, i1) = (r2, i2)"
    proof (cases "job_at s r1 i1 Submitting \<and> job_at s r2 i2 Submitting")
      case True
      then show ?thesis using two js unfolding url jobs_inv_def by blast
    next
      case False
      then show ?thesis using two old unfolding url at' by (metis)
    qed
    then show "r1 = r2" "i1 = i2" by simp_all
  qed
  moreover have "races_inv groups ?t"
  proof (rule races_inv_keep)
    show "races_inv groups s" using inv by (simp add: get_inv_def)
    show "groupComplete (gr_sub s) n \<Longrightarrow> groupComplete (gr_sub ?t) n" for n by (simp add: groupComplete_def q(4))
  qed (simp_all add: set_job_states)
  ultimately show ?thesis using inv q(1,2) by (simp add: get_inv_def result_inv_def)
qed

text \<open>A step of a race or of the collector.\<close>

lemma race_step_inv:
  assumes inv: "get_inv submit groups s" and r: "r < length (gr_races s)"
    and rc: "rc_Name rc = rc_Name (gr_races s ! r)" "rc_session rc = rc_session (gr_races s ! r)" "rc_jobs rc = rc_jobs (gr_races s ! r)"
      "rc_state rc = Some True \<longrightarrow> groupComplete (gr_sub s) (rc_Name rc)"
    and c: "map fst c = map fst (gr_groupComplete s)" "list_all (\<lambda>(n, b). b \<longrightarrow> groupComplete (gr_sub s) n) c"
  shows "get_inv submit groups ((set_race s r rc)\<lparr>gr_groupComplete := c\<rparr>)" (is "get_inv _ _ ?t")
proof -
  have jobs: "job_at ?t = job_at s" "job_url ?t r' i' = job_url s r' i'" for r' i'
    using r rc by (auto simp: fun_eq_iff job_at_def set_race_def nth_list_update)
  have js: "jobs_inv s" using inv by (simp add: get_inv_def)
  have "jobs_inv ?t"
  proof (rule jobs_inv_keep [OF js])
    fix r' i' assume "job_at ?t r' i' Submitting"
    then have "job_at s r' i' Submitting" using jobs(1) by simp
    then show "job_at s r' i' Submitting \<and> job_url ?t r' i' = job_url s r' i' \<and> job_url s r' i' \<notin> recorded (gr_sub ?t)"
      using js jobs(2) unfolding jobs_inv_def by (simp add: set_race_def)
  qed (simp_all add: set_race_def)
  moreover have "map rc_Name ((gr_races s)[r := rc]) = map rc_Name (gr_races s)"
    using rc(1) by (rule map_update_same)
  moreover have "list_all (\<lambda>rc. rc_state rc = Some True \<longrightarrow> groupComplete (gr_sub s) (rc_Name rc)) ((gr_races s)[r := rc])"
    using inv rc(4) by (auto simp: get_inv_def races_inv_def list_all_iff dest!: set_update_subset_insert [THEN subsetD])
  ultimately show ?thesis using inv c by (simp add: get_inv_def races_inv_def result_inv_def set_race_def)
qed

lemma set_race_groupComplete: "set_race s r rc = (set_race s r rc)\<lparr>gr_groupComplete := gr_groupComplete s\<rparr>"
  by (simp add: set_race_def)

lemma groupComplete_list: "get_inv submit groups s \<Longrightarrow> list_all (\<lambda>(n, b). b \<longrightarrow> groupComplete (gr_sub s) n) (gr_groupComplete s)"
  by (simp add: get_inv_def races_inv_def)

lemma completenessError_nil: "completenessError c = [] \<Longrightarrow> n \<in> fst ` set c \<Longrightarrow> (n, True) \<in> set c"
  by (force simp: completenessError_def filter_empty_conv)

lemma collect_inv:
  assumes inv: "get_inv submit groups s"
  shows "get_inv submit groups (s\<lparr>gr_result := Some (collectSCTs (gr_sub s), completenessError (gr_groupComplete s))\<rparr>)"
proof -
  have d: "distinct (map fst (results (gr_sub s)))" using inv by (simp add: get_inv_def sub_inv_def)
  have "gi_MinInclusions g \<le> int (got_scts (gr_sub s) g)" if "completenessError (gr_groupComplete s) = []" "g \<in> set groups" for g
  proof -
    have "gi_Name g \<in> set (map fst (gr_groupComplete s))" using inv that(2) by (auto simp: get_inv_def races_inv_def)
    then have "(gi_Name g, True) \<in> set (gr_groupComplete s)" using completenessError_nil [OF that(1)] by simp
    then have "groupComplete (gr_sub s) (gi_Name g)" using groupComplete_list [OF inv] by (auto simp: list_all_iff)
    then show ?thesis using sub_inv_complete [OF get_inv_sub(1) [OF inv] that(2)] by simp
  qed
  then have "completenessError (gr_groupComplete s) = [] \<longrightarrow> policy_met groups (collectSCTs (gr_sub s))"
    by (simp add: policy_met_def list_all_iff collected_recorded [OF d] got_scts_def)
  moreover have "list_all (\<lambda>a. submit (as_LogURL a) (Inr (as_SCT a))) (collectSCTs (gr_sub s))"
    using inv by (fastforce simp: list_all_iff collected_sct get_inv_def answered_def)
  moreover have "jobs_inv (s\<lparr>gr_result := x\<rparr>)" for x using inv jobs_inv_same [of "s\<lparr>gr_result := x\<rparr>" s] by (simp add: get_inv_def)
  moreover have "as_LogURL ` set (collectSCTs (gr_sub s)) \<subseteq> member_logs groups"
    unfolding collected_recorded [OF d] using inv by (simp add: get_inv_def sub_inv_def)
  ultimately show ?thesis using inv collect_distinct [OF d] by (simp add: get_inv_def races_inv_def result_inv_def)
qed

lemma same_inv:
  assumes "get_inv submit groups s" "gr_races t = gr_races s" "gr_requests t = gr_requests s" "gr_sub t = gr_sub s"
    "gr_groupComplete t = gr_groupComplete s" "gr_result t = gr_result s"
  shows "get_inv submit groups t"
  using assms jobs_inv_same [OF assms(2-4)] by (simp add: get_inv_def races_inv_def result_inv_def)

lemma get_step_inv:
  assumes "get_step submit s t" "get_inv submit groups s" "distinct (map gi_Name groups)"
  shows "get_inv submit groups t"
  using assms(1,2)
proof (induction rule: get_step.induct)
  case (tick s t)
  show ?case by (rule same_inv [OF tick(2)]) simp_all
next
  case (context_done s)
  show ?case by (rule same_inv [OF context_done(2)]) simp_all
next
  case (give_up s r i)
  show ?case by (rule job_step_inv [OF give_up(3,1), of Counted]) (simp_all add: get_inv_sub [OF give_up(3)])
next
  case (not_needed s r i)
  show ?case by (rule job_step_inv [OF not_needed(4,1), of Counted]) (simp_all add: get_inv_sub [OF not_needed(4)])
next
  case (needed s r i)
  show ?case by (rule job_step_inv [OF needed(4,1), of Requesting]) (simp_all add: get_inv_sub [OF needed(4)])
next
  case (first_request s r i sub)
  show ?case by (rule request_step_inv [OF first_request(3,1,2)])
next
  case (other_request s r i sub)
  note q = request_inv [OF other_request(2) get_inv_sub [OF other_request(3)]]
  have "groupComplete (gr_sub s) n \<Longrightarrow> groupComplete sub n" for n by (simp add: groupComplete_def q(4))
  then show ?case using q(1-3,5) by - (rule job_step_inv [OF other_request(3,1), of Counted], simp_all add: subset_insertI)
next
  case (got_sct s r i sct cs sub)
  have u: "job_url s r i \<notin> recorded (gr_sub s)" "job_url s r i \<in> set (map fst (results (gr_sub s)))"
    using got_sct(1,4) unfolding get_inv_def jobs_inv_def by blast+
  note q = setResult_all [OF got_sct(3) get_inv_sub(1) [OF got_sct(4)] assms(3) u(1) get_inv_sub(2) [OF got_sct(4)] _ u(2)]
  show ?case using q got_sct(2) by - (rule job_step_inv [OF got_sct(4,1), of Counted], simp_all)
next
  case (got_error s r i e cs sub)
  have u: "job_url s r i \<notin> recorded (gr_sub s)" "job_url s r i \<in> set (map fst (results (gr_sub s)))"
    using got_error(1,4) unfolding get_inv_def jobs_inv_def by blast+
  note q = setResult_all [OF got_error(3) get_inv_sub(1) [OF got_error(4)] assms(3) u(1) get_inv_sub(2) [OF got_error(4)] _ u(2)]
  show ?case using q by - (rule job_step_inv [OF got_error(4,1), of Counted], simp_all)
next
  case (count r s rc)
  show ?case
    by (subst set_race_groupComplete, rule race_step_inv [OF count(5,1)]) (simp_all add: count(2) groupComplete_list [OF count(5)])
next
  case (race_ends r s rc)
  show ?case
    by (subst set_race_groupComplete, rule race_step_inv [OF race_ends(5,1)]) (simp_all add: race_ends(2) groupComplete_list [OF race_ends(5)])
next
  case (take_event s r rc success)
  have ok: "success \<longrightarrow> groupComplete (gr_sub s) (rc_Name rc)"
    using take_event(2-4,6) by (auto simp: get_inv_def races_inv_def list_all_length)
  have k: "rc_Name rc \<in> set (map fst (gr_groupComplete s))"
    using take_event(2,3,6) unfolding get_inv_def races_inv_def by (metis length_map nth_map nth_mem)
  show ?case
  proof (rule race_step_inv [OF take_event(6,2)])
    show "map fst (AList.update (rc_Name rc) success (gr_groupComplete s)) = map fst (gr_groupComplete s)" using k by (simp add: update_keys)
    show "list_all (\<lambda>(n, b). b \<longrightarrow> groupComplete (gr_sub s) n) (AList.update (rc_Name rc) success (gr_groupComplete s))"
      using ok groupComplete_list [OF take_event(6)] by (intro list_all_AList_update) auto
  qed (use take_event(3,4) ok in auto)
next
  case (collect s)
  show ?case by (rule collect_inv [OF collect(3)])
qed

lemma start_get_inv:
  assumes "distinct (map gi_Name groups)" "list_all (\<lambda>g. 0 \<le> gi_MinInclusions g) groups"
  shows "get_inv submit groups (start_get groups sessions)"
proof -
  have no: "\<not> job_at (start_get groups sessions) r i Submitting" for r i
    by (auto simp: job_at_def start_get_def start_race_def)
  then have "jobs_inv (start_get groups sessions)" by (simp add: jobs_inv_def) (simp add: start_get_def)
  moreover have "sub_inv groups (newSafeSubmissionState groups)" by (rule new_inv [OF assms])
  ultimately show ?thesis
    by (simp add: get_inv_def races_inv_def result_inv_def answered_def start_get_def newSafeSubmissionState_def start_race_def comp_def list_all_iff)
qed

lemma reach_get_inv:
  assumes "(get_step submit)\<^sup>*\<^sup>* (start_get groups sessions) s" "distinct (map gi_Name groups)" "list_all (\<lambda>g. 0 \<le> gi_MinInclusions g) groups"
  shows "get_inv submit groups s"
  using assms(1) by induction (use start_get_inv [OF assms(2,3)] get_step_inv assms(2) in blast)+

end
