(* ===== verification/Distribution.thy ===== *)
theory Distribution
  imports Submission
begin

text \<open>
  The races of a submission end, and what they deliver; the distributor in front of them
  (\<^verbatim>\<open>src/submission/distributor.go\<close>): it validates the chain, picks the logs that accept it, asks the policy for
  groups of them, and runs the races.
\<close>

section \<open>Submissions end\<close>

definition shape_inv :: "get_run \<Rightarrow> bool" where
  "shape_inv s \<longleftrightarrow> list_all (\<lambda>rc. length (rc_jobs rc) = length (rc_session rc) \<and> rc_received rc \<le> counted rc) (gr_races s)"

fun job_work :: "job \<Rightarrow> nat" where
  "job_work Waiting = 3"
| "job_work Requesting = 2"
| "job_work Submitting = 1"
| "job_work Counted = 0"

definition race_work :: "race \<Rightarrow> nat" where
  "race_work rc = sum_list (map job_work (rc_jobs rc)) + (length (rc_session rc) - rc_received rc) +
     (if rc_state rc = None then 1 else 0) + (if rc_taken rc then 0 else 1)"

definition get_work :: "get_run \<Rightarrow> nat" where
  "get_work s = sum_list (map race_work (gr_races s)) + (if gr_result s = None then 1 else 0)"

lemma counted_update:
  "i < length xs \<Longrightarrow> xs ! i \<noteq> Counted \<Longrightarrow> length (filter (\<lambda>j. j = Counted) xs) \<le> length (filter (\<lambda>j. j = Counted) (xs[i := y]))"
proof (induction xs arbitrary: i)
  case (Cons x xs)
  then show ?case by (cases i) auto
qed simp

lemma job_step_shape:
  assumes "shape_inv s" "job_at s r i x" "x \<noteq> Counted" "gr_races t = gr_races (set_job s r i j)"
  shows "shape_inv t"
proof -
  have "r < length (gr_races s)" using assms(2) by (simp add: job_at_def)
  then have "list_all (\<lambda>rc. length (rc_jobs rc) = length (rc_session rc) \<and> rc_received rc \<le> counted rc) [gr_races s ! r]"
    using assms(1) by (auto simp: shape_inv_def list_all_iff)
  moreover have "counted (gr_races s ! r) \<le> length (filter (\<lambda>j. j = Counted) ((rc_jobs (gr_races s ! r))[i := j]))"
    using assms(2,3) unfolding counted_def by (intro counted_update) (auto simp: job_at_def)
  ultimately show ?thesis
    using assms(1) unfolding shape_inv_def assms(4) set_job_def by (auto simp: counted_def intro!: list_all_update)
qed

lemma race_step_shape:
  assumes "shape_inv s" "gr_races t = (gr_races s)[r := rc]" "length (rc_jobs rc) = length (rc_session rc)" "rc_received rc \<le> counted rc"
  shows "shape_inv t"
  using assms unfolding shape_inv_def by (auto intro!: list_all_update)

lemma race_shape:
  assumes "shape_inv s" "r < length (gr_races s)" "rc = gr_races s ! r"
  shows "length (rc_jobs rc) = length (rc_session rc)" "rc_received rc \<le> counted rc" "counted rc \<le> length (rc_session rc)"
  using assms by (auto simp: shape_inv_def list_all_length counted_def intro: order_trans [OF length_filter_le])

lemma job_step_work:
  assumes "job_at s r i x" "job_work j < job_work x" "gr_races t = gr_races (set_job s r i j)" "gr_result t = gr_result s"
  shows "get_work t < get_work s"
proof -
  let ?rc = "gr_races s ! r"
  have r: "r < length (gr_races s)" and i: "i < length (rc_jobs ?rc)" "rc_jobs ?rc ! i = x" using assms(1) by (auto simp: job_at_def)
  have "sum_list (map job_work ((rc_jobs ?rc)[i := j])) < sum_list (map job_work (rc_jobs ?rc))"
    using sum_list_update_add [OF i(1), of job_work j] i(2) assms(2) by simp
  then have "race_work (?rc\<lparr>rc_jobs := (rc_jobs ?rc)[i := j]\<rparr>) < race_work ?rc" by (simp add: race_work_def)
  then show ?thesis
    using sum_list_update_add [OF r, of race_work "?rc\<lparr>rc_jobs := (rc_jobs ?rc)[i := j]\<rparr>"] assms(3,4)
    by (simp add: get_work_def set_job_def)
qed

lemma race_step_work:
  assumes "r < length (gr_races s)" "race_work rc < race_work (gr_races s ! r)" "gr_races t = (gr_races s)[r := rc]" "gr_result t = gr_result s"
  shows "get_work t < get_work s"
  using sum_list_update_add [OF assms(1), of race_work rc] assms(2-4) by (simp add: get_work_def)

text \<open>Every step but those of the clock and of the context brings the end nearer.\<close>

lemma job_step_ends:
  assumes "job_at s r i x" "shape_inv s" "job_work j < job_work x" "gr_races t = gr_races (set_job s r i j)" "gr_result t = gr_result s"
  shows "shape_inv t \<and> (get_work t < get_work s \<or> gr_races t = gr_races s \<and> gr_result t = gr_result s)"
proof -
  have "x \<noteq> Counted" using assms(3) by auto
  then show ?thesis using job_step_shape [OF assms(2,1) _ assms(4)] job_step_work [OF assms(1,3-5)] by blast
qed

lemma race_step_ends:
  assumes "r < length (gr_races s)" "shape_inv s" "race_work rc < race_work (gr_races s ! r)" "gr_races t = (gr_races s)[r := rc]"
    "gr_result t = gr_result s" "length (rc_jobs rc) = length (rc_session rc)" "rc_received rc \<le> counted rc"
  shows "shape_inv t \<and> (get_work t < get_work s \<or> gr_races t = gr_races s \<and> gr_result t = gr_result s)"
  using race_step_shape [OF assms(2,4,6,7)] race_step_work [OF assms(1,3-5)] by blast

lemma get_step_work:
  assumes "get_step submit s t" "shape_inv s"
  shows "shape_inv t \<and> (get_work t < get_work s \<or> gr_races t = gr_races s \<and> gr_result t = gr_result s)"
  using assms
proof (induction rule: get_step.induct)
  case (give_up s r i)
  show ?case by (rule job_step_ends [OF give_up(1,3), of Counted]) simp_all
next
  case (not_needed s r i)
  show ?case by (rule job_step_ends [OF not_needed(1,4), of Counted]) simp_all
next
  case (needed s r i)
  show ?case by (rule job_step_ends [OF needed(1,4), of Requesting]) simp_all
next
  case (first_request s r i sub)
  show ?case by (rule job_step_ends [OF first_request(1,3), of Submitting]) simp_all
next
  case (other_request s r i sub)
  show ?case by (rule job_step_ends [OF other_request(1,3), of Counted]) simp_all
next
  case (got_sct s r i sct cs sub)
  show ?case by (rule job_step_ends [OF got_sct(1,4), of Counted]) simp_all
next
  case (got_error s r i e cs sub)
  show ?case by (rule job_step_ends [OF got_error(1,4), of Counted]) simp_all
next
  case (count r s rc)
  note sh = race_shape [OF count(5,1,2)]
  show ?case
    by (rule race_step_ends [OF count(1) count(5), of "rc\<lparr>rc_received := rc_received rc + 1, rc_state := (if groupComplete (gr_sub s) (rc_Name rc) then Some True else None)\<rparr>"])
      (use count sh in \<open>auto simp: set_race_def race_work_def counted_def\<close>)
next
  case (race_ends r s rc)
  note sh = race_shape [OF race_ends(5,1,2)]
  show ?case
    by (rule race_step_ends [OF race_ends(1) race_ends(5), of "rc\<lparr>rc_state := Some (groupComplete (gr_sub s) (rc_Name rc))\<rparr>"])
      (use race_ends sh in \<open>auto simp: set_race_def race_work_def counted_def\<close>)
next
  case (take_event s r rc success)
  note sh = race_shape [OF take_event(6,2,3)]
  show ?case
    by (rule race_step_ends [OF take_event(2) take_event(6), of "rc\<lparr>rc_taken := True\<rparr>"])
      (use take_event sh in \<open>auto simp: set_race_def race_work_def counted_def\<close>)
qed (simp_all add: shape_inv_def get_work_def)

lemma start_shape: "shape_inv (start_get groups sessions)"
  by (simp add: shape_inv_def start_get_def start_race_def list_all_iff)

lemma reach_shape: "(get_step submit)\<^sup>*\<^sup>* s t \<Longrightarrow> shape_inv s \<Longrightarrow> shape_inv t"
  by (induction rule: rtranclp_induct) (use get_step_work in blast)+

text \<open>No deadlock, however the goroutines were scheduled so far.\<close>

lemma job_progress:
  assumes at: "job_at s r i x" "x \<noteq> Counted" and ans: "\<And>u. \<exists>a. submit u a"
  shows "\<exists>t. (get_step submit)\<^sup>*\<^sup>* s t \<and> get_work t < get_work s"
proof (cases x)
  case Waiting
  define T where "T = max (gr_clock s + 1) (postInterval i (rc_parallelStart (gr_races s ! r)) PostBatchInterval)"
  let ?s = "s\<lparr>gr_clock := T\<rparr>"
  have 1: "get_step submit s ?s" by (rule get_step.tick) (simp add: T_def)
  have at': "job_at ?s r i Waiting" using at Waiting by (simp add: job_at_def)
  have due: "postInterval i (rc_parallelStart (gr_races ?s ! r)) PostBatchInterval \<le> gr_clock ?s" by (simp add: T_def)
  have w: "get_work ?s = get_work s" by (simp add: get_work_def)
  show ?thesis
  proof (cases "groupComplete (gr_sub ?s) (rc_Name (gr_races ?s ! r))")
    case True
    note st = get_step.not_needed [OF at' due True]
    have "get_work ((set_job ?s r i Counted)\<lparr>gr_cancelled := (r, i) # gr_cancelled ?s\<rparr>) < get_work ?s"
      by (rule job_step_work [OF at', of Counted]) simp_all
    then show ?thesis using 1 st w by (metis converse_rtranclp_into_rtranclp r_into_rtranclp)
  next
    case False
    note st = get_step.needed [OF at' due False]
    have "get_work (set_job ?s r i Requesting) < get_work ?s" by (rule job_step_work [OF at', of Requesting]) simp_all
    then show ?thesis using 1 st w by (metis converse_rtranclp_into_rtranclp r_into_rtranclp)
  qed
next
  case Requesting
  obtain b sub where q: "request (gr_sub s) (job_url s r i) (r, i) = (b, sub)" by fastforce
  show ?thesis
  proof (cases b)
    case True
    have "get_work ((set_job s r i Submitting)\<lparr>gr_sub := sub, gr_requests := gr_requests s @ [job_url s r i]\<rparr>) < get_work s"
      by (rule job_step_work [OF at(1), of Submitting]) (simp_all add: Requesting)
    then show ?thesis using get_step.first_request [OF at(1) [unfolded Requesting] q [unfolded True [THEN Eq_TrueI]]] by blast
  next
    case False
    have "get_work ((set_job s r i Counted)\<lparr>gr_sub := sub\<rparr>) < get_work s"
      by (rule job_step_work [OF at(1), of Counted]) (simp_all add: Requesting)
    moreover have "request (gr_sub s) (job_url s r i) (r, i) = (False, sub)" using q False by simp
    ultimately show ?thesis using get_step.other_request [OF at(1) [unfolded Requesting]] by blast
  qed
next
  case Submitting
  obtain a where a: "submit (job_url s r i) a" using ans by blast
  obtain cs sub where q: "setResult (gr_sub s) (job_url s r i) (case a of Inl _ \<Rightarrow> None | Inr x \<Rightarrow> Some x)
      (case a of Inl e \<Rightarrow> Some e | Inr _ \<Rightarrow> None) = (cs, sub)" by fastforce
  let ?t = "(set_job s r i Counted)\<lparr>gr_sub := sub, gr_cancelled := cs @ gr_cancelled s\<rparr>"
  have "get_work ?t < get_work s" by (rule job_step_work [OF at(1), of Counted]) (simp_all add: Submitting)
  moreover have "get_step submit s ?t"
    using a q get_step.got_sct [OF at(1) [unfolded Submitting]] get_step.got_error [OF at(1) [unfolded Submitting]] by (cases a) auto
  ultimately show ?thesis by blast
qed (use at in simp)

lemma race_progress:
  assumes sh: "shape_inv s" and none: "gr_result s = None" and fin: "\<And>r i x. job_at s r i x \<Longrightarrow> x = Counted"
  shows "\<exists>t. get_step submit s t \<and> get_work t < get_work s"
proof -
  have st: "\<exists>t. get_step submit s t \<and> \<not> (gr_races t = gr_races s \<and> gr_result t = gr_result s)"
  proof (cases "\<exists>r<length (gr_races s). rc_state (gr_races s ! r) = None")
    case True
    then obtain r where r: "r < length (gr_races s)" "rc_state (gr_races s ! r) = None" by blast
    note rs = race_shape [OF sh r(1) refl]
    have "counted (gr_races s ! r) = length (rc_session (gr_races s ! r))"
    proof -
      have "\<forall>j\<in>set (rc_jobs (gr_races s ! r)). j = Counted" using fin r(1) by (auto simp: job_at_def in_set_conv_nth)
      then have "filter (\<lambda>j. j = Counted) (rc_jobs (gr_races s ! r)) = rc_jobs (gr_races s ! r)" by (simp add: filter_id_conv)
      then show ?thesis using rs(1) by (simp add: counted_def)
    qed
    then consider "rc_received (gr_races s ! r) < counted (gr_races s ! r)" | "rc_received (gr_races s ! r) = length (rc_session (gr_races s ! r))"
      using rs(2) by linarith
    then show ?thesis
    proof cases
      case 1
      let ?t = "set_race s r ((gr_races s ! r)\<lparr>rc_received := rc_received (gr_races s ! r) + 1,
        rc_state := (if groupComplete (gr_sub s) (rc_Name (gr_races s ! r)) then Some True else None)\<rparr>)"
      have "rc_received (gr_races ?t ! r) \<noteq> rc_received (gr_races s ! r)" using r(1) by (simp add: set_race_def)
      then show ?thesis using get_step.count [OF r(1) refl r(2) 1] by metis
    next
      case 2
      let ?t = "set_race s r ((gr_races s ! r)\<lparr>rc_state := Some (groupComplete (gr_sub s) (rc_Name (gr_races s ! r)))\<rparr>)"
      have "rc_state (gr_races ?t ! r) \<noteq> rc_state (gr_races s ! r)" using r by (simp add: set_race_def)
      then show ?thesis using get_step.race_ends [OF r(1) refl r(2) disjI1 [OF 2]] by metis
    qed
  next
    case False
    show ?thesis
    proof (cases "list_all rc_taken (gr_races s)")
      case True
      then show ?thesis using get_step.collect [OF none disjI1 [OF True]] none by fastforce
    next
      case nt: False
      then obtain r where r: "r < length (gr_races s)" "\<not> rc_taken (gr_races s ! r)" by (auto simp: list_all_length)
      then obtain b where b: "rc_state (gr_races s ! r) = Some b" using False by (cases "rc_state (gr_races s ! r)") auto
      let ?t = "(set_race s r ((gr_races s ! r)\<lparr>rc_taken := True\<rparr>))\<lparr>gr_groupComplete := AList.update (rc_Name (gr_races s ! r)) b (gr_groupComplete s)\<rparr>"
      have "rc_taken (gr_races ?t ! r) \<noteq> rc_taken (gr_races s ! r)" using r by (simp add: set_race_def)
      then show ?thesis using get_step.take_event [OF none r(1) refl b r(2)] by metis
    qed
  qed
  then show ?thesis using get_step_work [OF _ sh] by blast
qed

lemma submission_ends:
  assumes "shape_inv s" "\<And>u. \<exists>a. submit u a"
  shows "\<exists>t. (get_step submit)\<^sup>*\<^sup>* s t \<and> gr_result t \<noteq> None"
  using assms(1)
proof (induction "get_work s" arbitrary: s rule: less_induct)
  case less
  show ?case
  proof (cases "gr_result s")
    case None
    have "\<exists>t. (get_step submit)\<^sup>*\<^sup>* s t \<and> get_work t < get_work s"
    proof (cases "\<forall>r i x. job_at s r i x \<longrightarrow> x = Counted")
      case True
      then show ?thesis using race_progress [OF less.prems None] by blast
    next
      case False
      then show ?thesis using job_progress assms(2) by blast
    qed
    then obtain t where t: "(get_step submit)\<^sup>*\<^sup>* s t" "get_work t < get_work s" by blast
    then show ?thesis using less.hyps [OF t(2) reach_shape [OF t(1) less.prems]] by (meson rtranclp_trans)
  qed blast
qed


text \<open>
  (C8) What a submission delivers, in every interleaving of its races: no log gets more than one request; the SCTs
  are of different logs of the groups, each the answer of its log; and when no group failed, every group has as
  many SCTs of its own logs as its policy asks for.
\<close>

theorem GetSCTs_meets_policy:
  assumes "distinct (map gi_Name groups)" and "list_all (\<lambda>g. 0 \<le> gi_MinInclusions g) groups"
    and "(get_step submit)\<^sup>*\<^sup>* (start_get groups sessions) s"
  shows "distinct (gr_requests s) \<and>
    (case gr_result s of
       None \<Rightarrow> True
     | Some (scts, failed) \<Rightarrow> distinct (map as_LogURL scts) \<and> as_LogURL ` set scts \<subseteq> member_logs groups \<and>
         list_all (\<lambda>a. submit (as_LogURL a) (Inr (as_SCT a))) scts \<and> (failed = [] \<longrightarrow> policy_met groups scts))"
  using reach_get_inv [OF assms(3,1,2)] by (simp add: get_inv_def jobs_inv_def result_inv_def)

section \<open>The distributor\<close>

record ('f, 'c) Distributor =
  d_usableLl :: LogList
  d_pendingQualifiedLl :: LogList
  d_logClients :: "(string \<times> 'c) list"
  d_logRoots :: "(string \<times> PEMCertPool) list"
  d_rootPool :: PEMCertPool
  d_rootDataFull :: bool
  d_policy :: "Certificate \<Rightarrow> LogList \<Rightarrow> policy_err + 'f LogPolicyData"

text \<open>The stub that spreads submissions over pending and qualified logs gives its group even with an error.\<close>

definition pending_LogsByGroup :: "'f float32 \<Rightarrow> Certificate \<Rightarrow> LogList \<Rightarrow> policy_err option \<times> 'f LogPolicyData" where
  "pending_LogsByGroup F cert approved = (case BaseGroupFor F approved 1 of (err, baseGroup) \<Rightarrow> (err, [baseGroup]))"

text \<open>The clients that were built before a failure stay.\<close>

fun build_clients :: "(Log \<Rightarrow> 'c option) \<Rightarrow> Log list \<Rightarrow> (string \<times> 'c) list \<Rightarrow> string option \<times> (string \<times> 'c) list" where
  "build_clients lcBuilder [] clients = (None, clients)"
| "build_clients lcBuilder (log # logs) clients =
     (case lcBuilder log of
        None \<Rightarrow> (Some (log_URL log), clients)
      | Some lc \<Rightarrow> build_clients lcBuilder logs (AList.update (log_URL log) lc clients))"

definition buildLogClients :: "(Log \<Rightarrow> 'c option) \<Rightarrow> LogList \<Rightarrow> (string \<times> 'c) list \<Rightarrow> string option \<times> (string \<times> 'c) list" where
  "buildLogClients lcBuilder ll clients = build_clients lcBuilder (all_logs ll) clients"

definition NewDistributor ::
    "LogList \<Rightarrow> (Certificate \<Rightarrow> LogList \<Rightarrow> policy_err + 'f LogPolicyData) \<Rightarrow> (Log \<Rightarrow> 'c option) \<Rightarrow> string + ('f, 'c) Distributor" where
  "NewDistributor ll plc lcBuilder =
     (let active = SelectByStatus ll [UsableLogStatus];
          pending = SelectByStatus ll [PendingLogStatus, QualifiedLogStatus]
      in case buildLogClients lcBuilder active [] of
           (Some err, _) \<Rightarrow> Inl err
         | (None, clients) \<Rightarrow>
             Inr \<lparr>d_usableLl = active, d_pendingQualifiedLl = pending, d_logClients = snd (buildLogClients lcBuilder pending clients),
                  d_logRoots = [], d_rootPool = NewPEMCertPool, d_rootDataFull = False, d_policy = plc\<rparr>)"

text \<open>The roots of one log; \<open>None\<close> when a nil certificate is added to the pool.\<close>

fun parse_roots :: "(bytes \<Rightarrow> bytes) \<Rightarrow> x509_parser \<Rightarrow> ASN1Cert list \<Rightarrow> bool \<Rightarrow> PEMCertPool \<Rightarrow> (bool \<times> PEMCertPool) option" where
  "parse_roots sha256 ParseCertificate [] err pool = Some (err, pool)"
| "parse_roots sha256 ParseCertificate (r # roots) err pool =
     (case ParseCertificate (cert_Data r) of
        (parsed, e) \<Rightarrow>
          if IsFatal e then parse_roots sha256 ParseCertificate roots True pool
          else (case parsed of
                  None \<Rightarrow> None
                | Some c \<Rightarrow> parse_roots sha256 ParseCertificate roots err (PEM_AddCert sha256 pool c)))"

text \<open>The answers of the logs, in the order in which they come: the logs with errors and the fresh roots.\<close>

fun collect_answers ::
    "(bytes \<Rightarrow> bytes) \<Rightarrow> x509_parser \<Rightarrow> (string \<times> (client_error + ASN1Cert list)) list \<Rightarrow> string list \<Rightarrow> (string \<times> PEMCertPool) list \<Rightarrow>
       (string list \<times> (string \<times> PEMCertPool) list) option" where
  "collect_answers sha256 ParseCertificate [] errors fresh = Some (errors, fresh)"
| "collect_answers sha256 ParseCertificate ((logURL, answer) # arrivals) errors fresh =
     (case answer of
        Inl e \<Rightarrow> collect_answers sha256 ParseCertificate arrivals (errors @ [logURL]) fresh
      | Inr roots \<Rightarrow>
          (case parse_roots sha256 ParseCertificate roots False NewPEMCertPool of
             None \<Rightarrow> None
           | Some (err, pool) \<Rightarrow>
               collect_answers sha256 ParseCertificate arrivals (if err then errors @ [logURL] else errors) (AList.update logURL pool fresh)))"

text \<open>\<open>ord\<close> is the order of the loop that merges the pools.\<close>

definition RefreshRoots ::
    "(bytes \<Rightarrow> bytes) \<Rightarrow> x509_parser \<Rightarrow> ((string \<times> PEMCertPool) list \<Rightarrow> (string \<times> PEMCertPool) list) \<Rightarrow>
       (string \<times> (client_error + ASN1Cert list)) list \<Rightarrow> ('f, 'c) Distributor \<Rightarrow> (string list \<times> ('f, 'c) Distributor) option" where
  "RefreshRoots sha256 ParseCertificate ord arrivals d =
     map_option (\<lambda>(errors, fresh).
       (errors, d\<lparr>d_logRoots := fresh, d_rootDataFull := (length fresh = length (d_logClients d)),
          d_rootPool := foldl (\<lambda>p (u, pool). foldl (PEM_AddCert sha256) p (rawCerts pool)) NewPEMCertPool (ord fresh)\<rparr>))
       (collect_answers sha256 ParseCertificate arrivals [] [])"

text \<open>The answers that a client may give are an argument.\<close>

definition SubmitToLog ::
    "('c \<Rightarrow> ASN1Cert list \<Rightarrow> bool \<Rightarrow> client_error + SignedCertificateTimestamp \<Rightarrow> bool) \<Rightarrow> ('f, 'c) Distributor \<Rightarrow> ASN1Cert list \<Rightarrow> bool \<Rightarrow>
       string \<Rightarrow> client_error + SignedCertificateTimestamp \<Rightarrow> bool" where
  "SubmitToLog answers d chain asPreChain logURL ans =
     (case map_of (d_logClients d) logURL of
        None \<Rightarrow> ans = Inl BadArgument
      | Some lc \<Rightarrow> answers lc chain asPreChain ans)"

datatype dist_err = EmptyChain | CannotProcess chain_err | CannotParse | BadCertificate chain_err | WrongMethod | PolicyErr policy_err | DistPanic

fun parseRawChain :: "x509_parser \<Rightarrow> bytes list \<Rightarrow> Certificate option list option" where
  "parseRawChain ParseCertificate [] = Some []"
| "parseRawChain ParseCertificate (certBytes # rest) =
     (case ParseCertificate certBytes of
        (cert, err) \<Rightarrow> if IsFatal err then None else map_option (\<lambda>cs. cert # cs) (parseRawChain ParseCertificate rest))"

definition compatibleLogsAndChain ::
    "('rp, 'ep, 'rand) env \<Rightarrow> (bytes \<Rightarrow> bytes) \<Rightarrow> x509_parser \<Rightarrow> ('f, 'c) Distributor \<Rightarrow> bytes list \<Rightarrow>
       dist_err + LogList \<times> Certificate option list" where
  "compatibleLogsAndChain env sha256 ParseCertificate d rawChain =
     (case ValidateChain env sha256 ParseCertificate rawChain
             (NewCertValidationOpts (d_rootPool d) zero_time False False None None False []) of
        Inr rootedChain \<Rightarrow>
          if rootedChain = [] then Inl DistPanic
          else Inr (Compatible sha256 (d_usableLl d) (Some (hd rootedChain)) (Some (List.last rootedChain)) (map_of (d_logRoots d)), map Some rootedChain)
      | Inl ChainPanic \<Rightarrow> Inl DistPanic
      | Inl err \<Rightarrow>
          if d_rootDataFull d then Inl (CannotProcess err)
          else
            (case parseRawChain ParseCertificate rawChain of
               None \<Rightarrow> Inl CannotParse
             | Some [] \<Rightarrow> Inl DistPanic
             | Some (c # cs) \<Rightarrow> Inr (Compatible sha256 (d_usableLl d) c None (map_of (d_logRoots d)), c # cs)))"

text \<open>Up to the call of \<^verbatim>\<open>GetSCTs\<close>: the groups and the chain that it gets.\<close>

definition addSomeChain ::
    "('rp, 'ep, 'rand) env \<Rightarrow> (bytes \<Rightarrow> bytes) \<Rightarrow> x509_parser \<Rightarrow> ('f, 'c) Distributor \<Rightarrow> bytes list \<Rightarrow> bool \<Rightarrow>
       dist_err + 'f LogPolicyData \<times> ASN1Cert list" where
  "addSomeChain env sha256 ParseCertificate d rawChain asPreChain =
     (if rawChain = [] then Inl EmptyChain
      else
        bind_res (compatibleLogsAndChain env sha256 ParseCertificate d rawChain) (\<lambda>(compatibleLogs, parsedChain).
          case hd parsedChain of
            None \<Rightarrow> Inl DistPanic
          | Some leaf \<Rightarrow>
              (case ctfe_IsPrecertificate leaf of
                 Inl err \<Rightarrow> Inl (BadCertificate err)
               | Inr isPrecert \<Rightarrow>
                   if isPrecert \<noteq> asPreChain then Inl WrongMethod
                   else
                     (case d_policy d leaf compatibleLogs of
                        Inl err \<Rightarrow> Inl (PolicyErr err)
                      | Inr groups \<Rightarrow>
                          if None \<in> set parsedChain then Inl DistPanic
                          else Inr (groups, map (\<lambda>c. \<lparr>cert_Data = Raw (the c)\<rparr>) parsedChain)))))"

text \<open>
  A log that may be used for a certificate: it is in the list, usable, takes certificates of that expiry, and
  is not known to reject the root of the chain.
\<close>

definition eligible :: "(bytes \<Rightarrow> bytes) \<Rightarrow> LogList \<Rightarrow> LogRoots \<Rightarrow> Certificate \<Rightarrow> Certificate option \<Rightarrow> (Operator \<Rightarrow> bool) \<Rightarrow> string \<Rightarrow> bool" where
  "eligible sha256 ll roots leaf certRoot P url \<longleftrightarrow>
     (\<exists>op\<in>set (ll_Operators ll). \<exists>l\<in>set (op_Logs op). P op \<and> log_URL l = url \<and> LogStates_LogStatus (log_State l) = UsableLogStatus \<and>
        temporal_ok leaf l \<and> root_ok sha256 roots certRoot l)"

lemma eligible_any: "eligible sha256 ll roots leaf certRoot Q u \<Longrightarrow> eligible sha256 ll roots leaf certRoot (\<lambda>op. True) u"
  by (auto simp: eligible_def)

lemma members_eligible:
  assumes "url \<in> member_urls (Compatible sha256 (SelectByStatus ll [UsableLogStatus]) (Some leaf) certRoot roots) P"
    and "\<And>op op'. op_Email op = op_Email op' \<Longrightarrow> P op = P op'"
  shows "eligible sha256 ll roots leaf certRoot P url"
proof -
  obtain l op where o: "op \<in> set (ll_Operators (Compatible sha256 (SelectByStatus ll [UsableLogStatus]) (Some leaf) certRoot roots))"
      "P op" "l \<in> set (op_Logs op)" "log_URL l = url"
    using assms(1) by (auto simp: member_urls_def)
  obtain op1 where o1: "op1 \<in> set (ll_Operators (SelectByStatus ll [UsableLogStatus]))" "op_Email op1 = op_Email op" "l \<in> set (op_Logs op1)"
      "temporal_ok leaf l" "root_ok sha256 roots certRoot l"
    using Compatible_log [OF o(1,3)] by blast
  obtain op2 where o2: "op2 \<in> set (ll_Operators ll)" "op_Email op2 = op_Email op1" "l \<in> set (op_Logs op2)"
      "LogStates_LogStatus (log_State l) = UsableLogStatus"
    using SelectByStatus_log [OF o1(1,3)] by auto
  then show ?thesis unfolding eligible_def using o o1 assms(2) [of op op2] by auto
qed

lemma policy_group_eligible:
  assumes "policy_group (Compatible sha256 (SelectByStatus ll [UsableLogStatus]) (Some leaf) certRoot roots) g name Q n"
    and "\<And>op op'. op_Email op = op_Email op' \<Longrightarrow> Q op = Q op'"
  shows "set (gi_LogURLs g) \<subseteq> Collect (eligible sha256 ll roots leaf certRoot Q)"
proof
  fix u assume "u \<in> set (gi_LogURLs g)"
  then have "u \<in> member_urls (Compatible sha256 (SelectByStatus ll [UsableLogStatus]) (Some leaf) certRoot roots) Q"
    using assms(1) by (simp add: policy_group_def)
  from members_eligible [OF this assms(2)] show "u \<in> Collect (eligible sha256 ll roots leaf certRoot Q)" by simp
qed

lemma addSomeChain_leaf:
  assumes "addSomeChain env sha256 P d rawChain asPreChain = Inr (groups, chain)"
  obtains leaf certRoot where
    "d_policy d leaf (Compatible sha256 (d_usableLl d) (Some leaf) certRoot (map_of (d_logRoots d))) = Inr groups"
    "chain \<noteq> [] \<and> hd chain = \<lparr>cert_Data = Raw leaf\<rparr>" "ctfe_IsPrecertificate leaf = Inr asPreChain"
    "\<forall>c. certRoot = Some c \<longrightarrow> List.last chain = \<lparr>cert_Data = Raw c\<rparr>"
proof -
  let ?rest = "\<lambda>logs parsed. case hd parsed of None \<Rightarrow> Inl DistPanic | Some leaf \<Rightarrow>
      (case ctfe_IsPrecertificate leaf of Inl err \<Rightarrow> Inl (BadCertificate err) | Inr isPrecert \<Rightarrow>
         if isPrecert \<noteq> asPreChain then Inl WrongMethod
         else (case d_policy d leaf logs of Inl err \<Rightarrow> Inl (PolicyErr err) | Inr groups \<Rightarrow>
             if None \<in> set parsed then Inl DistPanic else Inr (groups, map (\<lambda>c. \<lparr>cert_Data = Raw (the c)\<rparr>) parsed)))"
  obtain logs parsed where c: "compatibleLogsAndChain env sha256 P d rawChain = Inr (logs, parsed)" and r: "?rest logs parsed = Inr (groups, chain)"
    using assms by (auto simp: addSomeChain_def bind_res_Inr simp del: not_None_eq split: if_split_asm)
  obtain leaf where p: "hd parsed = Some leaf"
      "ctfe_IsPrecertificate leaf = Inr asPreChain" "d_policy d leaf logs = Inr groups" "chain = map (\<lambda>c. \<lparr>cert_Data = Raw (the c)\<rparr>) parsed"
    using r by (auto split: option.split_asm sum.split_asm if_split_asm)
  have "\<exists>certRoot. logs = Compatible sha256 (d_usableLl d) (Some leaf) certRoot (map_of (d_logRoots d)) \<and> parsed \<noteq> [] \<and> (certRoot \<noteq> None \<longrightarrow> List.last parsed = certRoot)"
    using c p(1)
    by (auto simp: compatibleLogsAndChain_def hd_map last_map split: sum.split_asm chain_err.split_asm if_split_asm option.split_asm list.split_asm)
  then obtain certRoot where "logs = Compatible sha256 (d_usableLl d) (Some leaf) certRoot (map_of (d_logRoots d))" "parsed \<noteq> []"
    "certRoot \<noteq> None \<longrightarrow> List.last parsed = certRoot" by blast
  then show ?thesis using that [of leaf certRoot] p by (auto simp: hd_map last_map)
qed


section \<open>Schedules\<close>

text \<open>An interpreter of schedules, for runs on concrete inputs.\<close>

datatype move =
    Tick int | Needed nat nat | Skip nat nat | Request nat nat | Answer nat nat SignedCertificateTimestamp | Count nat | Ends nat | Take nat | Collect

definition exec_move :: "(string \<Rightarrow> client_error + SignedCertificateTimestamp \<Rightarrow> bool) \<Rightarrow> move \<Rightarrow> get_run \<Rightarrow> get_run option" where
  "exec_move submit m s =
     (case m of
        Tick t \<Rightarrow> if gr_clock s < t then Some (s\<lparr>gr_clock := t\<rparr>) else None
      | Needed r i \<Rightarrow>
          if job_at s r i Waiting \<and> postInterval i (rc_parallelStart (gr_races s ! r)) PostBatchInterval \<le> gr_clock s \<and>
             \<not> groupComplete (gr_sub s) (rc_Name (gr_races s ! r))
          then Some (set_job s r i Requesting) else None
      | Skip r i \<Rightarrow>
          if job_at s r i Waiting \<and> postInterval i (rc_parallelStart (gr_races s ! r)) PostBatchInterval \<le> gr_clock s \<and>
             groupComplete (gr_sub s) (rc_Name (gr_races s ! r))
          then Some ((set_job s r i Counted)\<lparr>gr_cancelled := (r, i) # gr_cancelled s\<rparr>) else None
      | Request r i \<Rightarrow>
          if job_at s r i Requesting then
            (case request (gr_sub s) (job_url s r i) (r, i) of
               (True, sub) \<Rightarrow> Some ((set_job s r i Submitting)\<lparr>gr_sub := sub, gr_requests := gr_requests s @ [job_url s r i]\<rparr>)
             | (False, sub) \<Rightarrow> Some ((set_job s r i Counted)\<lparr>gr_sub := sub\<rparr>))
          else None
      | Answer r i sct \<Rightarrow>
          if job_at s r i Submitting \<and> submit (job_url s r i) (Inr sct) then
            (case setResult (gr_sub s) (job_url s r i) (Some sct) None of
               (cs, sub) \<Rightarrow> Some ((set_job s r i Counted)\<lparr>gr_sub := sub, gr_cancelled := cs @ gr_cancelled s\<rparr>))
          else None
      | Count r \<Rightarrow>
          if r < length (gr_races s) \<and> rc_state (gr_races s ! r) = None \<and> rc_received (gr_races s ! r) < counted (gr_races s ! r)
          then Some (set_race s r ((gr_races s ! r)\<lparr>rc_received := rc_received (gr_races s ! r) + 1,
                 rc_state := (if groupComplete (gr_sub s) (rc_Name (gr_races s ! r)) then Some True else None)\<rparr>))
          else None
      | Ends r \<Rightarrow>
          if r < length (gr_races s) \<and> rc_state (gr_races s ! r) = None \<and> rc_received (gr_races s ! r) = length (rc_session (gr_races s ! r))
          then Some (set_race s r ((gr_races s ! r)\<lparr>rc_state := Some (groupComplete (gr_sub s) (rc_Name (gr_races s ! r)))\<rparr>))
          else None
      | Take r \<Rightarrow>
          if gr_result s = None \<and> r < length (gr_races s) \<and> \<not> rc_taken (gr_races s ! r) then
            (case rc_state (gr_races s ! r) of
               None \<Rightarrow> None
             | Some success \<Rightarrow> Some ((set_race s r ((gr_races s ! r)\<lparr>rc_taken := True\<rparr>))
                 \<lparr>gr_groupComplete := AList.update (rc_Name (gr_races s ! r)) success (gr_groupComplete s)\<rparr>))
          else None
      | Collect \<Rightarrow>
          if gr_result s = None \<and> list_all rc_taken (gr_races s)
          then Some (s\<lparr>gr_result := Some (collectSCTs (gr_sub s), completenessError (gr_groupComplete s))\<rparr>) else None)"

lemma exec_move_step: "exec_move submit m s = Some t \<Longrightarrow> get_step submit s t"
proof (cases m)
  case (Count r)
  assume "exec_move submit m s = Some t"
  then show ?thesis
    using get_step.count [of r s "gr_races s ! r" submit] by (simp add: exec_move_def Count split: if_split_asm)
qed (auto simp: exec_move_def split: if_split_asm prod.split_asm bool.split_asm option.split_asm intro: get_step.intros)

fun exec_moves :: "(string \<Rightarrow> client_error + SignedCertificateTimestamp \<Rightarrow> bool) \<Rightarrow> move list \<Rightarrow> get_run \<Rightarrow> get_run option" where
  "exec_moves submit [] s = Some s"
| "exec_moves submit (m # ms) s = (case exec_move submit m s of None \<Rightarrow> None | Some t \<Rightarrow> exec_moves submit ms t)"

lemma exec_moves_steps: "exec_moves submit ms s = Some t \<Longrightarrow> (get_step submit)\<^sup>*\<^sup>* s t"
  by (induction ms arbitrary: s) (auto split: option.split_asm dest: exec_move_step intro: converse_rtranclp_into_rtranclp)

text \<open>Two logs, one of them of Google, and the sessions that the weights give.\<close>

definition toy_float :: "int float32" where
  "toy_float = \<lparr>f_zero = 0, f_one = 1, f_add = (+), f_sub = (-), f_mul = (*), f_less = (<), f_eq = (=)\<rparr>"

definition toy_log :: "string \<Rightarrow> Log" where
  "toy_log url = \<lparr>log_Description = [], log_LogID = [], log_Key = [], log_URL = url, log_DNS = [], log_MMD = 0,
     log_State = Some \<lparr>ls_Pending = None, ls_Qualified = None, ls_Usable = Some 0, ls_ReadOnly = None, ls_Retired = None, ls_Rejected = None\<rparr>,
     log_TemporalInterval = None, log_Type = []\<rparr>"

definition two_logs :: LogList where
  "two_logs = \<lparr>ll_Operators = [\<lparr>op_Name = ''G'', op_Email = [''google-ct-logs@googlegroups.com''], op_Logs = [toy_log ''g'']\<rparr>,
     \<lparr>op_Name = ''N'', op_Email = [], op_Logs = [toy_log ''n'']\<rparr>]\<rparr>"

definition two_groups :: "int LogPolicyData" where
  "two_groups = [\<lparr>gi_Name = ''Google-operated'', gi_LogURLs = [''g''], gi_MinInclusions = 1, gi_IsBase = False, gi_LogWeights = [(''g'', 1)]\<rparr>,
     \<lparr>gi_Name = ''Non-Google-operated'', gi_LogURLs = [''n''], gi_MinInclusions = 1, gi_IsBase = False, gi_LogWeights = [(''n'', 1)]\<rparr>,
     \<lparr>gi_Name = ''All-logs'', gi_LogURLs = [''g'', ''n''], gi_MinInclusions = 2, gi_IsBase = True, gi_LogWeights = [(''g'', 1), (''n'', 1)]\<rparr>]"

definition policy_sessions :: "'f float32 \<Rightarrow> (nat \<Rightarrow> 'f draw) \<Rightarrow> 'f LogPolicyData \<Rightarrow> string \<Rightarrow> string list" where
  "policy_sessions F draws groups name =
     (case find (\<lambda>g. gi_Name g = name) groups of None \<Rightarrow> [] | Some g \<Rightarrow> GetSubmissionSession F draws g)"

definition toy_draws :: "nat \<Rightarrow> int draw" where
  "toy_draws n = (\<lambda>ws. ws, \<lambda>ws. ws, 0)"

definition toy_sct :: SignedCertificateTimestamp where
  "toy_sct = \<lparr>sct_SCTVersion = 0, sct_LogID = [], sct_Timestamp = 0, sct_Extensions = [], sct_Signature = zero_DigitallySigned\<rparr>"

definition toy_submit :: "string \<Rightarrow> client_error + SignedCertificateTimestamp \<Rightarrow> bool" where
  "toy_submit u a = (a = Inr toy_sct)"

text \<open>Both logs take their time, and the race over all logs finds them requested already.\<close>

definition slow_logs :: "move list" where
  "slow_logs = [Needed 0 0, Request 0 0, Needed 1 0, Request 1 0, Tick 2000000000, Needed 2 0, Request 2 0, Needed 2 1, Request 2 1,
     Count 2, Count 2, Ends 2, Answer 0 0 toy_sct, Answer 1 0 toy_sct, Count 0, Count 1, Take 0, Take 1, Take 2, Collect]"

text \<open>Both logs answer at once.\<close>

definition quick_logs :: "move list" where
  "quick_logs = [Needed 0 0, Request 0 0, Answer 0 0 toy_sct, Needed 1 0, Request 1 0, Answer 1 0 toy_sct, Count 0, Count 1,
     Tick 1000000000, Skip 2 0, Count 2, Take 0, Take 1, Take 2, Collect]"

lemma two_groups_chrome: "Chrome_LogsByGroup toy_float toy_leaf two_logs = Inr two_groups"
  by code_simp

lemma slow_run:
  "map_option (\<lambda>s. (gr_ctxDone s, gr_result s)) (exec_moves toy_submit slow_logs (start_get two_groups (policy_sessions toy_float toy_draws two_groups))) =
     Some (False, Some ([\<lparr>as_LogURL = ''g'', as_SCT = toy_sct\<rparr>, \<lparr>as_LogURL = ''n'', as_SCT = toy_sct\<rparr>], [BaseName]))"
  by code_simp

lemma quick_run:
  "map_option (\<lambda>s. (gr_requests s, gr_result s)) (exec_moves toy_submit quick_logs (start_get two_groups (policy_sessions toy_float toy_draws two_groups))) =
     Some ([''g'', ''n''], Some ([\<lparr>as_LogURL = ''g'', as_SCT = toy_sct\<rparr>, \<lparr>as_LogURL = ''n'', as_SCT = toy_sct\<rparr>], []))"
  by code_simp

text \<open>
  (C39) Groups that share logs can make a submission fail that collected all it needs. With two slow logs, the
  race over all logs finds both of them requested by the other races, runs out of its own session and reports
  failure while the answers are still on their way; when they arrive, all groups have their SCTs, and the
  submission returns an error all the same.
\<close>

theorem overlapping_groups_fail:
  "\<exists>s scts. Chrome_LogsByGroup toy_float toy_leaf two_logs = Inr two_groups \<and>
     (get_step toy_submit)\<^sup>*\<^sup>* (start_get two_groups (policy_sessions toy_float toy_draws two_groups)) s \<and>
     \<not> gr_ctxDone s \<and> gr_result s = Some (scts, [BaseName]) \<and> policy_met two_groups scts"
proof -
  obtain s where s: "exec_moves toy_submit slow_logs (start_get two_groups (policy_sessions toy_float toy_draws two_groups)) = Some s"
      "\<not> gr_ctxDone s" "gr_result s = Some ([\<lparr>as_LogURL = ''g'', as_SCT = toy_sct\<rparr>, \<lparr>as_LogURL = ''n'', as_SCT = toy_sct\<rparr>], [BaseName])"
    using slow_run by auto
  have "policy_met two_groups [\<lparr>as_LogURL = ''g'', as_SCT = toy_sct\<rparr>, \<lparr>as_LogURL = ''n'', as_SCT = toy_sct\<rparr>]"
    by (simp add: policy_met_def two_groups_def Int_insert_left)
  then show ?thesis using s exec_moves_steps [OF s(1)] two_groups_chrome by blast
qed


lemma two_groups_wf: "distinct (map gi_Name two_groups)" "list_all (\<lambda>g. 0 \<le> gi_MinInclusions g) two_groups"
  by (simp_all add: two_groups_def)

theorem GetSCTs_meets_policy_witness:
  "\<exists>scts. policy_met two_groups scts \<and> map as_LogURL scts = [''g'', ''n'']"
proof -
  obtain s where s: "exec_moves toy_submit quick_logs (start_get two_groups (policy_sessions toy_float toy_draws two_groups)) = Some s"
      "gr_result s = Some ([\<lparr>as_LogURL = ''g'', as_SCT = toy_sct\<rparr>, \<lparr>as_LogURL = ''n'', as_SCT = toy_sct\<rparr>], [])"
    using quick_run by auto
  show ?thesis using GetSCTs_meets_policy [OF two_groups_wf exec_moves_steps [OF s(1)]] unfolding s(2) by auto
qed

definition toy_dist :: "(int, string) Distributor" where
  "toy_dist = (case NewDistributor two_logs (Chrome_LogsByGroup toy_float) (\<lambda>l. Some (log_URL l)) of Inr d \<Rightarrow>
     d\<lparr>d_rootPool := foldl (PEM_AddCert (take 1)) NewPEMCertPool [toy_root]\<rparr>)"

lemma toy_dist_eq:
  "d_policy toy_dist = Chrome_LogsByGroup toy_float" "d_usableLl toy_dist = SelectByStatus two_logs [UsableLogStatus]"
  "d_logClients toy_dist = [(''g'', ''g''), (''n'', ''n'')]"
  by (simp_all add: toy_dist_def NewDistributor_def Let_def buildLogClients_def two_logs_def toy_log_def SelectByStatus_def LogStates_LogStatus_def all_logs_def)

lemma toy_addSomeChain:
  "addSomeChain toy_env (take 1) toy_parser toy_dist [[1], [3], [4]] False =
     Inr (two_groups, [\<lparr>cert_Data = [1]\<rparr>, \<lparr>cert_Data = [3]\<rparr>, \<lparr>cert_Data = [4]\<rparr>, \<lparr>cert_Data = [5]\<rparr>])"
  by code_simp


end
