(* ===== verification/Spec2Isabelle.thy ===== *)
theory Spec2Isabelle
  imports TLS_Properties TLS_Types Base64 X509_Types X509_TBS CT_Types CT_Serialization
    Range_Tracker Temporal_Log ASN1_Base ASN1_Strings ASN1_Codec X509_Pool X509_Names X509_Verify X509_Chains
    CTFE_Chain CTFE_Log CTFE_Serving Log_Client Log_Fetcher
    CT_Policy Submission Distribution
begin

text \<open>
  Certificate Transparency in Go: a verification development.

  \<^bold>\<open>The program.\<close> The repository implements RFC 6962: the wire formats of certificate logs, the certificates
  they hold, a log front end, clients of logs, and the submission of certificates to many logs. From the bottom
  up: two codecs driven by reflection, for the presentation language of TLS (\<^verbatim>\<open>src/tls\<close>) and for DER
  (\<^verbatim>\<open>src/asn1\<close>); certificates, their pools and their verification (\<^verbatim>\<open>src/x509\<close>); the structures of RFC 6962,
  the bytes that are signed and the checks of signatures (\<^verbatim>\<open>src/types.go\<close>, \<^verbatim>\<open>src/serialization.go\<close>,
  \<^verbatim>\<open>src/signatures.go\<close>); the log front end, which turns HTTP requests into calls of a Trillian backend
  (\<^verbatim>\<open>src/trillian/ctfe\<close>); the JSON client and the log client (\<^verbatim>\<open>src/jsonclient\<close>, \<^verbatim>\<open>src/client\<close>); the fetcher
  and the range tracker, which read a log in parallel (\<^verbatim>\<open>src/scanner/fetcher.go\<close>, \<^verbatim>\<open>src/ingestor/ranges\<close>); and
  the log lists, policies and races of a submission (\<^verbatim>\<open>src/loglist2\<close>, \<^verbatim>\<open>src/ctpolicy\<close>, \<^verbatim>\<open>src/submission\<close>).

  \<^bold>\<open>Conventions.\<close> Definitions have the names of the code; a suffix or a prefix tells apart names that the code
  uses in several packages (\<^verbatim>\<open>AddChain\<close> of the client is \<open>client_AddChain\<close>). A struct is a record whose fields have a
  short prefix, an enumeration a datatype or its numbers, a pointer that may be nil an option, a Go map a map or
  an association list. Bytes and unsigned integers that wrap are words; an \<^verbatim>\<open>int64\<close> is an integer with
  \<open>wrap64\<close> where it may overflow; a time is a number of nanoseconds. A call that can fail returns a value of a
  sum type, a run-time panic is a value of its own. State is passed explicitly; goroutines are steps of an
  inductive relation over all interleavings. Where the result of a loop over a Go map depends on the order, the
  order is an argument. Texts of errors are kept only where code depends on them.

  \<^bold>\<open>Theories, definitions and code.\<close>
    \<^item> \<open>CT_Prelude\<close>: machine types, results (\<open>bind_res\<close>, \<open>bind_run\<close>), big-endian integers, functions of
      \<^verbatim>\<open>strings\<close> and \<^verbatim>\<open>strconv\<close>, lists updated at an index, and the interface \<open>wire_codec\<close>: what is marshalled
      is read back, and what is read was marshalled.
    \<^item> \<open>TLS_Codec\<close>, \<open>TLS_Roundtrip\<close>, \<open>TLS_Properties\<close>: \<^verbatim>\<open>src/tls/tls.go\<close>. Types of Go are data (\<open>gotype\<close>), with
      field tags parsed by the model; \<open>Marshal\<close> and \<open>Unmarshal\<close> follow \<^verbatim>\<open>marshalField\<close> and \<^verbatim>\<open>parseField\<close>. Both
      directions of the round trip, bounds of offsets and termination are proved for every well-annotated type,
      which \<open>tls_type\<close> offers to the users.
    \<^item> \<open>TLS_Types\<close>: \<^verbatim>\<open>src/tls/types.go\<close>, \<^verbatim>\<open>src/tls/signature.go\<close>; \<open>tls_record\<close> lifts the codec to records.
    \<^item> \<open>Base64\<close>: \<^verbatim>\<open>base64.StdEncoding\<close>.
    \<^item> \<open>ASN1_Base\<close>, \<open>ASN1_Strings\<close>, \<open>ASN1_Codec\<close>: \<^verbatim>\<open>src/asn1\<close>, from tags, lengths, integers and object
      identifiers over strings and times to \<^verbatim>\<open>parseField\<close> and \<^verbatim>\<open>makeField\<close>. The lemmas say which inputs the
      primitives accept and with what value.
    \<^item> \<open>X509_Types\<close>, \<open>X509_TBS\<close>: the certificate record, key usages, signature algorithms, severity of parse errors
      (\<^verbatim>\<open>src/x509/x509.go\<close>, \<^verbatim>\<open>src/x509/error.go\<close>), and the surgery that relates a precertificate to the final
      certificate (\<^verbatim>\<open>RemoveSCTList\<close>, \<^verbatim>\<open>BuildPrecertTBS\<close>).
    \<^item> \<open>X509_Pool\<close>, \<open>X509_Names\<close>, \<open>X509_Verify\<close>, \<open>X509_Chains\<close>: \<^verbatim>\<open>src/x509/cert_pool.go\<close>, \<^verbatim>\<open>src/x509/verify.go\<close>. The
      interface \<open>cert_store\<close> is the contract of a pool. The chains that \<open>Verify\<close> returns are signed link by link, end
      in a root, and keep validity, name constraints and key usages; the number of signature checks is bounded.
    \<^item> \<open>CT_Types\<close>, \<open>CT_Serialization\<close>: \<^verbatim>\<open>src/types.go\<close>, \<^verbatim>\<open>src/serialization.go\<close>, \<^verbatim>\<open>src/signatures.go\<close>. The structures that are
      signed or stored are interpretations of \<open>tls_record\<close>; signature inputs are injective, leaves of a precertificate and of the
      final certificate agree, log entries decode to what was stored.
    \<^item> \<open>Temporal_Log\<close>, \<open>Range_Tracker\<close>: \<^verbatim>\<open>src/client/multilog.go\<close>, \<^verbatim>\<open>src/ingestor/ranges/tracker.go\<close>.
    \<^item> \<open>CTFE_Chain\<close>, \<open>CTFE_Log\<close>, \<open>CTFE_Serving\<close>: \<^verbatim>\<open>src/trillian/ctfe\<close>. The state is the backend, the source of the
      signer and the signature cache; a handler ends with a response, a status and an error, a panic, or not at
      all. An SCT is given only for a compliant chain and verifies; served tree heads verify whatever requests
      came before; entries come in order; every request is answered.
    \<^item> \<open>Log_Client\<close>: \<^verbatim>\<open>src/jsonclient\<close>, \<^verbatim>\<open>src/client/logclient.go\<close>, \<^verbatim>\<open>src/client/getentries.go\<close>. The retry loop ends with
      the first decisive answer, and what the front end answers passes the checks of the client.
    \<^item> \<open>Log_Fetcher\<close>: \<^verbatim>\<open>src/scanner/fetcher.go\<close>. The interface \<open>entry_source\<close> is what a fetcher relies on; its
      interpretation is the log client in front of the front end. Each index is delivered exactly once in every
      interleaving, and a run that is not stopped can complete.
    \<^item> \<open>CT_Policy\<close>: \<^verbatim>\<open>src/loglist2\<close>, \<^verbatim>\<open>src/ctpolicy\<close>: lists and filters, groups with weights, the policies of Chrome
      and Apple, weighted random sessions.
    \<^item> \<open>Submission\<close>, \<open>Distribution\<close>: \<^verbatim>\<open>src/submission/races.go\<close>, \<^verbatim>\<open>src/submission/distributor.go\<close>. The invariant of
      the shared state counts the SCTs that each group got; a submission without an error meets the policy, each
      log is asked at most once, and a submission can always return.

  \<^bold>\<open>What is assumed.\<close> Code outside the repository is an argument of the definitions, and theorems name what they
  rely on: \<open>sign_verify_law\<close> and \<open>signer_law\<close> (a signature that was made verifies), \<open>sha256_law\<close> (digests have 32
  bytes), \<open>tbs_codec_law\<close> (the DER form of a TBSCertificate reads back), \<open>parser_law\<close> (a parsed certificate keeps its
  bytes), \<open>dedup_law\<close> (the backend answers a duplicate with a leaf of the same certificate), \<open>draw_law\<close> (an order of
  iteration is a permutation). Crypto primitives, the network, clocks, random numbers, the JSON decoder, \<^verbatim>\<open>float32\<close> and
  the certificate parser are arguments without a law where none is needed. Theorems with hypotheses have a
  witness on concrete values.

  \<^bold>\<open>Termination.\<close> No definition has fuel. Recursion that is not structural has a measure. Loops that may run forever
  are \<^verbatim>\<open>partial_function\<close>s with \<open>None\<close> for not returning: a slice whose elements take no bytes in the TLS decoder, the
  retry loop, the list of indices up to the largest \<^verbatim>\<open>int64\<close>, and loops over PEM blocks, whose decoder is an argument.
  That the others return is proved for all well-annotated types and all requests, apart from the cases that the
  theorems name. Runs of goroutines end by a measure on the work that is left.

  \<^bold>\<open>What is not modelled.\<close>
    \<^item> The DER parser and the builders of certificates, requests and revocation lists, private keys and encrypted PEM
      (\<^verbatim>\<open>src/x509\<close>): the parser is an argument. The roots of operating systems belong to the environment.
    \<^item> Text output, metrics, logging and tracing, protocol-buffer configuration, file and network input, and commands.
    \<^item> The searches of log lists by name, which need Unicode case folding and regular expressions, and the older
      schema \<^verbatim>\<open>src/loglist\<close>.
    \<^item> The scanner's matchers, the fixing of chains, the submission proxy with its timers, the migration tool, the DNS
      client and the helpers of \<^verbatim>\<open>src/ctutil\<close>, which call the modelled functions from callbacks, crawlers or commands,
      or rely on verifiers of Merkle proofs and elections of other repositories.
    \<^item> Generated code, mocks, load tests and test data.
\<close>

end
